theory Spec2Isabelle
  imports Main "HOL-Library.Word"
begin

section \<open>Compile-time strings and the signature deriver (safejni.h, lines 25-59, 203-353, 663-671)\<close>

text \<open>
  \<open>CompileTimeString<Cs...>\<close> is the pack of its characters; \<open>value()\<close> returns a pointer
  to an array holding exactly these characters, so what a reader of that \<open>const char *\<close>
  sees is the characters before the first NUL. A \<open>const char *\<close> is modelled by the C string it
  denotes, \<open>c_str\<close> of the bytes behind it.
\<close>

type_synonym CompileTimeString = string

definition NUL :: char where
  "NUL = CHR 0x00"

definition c_str :: "string \<Rightarrow> string" where
  "c_str s = takeWhile (\<lambda>c. c \<noteq> NUL) s"

definition CompileTimeString_value :: "CompileTimeString \<Rightarrow> string" where
  "CompileTimeString_value cs = c_str cs"

definition Concatenate2 :: "CompileTimeString \<Rightarrow> CompileTimeString \<Rightarrow> CompileTimeString" where
  "Concatenate2 l r = l @ r"

text \<open>\<open>Concatenate<C1, C...>\<close>: one string, two strings, or a head and a non-empty rest.\<close>

fun Concatenate :: "CompileTimeString \<Rightarrow> CompileTimeString list \<Rightarrow> CompileTimeString" where
  "Concatenate c1 [] = c1"
| "Concatenate c1 [c2] = Concatenate2 c1 c2"
| "Concatenate c1 (c2 # cs) = Concatenate2 c1 (Concatenate c2 cs)"

text \<open>The native types for which \<open>CPPToJNIConversor\<close> is specialised (lines 220-353).\<close>

datatype cpp_type =
    T_pointer | T_string | T_cstr | T_vec_string | T_vec_uint8 | T_JNIObjectPtr
  | T_vec_jobject | T_map | T_void | T_int32 | T_int64 | T_float | T_double
  | T_bool | T_int8 | T_uint8 | T_int16

fun JNIType :: "cpp_type \<Rightarrow> CompileTimeString" where
  "JNIType T_pointer = ''J''"
| "JNIType T_string = ''Ljava/lang/String;''"
| "JNIType T_cstr = ''Ljava/lang/String;''"
| "JNIType T_vec_string = ''[Ljava/lang/String;''"
| "JNIType T_vec_uint8 = ''[B''"
| "JNIType T_JNIObjectPtr = ''Ljava/lang/Object;''"
| "JNIType T_vec_jobject = ''[Ljava/lang/Object;''"
| "JNIType T_map = ''Ljava/util/HashMap;''"
| "JNIType T_void = ''V''"
| "JNIType T_int32 = ''I''"
| "JNIType T_int64 = ''J''"
| "JNIType T_float = ''F''"
| "JNIType T_double = ''D''"
| "JNIType T_bool = ''Z''"
| "JNIType T_int8 = ''B''"
| "JNIType T_uint8 = ''C''"
| "JNIType T_int16 = ''S''"

text \<open>
  \<open>getJNISignature<T, Args...>\<close> (lines 663-671): the concatenation of \<open>(\<close>, the parameter
  descriptors, \<open>)\<close>, the return descriptor and a terminating NUL, read through \<open>value()\<close>.
\<close>

definition getJNISignature :: "cpp_type \<Rightarrow> cpp_type list \<Rightarrow> string" where
  "getJNISignature T Args =
     CompileTimeString_value
       (Concatenate ''('' (map JNIType Args @ ['')'', JNIType T, [NUL]]))"

section \<open>The managed runtime, as a handle-accounting fake\<close>

text \<open>
  The managed runtime is outside the library; it is modelled by a fake that keeps the
  table of live references, a journal of every reference created and deleted, and the
  pending-exception slot. A handle is a natural number, \<open>0\<close> the null handle; a new
  reference takes the next unused number, so no number is handed out twice. The fake knows
  the platform classes \<open>java/lang/String\<close>, \<open>java/lang/Object\<close>, \<open>java/lang/Throwable\<close>
  (with \<open>getMessage\<close>) and \<open>java/util/HashMap\<close> (with its constructor and \<open>put\<close>);
  other classes and methods come from \<open>class_table\<close> and \<open>method_table\<close>. Allocation in the
  fake does not fail. Where the JNI specification leaves a call undefined (a null or stale
  handle where an object is required) the fake answers null and changes nothing.
\<close>

type_synonym jobject = nat

type_synonym throwable = "string option"

datatype jvalue =
    JNull
  | JBoolean bool | JByte "8 word" | JChar "16 word" | JShort "16 word"
  | JInt "32 word" | JLong "64 word" | JFloat "32 word" | JDouble "64 word"
  | JString string
  | JObjectArray "jvalue list"
  | JByteArray "8 word list"
  | JFloatArray "32 word list"
  | JHashMap "(string \<times> string) list"
  | JThrowable throwable
  | JClass string
  | JInstance string

datatype outcome = Returned jvalue | Raised throwable

record jmethod =
  m_class :: string
  m_name :: string
  m_sig :: string
  m_static :: bool
  m_body :: "jvalue \<Rightarrow> jvalue list \<Rightarrow> outcome"

datatype jmethodID = NoMethod | Throwable_getMessage | HashMap_init | HashMap_put | UserMethod jmethod

text \<open>\<open>!methodId\<close>: the test for the null method token.\<close>

fun is_null :: "jmethodID \<Rightarrow> bool" where
  "is_null NoMethod = True"
| "is_null _ = False"

datatype ref_kind = Local | Global

datatype ref_event = New ref_kind jobject | Delete ref_kind jobject

datatype jarg = J_ref jobject | J_val jvalue

text \<open>
  \<open>javaVM\<close> is the static \<open>Tools::javaVM\<close>: \<open>None\<close> while unset, \<open>Some status\<close> for a
  runtime whose \<open>AttachCurrentThread\<close> reports \<open>status\<close>. The journal and the log have the
  newest entry first. \<open>malformed_utf\<close> is the string that this runtime makes of bytes that
  are not modified UTF-8, as explained with \<open>NewStringUTF\<close> below.
\<close>

record runtime =
  javaVM :: "int option"
  class_table :: "string list"
  method_table :: "jmethod list"
  refs :: "jobject \<Rightarrow> (ref_kind \<times> jvalue) option"
  next_ref :: nat
  pending :: "throwable option"
  journal :: "ref_event list"
  logcat :: "string list"
  malformed_utf :: "string \<Rightarrow> string"

definition new_ref :: "ref_kind \<Rightarrow> jvalue \<Rightarrow> runtime \<Rightarrow> jobject \<times> runtime" where
  "new_ref k v w =
     (let h = Suc (next_ref w)
      in (h, w\<lparr>refs := (refs w)(h \<mapsto> (k, v)), next_ref := h, journal := New k h # journal w\<rparr>))"

fun is_object :: "jvalue \<Rightarrow> bool" where
  "is_object (JString _) = True"
| "is_object (JObjectArray _) = True"
| "is_object (JByteArray _) = True"
| "is_object (JFloatArray _) = True"
| "is_object (JHashMap _) = True"
| "is_object (JThrowable _) = True"
| "is_object (JClass _) = True"
| "is_object (JInstance _) = True"
| "is_object _ = False"

definition new_local :: "jvalue \<Rightarrow> runtime \<Rightarrow> jobject \<times> runtime" where
  "new_local v w = (if is_object v then new_ref Local v w else (0, w))"

text \<open>What a handle refers to; the null handle refers to nothing.\<close>

definition lookup :: "runtime \<Rightarrow> jobject \<Rightarrow> (ref_kind \<times> jvalue) option" where
  "lookup w h = (if h = 0 then None else refs w h)"

definition deref :: "runtime \<Rightarrow> jobject \<Rightarrow> jvalue" where
  "deref w h = (case lookup w h of None \<Rightarrow> JNull | Some (k, v) \<Rightarrow> v)"

definition raise :: "string \<Rightarrow> runtime \<Rightarrow> runtime" where
  "raise msg w = w\<lparr>pending := Some (Some msg)\<rparr>"

text \<open>
  Strings. A Java string is a sequence of UTF-16 code units; \<open>NewStringUTF\<close> decodes its
  argument, modified UTF-8, to such a sequence and \<open>GetStringUTFChars\<close> gives the modified
  UTF-8 encoding of the string. The fake keeps a string object as that encoding, the bytes
  in \<open>JString\<close>.

  \<open>mutf8_decode\<close> reads the modified UTF-8 of characters of the Basic Multilingual Plane
  other than surrogates, each in its one form: one byte \<open>01..7F\<close>; two bytes
  \<open>110xxxxx 10xxxxxx\<close> for \<open>U+0080..U+07FF\<close> and, as \<open>C0 80\<close>, for \<open>U+0000\<close>; three bytes
  \<open>1110xxxx 10xxxxxx 10xxxxxx\<close> for \<open>U+0800..U+FFFF\<close> without \<open>U+D800..U+DFFF\<close>.
  \<open>mutf8_encode\<close> writes these forms. On all other bytes (a byte \<open>F0..FF\<close> as in the
  standard UTF-8 of a supplementary character, a surrogate, a form longer than needed, a
  stray or missing continuation byte) \<open>mutf8_decode\<close> gives \<open>None\<close>: runtimes differ on
  them, and what string the runtime makes of them is its \<open>malformed_utf\<close>, about which
  nothing is assumed.
\<close>

fun mutf8_decode :: "string \<Rightarrow> nat list option" where
  "mutf8_decode [] = Some []"
| "mutf8_decode (c # cs) =
     (let a = (of_char c :: nat)
      in if 1 \<le> a \<and> a < 128 then map_option (Cons a) (mutf8_decode cs)
         else if 192 \<le> a \<and> a < 224
         then (case cs of
                 c2 # r \<Rightarrow>
                   (let b = (of_char c2 :: nat); u = (a - 192) * 64 + (b - 128)
                    in if 128 \<le> b \<and> b < 192 \<and> (u = 0 \<or> 128 \<le> u)
                       then map_option (Cons u) (mutf8_decode r) else None)
               | [] \<Rightarrow> None)
         else if 224 \<le> a \<and> a < 240
         then (case cs of
                 c2 # c3 # r \<Rightarrow>
                   (let b = (of_char c2 :: nat); d = (of_char c3 :: nat);
                        u = (a - 224) * 4096 + (b - 128) * 64 + (d - 128)
                    in if 128 \<le> b \<and> b < 192 \<and> 128 \<le> d \<and> d < 192 \<and> 2048 \<le> u
                          \<and> \<not> (55296 \<le> u \<and> u < 57344)
                       then map_option (Cons u) (mutf8_decode r) else None)
               | _ \<Rightarrow> None)
         else None)"

definition encode_unit :: "nat \<Rightarrow> string" where
  "encode_unit u =
     (if 1 \<le> u \<and> u < 128 then [char_of u]
      else if u < 2048 then [char_of (192 + u div 64), char_of (128 + u mod 64)]
      else [char_of (224 + u div 4096), char_of (128 + u div 64 mod 64),
            char_of (128 + u mod 64)])"

definition mutf8_encode :: "nat list \<Rightarrow> string" where
  "mutf8_encode us = concat (map encode_unit us)"

text \<open>The bytes are the modified UTF-8 of such characters.\<close>

definition bmp_mutf8 :: "string \<Rightarrow> bool" where
  "bmp_mutf8 bytes \<longleftrightarrow> mutf8_decode bytes \<noteq> None"

text \<open>The string that \<open>NewStringUTF\<close> makes of the bytes, as its encoding.\<close>

definition string_of_utf :: "runtime \<Rightarrow> string \<Rightarrow> string" where
  "string_of_utf w bytes =
     (case mutf8_decode bytes of
        Some units \<Rightarrow> mutf8_encode units
      | None \<Rightarrow> malformed_utf w bytes)"

definition NewStringUTF :: "runtime \<Rightarrow> string \<Rightarrow> jobject \<times> runtime" where
  "NewStringUTF w bytes = new_ref Local (JString (string_of_utf w bytes)) w"

definition platform_classes :: "string list" where
  "platform_classes =
     [''java/lang/String'', ''java/lang/Object'', ''java/lang/Throwable'', ''java/util/HashMap'']"

definition FindClass :: "runtime \<Rightarrow> string \<Rightarrow> jobject \<times> runtime" where
  "FindClass w name =
     (if name \<in> set platform_classes \<or> name \<in> set (class_table w)
      then new_ref Local (JClass name) w
      else (0, raise name w))"

fun class_of :: "jvalue \<Rightarrow> string" where
  "class_of (JString _) = ''java/lang/String''"
| "class_of (JObjectArray _) = ''[Ljava/lang/Object;''"
| "class_of (JByteArray _) = ''[B''"
| "class_of (JFloatArray _) = ''[F''"
| "class_of (JHashMap _) = ''java/util/HashMap''"
| "class_of (JThrowable _) = ''java/lang/Throwable''"
| "class_of (JClass _) = ''java/lang/Class''"
| "class_of (JInstance c) = c"
| "class_of _ = []"

definition GetObjectClass :: "runtime \<Rightarrow> jobject \<Rightarrow> jobject \<times> runtime" where
  "GetObjectClass w obj =
     (if is_object (deref w obj) then new_ref Local (JClass (class_of (deref w obj))) w
      else (0, w))"

definition lookup_method :: "runtime \<Rightarrow> string \<Rightarrow> string \<Rightarrow> string \<Rightarrow> bool \<Rightarrow> jmethodID" where
  "lookup_method w c name sig static =
     (if \<not> static \<and> c = ''java/lang/Throwable'' \<and> name = ''getMessage''
         \<and> sig = ''()Ljava/lang/String;'' then Throwable_getMessage
      else if \<not> static \<and> c = ''java/util/HashMap'' \<and> name = ''<init>'' \<and> sig = ''()V''
      then HashMap_init
      else if \<not> static \<and> c = ''java/util/HashMap'' \<and> name = ''put''
         \<and> sig = ''(Ljava/lang/Object;Ljava/lang/Object;)Ljava/lang/Object;'' then HashMap_put
      else (case List.find (\<lambda>m. m_class m = c \<and> m_name m = name \<and> m_sig m = sig
                                 \<and> m_static m = static) (method_table w) of
              None \<Rightarrow> NoMethod
            | Some m \<Rightarrow> UserMethod m))"

definition find_member :: "runtime \<Rightarrow> jobject \<Rightarrow> string \<Rightarrow> string \<Rightarrow> bool \<Rightarrow> jmethodID \<times> runtime" where
  "find_member w cls name sig static =
     (case deref w cls of
        JClass c \<Rightarrow>
          (case lookup_method w c name sig static of
             NoMethod \<Rightarrow> (NoMethod, raise name w)
           | m \<Rightarrow> (m, w))
      | _ \<Rightarrow> (NoMethod, w))"

definition GetMethodID :: "runtime \<Rightarrow> jobject \<Rightarrow> string \<Rightarrow> string \<Rightarrow> jmethodID \<times> runtime" where
  "GetMethodID w cls name sig = find_member w cls name sig False"

definition GetStaticMethodID :: "runtime \<Rightarrow> jobject \<Rightarrow> string \<Rightarrow> string \<Rightarrow> jmethodID \<times> runtime" where
  "GetStaticMethodID w cls name sig = find_member w cls name sig True"

definition DeleteLocalRef :: "runtime \<Rightarrow> jobject \<Rightarrow> runtime" where
  "DeleteLocalRef w h =
     (if h = 0 then w
      else w\<lparr>refs := (case lookup w h of Some (Local, v) \<Rightarrow> (refs w)(h := None) | _ \<Rightarrow> refs w),
             journal := Delete Local h # journal w\<rparr>)"

definition DeleteGlobalRef :: "runtime \<Rightarrow> jobject \<Rightarrow> runtime" where
  "DeleteGlobalRef w h =
     (if h = 0 then w
      else w\<lparr>refs := (case lookup w h of Some (Global, v) \<Rightarrow> (refs w)(h := None) | _ \<Rightarrow> refs w),
             journal := Delete Global h # journal w\<rparr>)"

definition NewGlobalRef :: "runtime \<Rightarrow> jobject \<Rightarrow> jobject \<times> runtime" where
  "NewGlobalRef w obj =
     (case lookup w obj of None \<Rightarrow> (0, w) | Some (k, v) \<Rightarrow> new_ref Global v w)"

definition NewLocalRef :: "runtime \<Rightarrow> jobject \<Rightarrow> jobject \<times> runtime" where
  "NewLocalRef w obj =
     (case lookup w obj of None \<Rightarrow> (0, w) | Some (k, v) \<Rightarrow> new_ref Local v w)"

definition ExceptionCheck :: "runtime \<Rightarrow> bool" where
  "ExceptionCheck w = (pending w \<noteq> None)"

definition ExceptionOccurred :: "runtime \<Rightarrow> jobject \<times> runtime" where
  "ExceptionOccurred w =
     (case pending w of None \<Rightarrow> (0, w) | Some t \<Rightarrow> new_ref Local (JThrowable t) w)"

definition ExceptionDescribe :: "runtime \<Rightarrow> runtime" where
  "ExceptionDescribe w = w"

definition ExceptionClear :: "runtime \<Rightarrow> runtime" where
  "ExceptionClear w = w\<lparr>pending := None\<rparr>"

definition arg_value :: "runtime \<Rightarrow> jarg \<Rightarrow> jvalue" where
  "arg_value w a = (case a of J_ref h \<Rightarrow> deref w h | J_val v \<Rightarrow> v)"

definition hashmap_put :: "(string \<times> string) list \<Rightarrow> string \<Rightarrow> string \<Rightarrow> (string \<times> string) list" where
  "hashmap_put m k v = (k, v) # filter (\<lambda>p. fst p \<noteq> k) m"

text \<open>
  \<open>invoke\<close> runs a method of the fake: the value it returns (\<open>JNull\<close> for void and after a
  raise) and the runtime afterwards. The typed entry points \<open>Call...Method\<close> package it.
\<close>

fun put_args :: "jvalue list \<Rightarrow> (string \<times> string) option" where
  "put_args [JString key, JString val] = Some (key, val)"
| "put_args _ = None"

fun hashmap_at :: "(ref_kind \<times> jvalue) option \<Rightarrow> (ref_kind \<times> (string \<times> string) list) option" where
  "hashmap_at (Some (k, JHashMap m)) = Some (k, m)"
| "hashmap_at _ = None"

fun message_of :: "jvalue \<Rightarrow> string option" where
  "message_of (JThrowable t) = t"
| "message_of _ = None"

definition invoke :: "runtime \<Rightarrow> jobject \<Rightarrow> jmethodID \<Rightarrow> jarg list \<Rightarrow> jvalue \<times> runtime" where
  "invoke w recv mid args =
     (case mid of
        NoMethod \<Rightarrow> (JNull, w)
      | Throwable_getMessage \<Rightarrow>
          (case message_of (deref w recv) of
             Some msg \<Rightarrow> (JString msg, w)
           | None \<Rightarrow> (JNull, w))
      | HashMap_init \<Rightarrow> (JHashMap [], w)
      | HashMap_put \<Rightarrow>
          (case hashmap_at (lookup w recv) of
             Some (k, m) \<Rightarrow>
               (case put_args (map (arg_value w) args) of
                  Some (key, val) \<Rightarrow>
                    ((case map_of m key of None \<Rightarrow> JNull | Some old \<Rightarrow> JString old),
                     w\<lparr>refs := (refs w)(recv \<mapsto> (k, JHashMap (hashmap_put m key val)))\<rparr>)
                | None \<Rightarrow> (JNull, w))
           | None \<Rightarrow> (JNull, w))
      | UserMethod m \<Rightarrow>
          (case m_body m (deref w recv) (map (arg_value w) args) of
             Returned v \<Rightarrow> (v, w)
           | Raised t \<Rightarrow> (JNull, w\<lparr>pending := Some t\<rparr>)))"

definition CallObjectMethod :: "runtime \<Rightarrow> jobject \<Rightarrow> jmethodID \<Rightarrow> jarg list \<Rightarrow> jobject \<times> runtime" where
  "CallObjectMethod w obj mid args = (let (v, w1) = invoke w obj mid args in new_local v w1)"

definition CallVoidMethod :: "runtime \<Rightarrow> jobject \<Rightarrow> jmethodID \<Rightarrow> jarg list \<Rightarrow> runtime" where
  "CallVoidMethod w obj mid args = snd (invoke w obj mid args)"

definition CallPrimitiveMethod :: "runtime \<Rightarrow> jobject \<Rightarrow> jmethodID \<Rightarrow> jarg list \<Rightarrow> jvalue \<times> runtime" where
  "CallPrimitiveMethod w obj mid args = invoke w obj mid args"

text \<open>A static method has no receiver: the class handle is not dereferenced as one.\<close>

definition CallStaticObjectMethod :: "runtime \<Rightarrow> jobject \<Rightarrow> jmethodID \<Rightarrow> jarg list \<Rightarrow> jobject \<times> runtime" where
  "CallStaticObjectMethod w cls mid args = (let (v, w1) = invoke w 0 mid args in new_local v w1)"

definition CallStaticVoidMethod :: "runtime \<Rightarrow> jobject \<Rightarrow> jmethodID \<Rightarrow> jarg list \<Rightarrow> runtime" where
  "CallStaticVoidMethod w cls mid args = snd (invoke w 0 mid args)"

definition CallStaticPrimitiveMethod :: "runtime \<Rightarrow> jobject \<Rightarrow> jmethodID \<Rightarrow> jarg list \<Rightarrow> jvalue \<times> runtime" where
  "CallStaticPrimitiveMethod w cls mid args = invoke w 0 mid args"

definition NewObject :: "runtime \<Rightarrow> jobject \<Rightarrow> jmethodID \<Rightarrow> jarg list \<Rightarrow> jobject \<times> runtime" where
  "NewObject w cls mid args = (let (v, w1) = invoke w 0 mid args in new_local v w1)"

definition NewObjectArray :: "runtime \<Rightarrow> int \<Rightarrow> jobject \<Rightarrow> jobject \<Rightarrow> jobject \<times> runtime" where
  "NewObjectArray w len cls init =
     (if len < 0 then (0, raise ''NegativeArraySizeException'' w)
      else new_ref Local (JObjectArray (replicate (nat len) (deref w init))) w)"

definition SetObjectArrayElement :: "runtime \<Rightarrow> jobject \<Rightarrow> int \<Rightarrow> jobject \<Rightarrow> runtime" where
  "SetObjectArrayElement w arr i h =
     (case lookup w arr of
        Some (k, JObjectArray xs) \<Rightarrow>
          (if 0 \<le> i \<and> nat i < length xs
           then w\<lparr>refs := (refs w)(arr \<mapsto> (k, JObjectArray (xs[nat i := deref w h])))\<rparr>
           else raise ''ArrayIndexOutOfBoundsException'' w)
      | _ \<Rightarrow> w)"

definition GetObjectArrayElement :: "runtime \<Rightarrow> jobject \<Rightarrow> int \<Rightarrow> jobject \<times> runtime" where
  "GetObjectArrayElement w arr i =
     (case deref w arr of
        JObjectArray xs \<Rightarrow>
          (if 0 \<le> i \<and> nat i < length xs then new_local (xs ! nat i) w
           else (0, raise ''ArrayIndexOutOfBoundsException'' w))
      | _ \<Rightarrow> (0, w))"

definition GetArrayLength :: "runtime \<Rightarrow> jobject \<Rightarrow> int" where
  "GetArrayLength w arr =
     (case deref w arr of
        JObjectArray xs \<Rightarrow> int (length xs)
      | JByteArray xs \<Rightarrow> int (length xs)
      | JFloatArray xs \<Rightarrow> int (length xs)
      | _ \<Rightarrow> 0)"

definition NewByteArray :: "runtime \<Rightarrow> int \<Rightarrow> jobject \<times> runtime" where
  "NewByteArray w len =
     (if len < 0 then (0, raise ''NegativeArraySizeException'' w)
      else new_ref Local (JByteArray (replicate (nat len) 0)) w)"

text \<open>
  The region functions copy \<open>len\<close> elements between the array, from \<open>start\<close>, and the
  front of a native buffer; a region outside the array raises and copies nothing.
\<close>

definition SetByteArrayRegion :: "runtime \<Rightarrow> jobject \<Rightarrow> int \<Rightarrow> int \<Rightarrow> 8 word list \<Rightarrow> runtime" where
  "SetByteArrayRegion w arr start len buf =
     (case lookup w arr of
        Some (k, JByteArray xs) \<Rightarrow>
          (if 0 \<le> start \<and> 0 \<le> len \<and> nat start + nat len \<le> length xs
           then w\<lparr>refs := (refs w)(arr \<mapsto> (k, JByteArray
                  (take (nat start) xs @ take (nat len) buf @ drop (nat start + nat len) xs)))\<rparr>
           else raise ''ArrayIndexOutOfBoundsException'' w)
      | _ \<Rightarrow> w)"

definition GetByteArrayRegion :: "runtime \<Rightarrow> jobject \<Rightarrow> int \<Rightarrow> int \<Rightarrow> 8 word list \<Rightarrow> 8 word list \<times> runtime" where
  "GetByteArrayRegion w arr start len buf =
     (case deref w arr of
        JByteArray xs \<Rightarrow>
          (if 0 \<le> start \<and> 0 \<le> len \<and> nat start + nat len \<le> length xs
           then (take (nat len) (drop (nat start) xs) @ drop (nat len) buf, w)
           else (buf, raise ''ArrayIndexOutOfBoundsException'' w))
      | _ \<Rightarrow> (buf, w))"

definition GetFloatArrayRegion :: "runtime \<Rightarrow> jobject \<Rightarrow> int \<Rightarrow> int \<Rightarrow> 32 word list \<Rightarrow> 32 word list \<times> runtime" where
  "GetFloatArrayRegion w arr start len buf =
     (case deref w arr of
        JFloatArray xs \<Rightarrow>
          (if 0 \<le> start \<and> 0 \<le> len \<and> nat start + nat len \<le> length xs
           then (take (nat len) (drop (nat start) xs) @ drop (nat len) buf, w)
           else (buf, raise ''ArrayIndexOutOfBoundsException'' w))
      | _ \<Rightarrow> (buf, w))"

text \<open>
  The modified UTF-8 encoding of a string object, which is what \<open>JString\<close> holds. The
  strings that the managed side makes (the message of an exception, the result of a method)
  are given as their encodings as well.
\<close>

definition GetStringUTFChars :: "runtime \<Rightarrow> jobject \<Rightarrow> string option" where
  "GetStringUTFChars w str = (case deref w str of JString s \<Rightarrow> Some s | _ \<Rightarrow> None)"

section \<open>Results, exceptions and scopes\<close>

text \<open>
  A C++ function that may throw returns \<open>Inl\<close> of the exception or \<open>Inr\<close> of its value,
  with the runtime as it left it. \<open>None\<close> stands for a call that gives its caller nothing
  back: the recursion of \<open>checkException\<close> ran out of fuel, a destructor threw
  (\<open>std::terminate\<close>), or an indeterminate \<open>JNIEnv *\<close> was used.
\<close>

datatype JNIException = JNIException (message: string)

type_synonym 'a result = "JNIException + 'a"

type_synonym 'a jni = "('a result \<times> runtime) option"

definition LOGE :: "string \<Rightarrow> runtime \<Rightarrow> runtime" where
  "LOGE line w = w\<lparr>logcat := line # logcat w\<rparr>"

text \<open>
  \<open>throw JNIException(message)\<close>: the constructor keeps the message and logs
  \<open>message.c_str()\<close> (part_000, lines 51-53).
\<close>

definition throw :: "string \<Rightarrow> runtime \<Rightarrow> 'a result \<times> runtime" where
  "throw msg w = (Inl (JNIException msg), LOGE (''JNI Exception: '' @ c_str msg) w)"

definition jni_bind :: "'a jni \<Rightarrow> ('a \<Rightarrow> runtime \<Rightarrow> 'b jni) \<Rightarrow> 'b jni" where
  "jni_bind m k =
     (case m of
        None \<Rightarrow> None
      | Some (Inl e, w) \<Rightarrow> Some (Inl e, w)
      | Some (Inr x, w) \<Rightarrow> k x w)"

text \<open>
  \<open>scope_exit m d\<close>: the body \<open>m\<close> of a scope, then the destructor \<open>d\<close> of a local of that
  scope, on the normal and on the exceptional exit alike. A destructor that does not come
  back (\<open>None\<close>) ends the program.
\<close>

definition scope_exit :: "'a jni \<Rightarrow> (runtime \<Rightarrow> runtime option) \<Rightarrow> 'a jni" where
  "scope_exit m d =
     (case m of
        None \<Rightarrow> None
      | Some (r, w) \<Rightarrow> (case d w of None \<Rightarrow> None | Some w' \<Rightarrow> Some (r, w')))"

section \<open>Tools (part_000)\<close>

datatype JNIEnv_ptr = Attached | Indeterminate

text \<open>
  \<open>Tools::attachJniEnv\<close> (lines 63-73). The local \<open>jniEnv\<close> is assigned only inside
  \<open>if (javaVM)\<close>; with \<open>javaVM\<close> unset the function returns it as it was declared.
\<close>

definition attachJniEnv :: "runtime \<Rightarrow> JNIEnv_ptr result \<times> runtime" where
  "attachJniEnv w =
     (case javaVM w of
        Some status \<Rightarrow>
          (if status < 0
           then throw ''Could not attach the JNI environment to the current thread.'' w
           else (Inr Attached, w))
      | None \<Rightarrow> (Inr Indeterminate, w))"

record JNIMethodInfo =
  classId :: jobject
  methodId :: jmethodID
  weak' :: bool

text \<open>\<open>~JNIMethodInfo\<close> (lines 41-48).\<close>

definition JNIMethodInfo_dtor :: "JNIMethodInfo \<Rightarrow> runtime \<Rightarrow> runtime option" where
  "JNIMethodInfo_dtor mi w =
     (if weak' mi then Some w
      else if classId mi \<noteq> 0
      then (case attachJniEnv w of
              (Inr Attached, w1) \<Rightarrow> Some (DeleteLocalRef w1 (classId mi))
            | _ \<Rightarrow> None)
      else Some w)"

definition toJString :: "runtime \<Rightarrow> string \<Rightarrow> jobject \<times> runtime" where
  "toJString w str = NewStringUTF w (c_str str)"

text \<open>
  \<open>Tools::checkException\<close> (lines 259-271), \<open>Tools::getMethodInfo\<close> by class name (lines
  217-239) and \<open>Tools::toString\<close> (lines 128-141) call one another. The first argument bounds
  the depth of \<open>checkException\<close> inside \<open>checkException\<close>; it is needed only where an
  exception is pending.
\<close>

fun checkException :: "nat \<Rightarrow> runtime \<Rightarrow> unit jni"
  and getMethodInfo :: "nat \<Rightarrow> runtime \<Rightarrow> string \<Rightarrow> string \<Rightarrow> string \<Rightarrow> JNIMethodInfo jni"
  and toString :: "nat \<Rightarrow> runtime \<Rightarrow> jobject \<Rightarrow> string jni"
where
  "checkException 0 w = (if ExceptionCheck w then None else Some (Inr (), w))"
| "checkException (Suc n) w =
     (if ExceptionCheck w
      then (let (jthrowable, w1) = ExceptionOccurred w;
                w2 = ExceptionDescribe w1;
                w3 = ExceptionClear w2
            in jni_bind (getMethodInfo n w3 ''java/lang/Throwable'' ''getMessage''
                           ''()Ljava/lang/String;'')
                 (\<lambda>methodInfo w4.
                    scope_exit
                      (let (msg, w5) = CallObjectMethod w4 jthrowable (methodId methodInfo) []
                       in jni_bind (toString n w5 msg)
                            (\<lambda>exceptionMessage w6. Some (throw exceptionMessage w6)))
                      (JNIMethodInfo_dtor methodInfo)))
      else Some (Inr (), w))"
| "getMethodInfo n w className methodName signature =
     (let (cls, w1) = FindClass w (c_str className)
      in jni_bind (checkException n w1)
           (\<lambda>_ w2.
              if cls = 0 then Some (throw (''Could not find the given class: '' @ className) w2)
              else jni_bind (checkException n w2)
                     (\<lambda>_ w3.
                        let (mid, w4) = GetMethodID w3 cls (c_str methodName) signature
                        in jni_bind (checkException n w4)
                             (\<lambda>_ w5.
                                if is_null mid
                                then Some (throw (''Could not find the given '' @ [CHR 0x27]
                                       @ methodName
                                       @ [CHR 0x27] @ '' static method in the given classId''
                                       @ [CHR 0x27, CHR 0x27] @ '' class using the '' @ [CHR 0x27]
                                       @ signature @ [CHR 0x27] @ '' signature.'') w5)
                                else Some (Inr \<lparr>classId = cls, methodId = mid, weak' = False\<rparr>,
                                           w5)))))"
| "toString n w str =
     (if str = 0 then Some (Inr [], w)
      else (let chars = GetStringUTFChars w str;
                s = (case chars of None \<Rightarrow> [] | Some cs \<Rightarrow> c_str cs)
            in jni_bind (checkException n w) (\<lambda>_ w1. Some (Inr s, w1))))"

declare checkException.simps [simp del] getMethodInfo.simps [simp del] toString.simps [simp del]

text \<open>\<open>Tools::getStaticMethodInfo\<close> (lines 193-215); \<open>signature\<close> is a \<open>const char *\<close>.\<close>

definition getStaticMethodInfo :: "nat \<Rightarrow> runtime \<Rightarrow> string \<Rightarrow> string \<Rightarrow> string \<Rightarrow> JNIMethodInfo jni" where
  "getStaticMethodInfo n w className methodName signature =
     (let (cls, w1) = FindClass w (c_str className)
      in jni_bind (checkException n w1)
           (\<lambda>_ w2.
              if cls = 0 then Some (throw (''Could not find the given class: '' @ className) w2)
              else (let (mid, w3) = GetStaticMethodID w2 cls (c_str methodName) signature
                    in jni_bind (checkException n w3)
                         (\<lambda>_ w4.
                            if is_null mid
                            then Some (throw (''Could not find the given '' @ [CHR 0x27]
                                   @ methodName
                                   @ [CHR 0x27] @ '' static method in the given '' @ [CHR 0x27]
                                   @ className
                                   @ [CHR 0x27] @ '' class using the '' @ [CHR 0x27]
                                   @ signature @ [CHR 0x27] @ '' signature.'') w4)
                            else Some (Inr \<lparr>classId = cls, methodId = mid, weak' = False\<rparr>,
                                       w4)))))"

text \<open>\<open>Tools::getMethodInfo\<close> on a class handle (lines 241-257): the result is marked weak.\<close>

definition getMethodInfo_jclass :: "nat \<Rightarrow> runtime \<Rightarrow> jobject \<Rightarrow> string \<Rightarrow> string \<Rightarrow> JNIMethodInfo jni" where
  "getMethodInfo_jclass n w cls methodName signature =
     jni_bind (checkException n w)
       (\<lambda>_ w1.
          let (mid, w2) = GetMethodID w1 cls (c_str methodName) signature
          in jni_bind (checkException n w2)
               (\<lambda>_ w3.
                  if is_null mid
                  then Some (throw (''Could not find the given '' @ [CHR 0x27] @ methodName
                         @ [CHR 0x27] @ '' static method in the given classId''
                         @ [CHR 0x27, CHR 0x27] @ '' class using the '' @ [CHR 0x27]
                         @ signature @ [CHR 0x27] @ '' signature.'') w3)
                  else Some (Inr \<lparr>classId = cls, methodId = mid, weak' = True\<rparr>, w3)))"

text \<open>\<open>Tools::clearException\<close> (lines 273-285): as \<open>checkException\<close>, but the message is logged.\<close>

definition clearException :: "nat \<Rightarrow> runtime \<Rightarrow> unit jni" where
  "clearException n w =
     (if ExceptionCheck w
      then (let (jthrowable, w1) = ExceptionOccurred w;
                w2 = ExceptionDescribe w1;
                w3 = ExceptionClear w2
            in jni_bind (getMethodInfo n w3 ''java/lang/Throwable'' ''getMessage''
                           ''()Ljava/lang/String;'')
                 (\<lambda>methodInfo w4.
                    scope_exit
                      (let (msg, w5) = CallObjectMethod w4 jthrowable (methodId methodInfo) []
                       in jni_bind (toString n w5 msg)
                            (\<lambda>exceptionMessage w6.
                               Some (Inr (), LOGE (c_str exceptionMessage) w6)))
                      (JNIMethodInfo_dtor methodInfo)))
      else Some (Inr (), w))"

text \<open>\<open>jint size = data.size()\<close>: the size as a 32-bit signed integer.\<close>

definition jint_of_size :: "nat \<Rightarrow> int" where
  "jint_of_size n = sint (word_of_nat n :: 32 word)"

text \<open>
  \<open>Tools::toJObjectArray\<close> for a string vector (lines 85-99). The loop runs over
  \<open>data[0] .. data[size - 1]\<close>, all inside \<open>data\<close> since \<open>size\<close> never exceeds its length.
\<close>

fun toJObjectArray_loop :: "runtime \<Rightarrow> jobject \<Rightarrow> nat \<Rightarrow> string list \<Rightarrow> runtime" where
  "toJObjectArray_loop w joa i [] = w"
| "toJObjectArray_loop w joa i (s # rest) =
     (let (jstr, w1) = toJString w s;
          w2 = SetObjectArrayElement w1 joa (int i) jstr
      in toJObjectArray_loop w2 joa (Suc i) rest)"

definition toJObjectArray :: "nat \<Rightarrow> runtime \<Rightarrow> string list \<Rightarrow> jobject jni" where
  "toJObjectArray n w data =
     (let (cls, w1) = FindClass w ''java/lang/String'';
          sz = jint_of_size (length data);
          (joa, w2) = NewObjectArray w1 sz cls 0;
          w3 = toJObjectArray_loop w2 joa 0 (take (nat sz) data);
          w4 = DeleteLocalRef w3 cls
      in jni_bind (checkException n w4) (\<lambda>_ w5. Some (Inr joa, w5)))"

text \<open>\<open>Tools::toJObjectArray\<close> for a byte vector (lines 101-106).\<close>

definition toJObjectArray_bytes :: "nat \<Rightarrow> runtime \<Rightarrow> 8 word list \<Rightarrow> jobject jni" where
  "toJObjectArray_bytes n w data =
     (let (jba, w1) = NewByteArray w (jint_of_size (length data));
          w2 = SetByteArrayRegion w1 jba 0 (jint_of_size (length data)) data
      in jni_bind (checkException n w2) (\<lambda>_ w3. Some (Inr jba, w3)))"

text \<open>\<open>Tools::toHashMap\<close> (lines 108-126); \<open>data\<close> lists the map's entries in key order.\<close>

fun toHashMap_loop :: "runtime \<Rightarrow> jobject \<Rightarrow> jmethodID \<Rightarrow> (string \<times> string) list \<Rightarrow> runtime" where
  "toHashMap_loop w hashmap mid [] = w"
| "toHashMap_loop w hashmap mid (item # rest) =
     (let (key, w1) = NewStringUTF w (c_str (fst item));
          (val, w2) = NewStringUTF w1 (c_str (snd item));
          (old, w3) = CallObjectMethod w2 hashmap mid [J_ref key, J_ref val];
          w4 = DeleteLocalRef w3 key;
          w5 = DeleteLocalRef w4 val
      in toHashMap_loop w5 hashmap mid rest)"

definition toHashMap :: "nat \<Rightarrow> runtime \<Rightarrow> (string \<times> string) list \<Rightarrow> jobject jni" where
  "toHashMap n w data =
     (let (cls, w1) = FindClass w ''java/util/HashMap'';
          (mid0, w2) = GetMethodID w1 cls ''<init>'' ''()V'';
          (hashmap, w3) = NewObject w2 cls mid0 [];
          (mid, w4) = GetMethodID w3 cls ''put''
                        ''(Ljava/lang/Object;Ljava/lang/Object;)Ljava/lang/Object;'';
          w5 = toHashMap_loop w4 hashmap mid data;
          w6 = DeleteLocalRef w5 cls
      in jni_bind (checkException n w6) (\<lambda>_ w7. Some (Inr hashmap, w7)))"

text \<open>
  \<open>Tools::toVectorString\<close> (lines 143-156). The loop counts \<open>i\<close> up while \<open>k\<close>, the
  iterations left, counts down from the array's length.
\<close>

fun toVectorString_loop :: "nat \<Rightarrow> runtime \<Rightarrow> jobject \<Rightarrow> nat \<Rightarrow> nat \<Rightarrow> string list \<Rightarrow> string list jni" where
  "toVectorString_loop n w array i 0 result = Some (Inr result, w)"
| "toVectorString_loop n w array i (Suc k) result =
     (let (valueJObject, w1) = GetObjectArrayElement w array (int i)
      in jni_bind (toString n w1 valueJObject)
           (\<lambda>s w2. toVectorString_loop n (DeleteLocalRef w2 valueJObject) array (Suc i) k
                      (result @ [s])))"

definition toVectorString :: "nat \<Rightarrow> runtime \<Rightarrow> jobject \<Rightarrow> string list jni" where
  "toVectorString n w array =
     jni_bind (if array \<noteq> 0
               then toVectorString_loop n w array 0 (nat (GetArrayLength w array)) []
               else Some (Inr [], w))
       (\<lambda>result w1. jni_bind (checkException n w1) (\<lambda>_ w2. Some (Inr result, w2)))"

text \<open>\<open>Tools::toVectorByte\<close> (lines 158-167) and \<open>Tools::toVectorFloat\<close> (lines 169-178).\<close>

definition toVectorByte :: "nat \<Rightarrow> runtime \<Rightarrow> jobject \<Rightarrow> 8 word list jni" where
  "toVectorByte n w array =
     (if array = 0 then Some (Inr [], w)
      else (let sz = GetArrayLength w array;
                (result, w1) = GetByteArrayRegion w array 0 sz (replicate (nat sz) 0)
            in jni_bind (checkException n w1) (\<lambda>_ w2. Some (Inr result, w2))))"

definition toVectorFloat :: "nat \<Rightarrow> runtime \<Rightarrow> jobject \<Rightarrow> 32 word list jni" where
  "toVectorFloat n w array =
     (if array = 0 then Some (Inr [], w)
      else (let sz = GetArrayLength w array;
                (result, w1) = GetFloatArrayRegion w array 0 sz (replicate (nat sz) 0)
            in jni_bind (checkException n w1) (\<lambda>_ w2. Some (Inr result, w2))))"

text \<open>\<open>Tools::toVectorJObject\<close> (lines 180-191).\<close>

fun toVectorJObject_loop :: "runtime \<Rightarrow> jobject \<Rightarrow> nat \<Rightarrow> nat \<Rightarrow> jobject list \<Rightarrow> jobject list \<times> runtime" where
  "toVectorJObject_loop w array i 0 result = (result, w)"
| "toVectorJObject_loop w array i (Suc k) result =
     (let (valueJObject, w1) = GetObjectArrayElement w array (int i)
      in toVectorJObject_loop w1 array (Suc i) k (result @ [valueJObject]))"

definition toVectorJObject :: "runtime \<Rightarrow> jobject \<Rightarrow> jobject list \<times> runtime" where
  "toVectorJObject w array =
     (if array \<noteq> 0 then toVectorJObject_loop w array 0 (nat (GetArrayLength w array)) []
      else ([], w))"

section \<open>JNIObject (safejni.h, lines 139-199; part_000, lines 286-347)\<close>

text \<open>
  The proxy's fields. A trailing underscore of the source is written as a prime, and
  \<open>instance\<close> as \<open>instance'\<close>.
\<close>

record JNIObject =
  instance' :: jobject
  className' :: string
  memberSignature' :: string
  globalRef :: bool
  weak :: bool

definition JNIObject_new :: JNIObject where
  "JNIObject_new =
     \<lparr>instance' = 0, className' = [], memberSignature' = [], globalRef = False, weak = False\<rparr>"

text \<open>\<open>~JNIObject\<close> (lines 287-299).\<close>

definition JNIObject_dtor :: "JNIObject \<Rightarrow> runtime \<Rightarrow> runtime option" where
  "JNIObject_dtor this w =
     (if weak this then Some w
      else if instance' this \<noteq> 0
      then (case attachJniEnv w of
              (Inr Attached, w1) \<Rightarrow>
                Some (if globalRef this then DeleteGlobalRef w1 (instance' this)
                      else DeleteLocalRef w1 (instance' this))
            | _ \<Rightarrow> None)
      else Some w)"

text \<open>\<open>JNIObject::makeGlobalRef\<close> (lines 301-306).\<close>

definition makeGlobalRef :: "JNIObject \<Rightarrow> runtime \<Rightarrow> (JNIObject result \<times> runtime) option" where
  "makeGlobalRef this w =
     (if \<not> globalRef this
      then (case attachJniEnv w of
              (Inl e, w1) \<Rightarrow> Some (Inl e, w1)
            | (Inr Indeterminate, w1) \<Rightarrow> None
            | (Inr Attached, w1) \<Rightarrow>
                (let (g, w2) = NewGlobalRef w1 (instance' this)
                 in Some (Inr (this\<lparr>instance' := g, globalRef := True\<rparr>), w2)))
      else Some (Inr this, w))"

text \<open>\<open>JNIObject::CreateGlobal\<close> (lines 308-314).\<close>

definition CreateGlobal :: "jobject \<Rightarrow> runtime \<Rightarrow> JNIObject jni" where
  "CreateGlobal obj w =
     (let result = JNIObject_new
      in case attachJniEnv w of
           (Inl e, w1) \<Rightarrow> Some (Inl e, w1)
         | (Inr Indeterminate, w1) \<Rightarrow> None
         | (Inr Attached, w1) \<Rightarrow>
             (let (g, w2) = NewGlobalRef w1 obj
              in makeGlobalRef (result\<lparr>instance' := g\<rparr>) w2))"

definition CreateShared :: "jobject \<Rightarrow> JNIObject" where
  "CreateShared obj = JNIObject_new\<lparr>instance' := obj\<rparr>"

definition CreateWeak :: "jobject \<Rightarrow> JNIObject" where
  "CreateWeak obj = JNIObject_new\<lparr>instance' := obj, weak := True\<rparr>"

definition SetClassName :: "JNIObject \<Rightarrow> string \<Rightarrow> JNIObject" where
  "SetClassName this className = this\<lparr>className' := className\<rparr>"

definition SetMemberSignature :: "JNIObject \<Rightarrow> string \<Rightarrow> JNIObject" where
  "SetMemberSignature this callSignature = this\<lparr>memberSignature' := callSignature\<rparr>"

text \<open>\<open>~NameAndSignatureClear\<close> (lines 193-196).\<close>

definition NameAndSignatureClear_dtor :: "JNIObject \<Rightarrow> JNIObject" where
  "NameAndSignatureClear_dtor inst = inst\<lparr>className' := [], memberSignature' := []\<rparr>"

section \<open>Conversions between native values and JNI values (safejni.h, lines 201-390)\<close>

text \<open>
  The argument types whose \<open>CPPToJNIConversor<T>::convert\<close> can be instantiated, with a
  value of each; floating-point values are carried as their bit patterns.
\<close>

datatype cpp_arg =
    A_string string | A_cstr string | A_vec_string "string list" | A_vec_uint8 "8 word list"
  | A_JNIObjectPtr JNIObject | A_map "(string \<times> string) list"
  | A_int32 "32 word" | A_int64 "64 word" | A_float "32 word" | A_double "64 word"
  | A_bool bool | A_int8 "8 word" | A_uint8 "8 word" | A_int16 "16 word"

fun type_of :: "cpp_arg \<Rightarrow> cpp_type" where
  "type_of (A_string _) = T_string"
| "type_of (A_cstr _) = T_cstr"
| "type_of (A_vec_string _) = T_vec_string"
| "type_of (A_vec_uint8 _) = T_vec_uint8"
| "type_of (A_JNIObjectPtr _) = T_JNIObjectPtr"
| "type_of (A_map _) = T_map"
| "type_of (A_int32 _) = T_int32"
| "type_of (A_int64 _) = T_int64"
| "type_of (A_float _) = T_float"
| "type_of (A_double _) = T_double"
| "type_of (A_bool _) = T_bool"
| "type_of (A_int8 _) = T_int8"
| "type_of (A_uint8 _) = T_uint8"
| "type_of (A_int16 _) = T_int16"

text \<open>\<open>JNIParamsCheck<T>::needDeleteLocal\<close> (lines 203-211).\<close>

fun needDeleteLocal :: "cpp_arg \<Rightarrow> bool" where
  "needDeleteLocal (A_JNIObjectPtr _) = False"
| "needDeleteLocal _ = True"

text \<open>\<open>CPPToJNIConversor<T>::convert\<close> (lines 228-352).\<close>

fun CPPToJNIConversor_convert :: "nat \<Rightarrow> runtime \<Rightarrow> cpp_arg \<Rightarrow> jarg jni" where
  "CPPToJNIConversor_convert n w (A_string obj) =
     (let (h, w1) = toJString w obj in Some (Inr (J_ref h), w1))"
| "CPPToJNIConversor_convert n w (A_cstr obj) =
     (let (h, w1) = toJString w obj in Some (Inr (J_ref h), w1))"
| "CPPToJNIConversor_convert n w (A_vec_string obj) =
     jni_bind (toJObjectArray n w obj) (\<lambda>h w1. Some (Inr (J_ref h), w1))"
| "CPPToJNIConversor_convert n w (A_vec_uint8 obj) =
     jni_bind (toJObjectArray_bytes n w obj) (\<lambda>h w1. Some (Inr (J_ref h), w1))"
| "CPPToJNIConversor_convert n w (A_JNIObjectPtr obj) = Some (Inr (J_ref (instance' obj)), w)"
| "CPPToJNIConversor_convert n w (A_map obj) =
     jni_bind (toHashMap n w obj) (\<lambda>h w1. Some (Inr (J_ref h), w1))"
| "CPPToJNIConversor_convert n w (A_int32 x) = Some (Inr (J_val (JInt x)), w)"
| "CPPToJNIConversor_convert n w (A_int64 x) = Some (Inr (J_val (JLong x)), w)"
| "CPPToJNIConversor_convert n w (A_float x) = Some (Inr (J_val (JFloat x)), w)"
| "CPPToJNIConversor_convert n w (A_double x) = Some (Inr (J_val (JDouble x)), w)"
| "CPPToJNIConversor_convert n w (A_bool x) = Some (Inr (J_val (JBoolean x)), w)"
| "CPPToJNIConversor_convert n w (A_int8 x) = Some (Inr (J_val (JByte x)), w)"
| "CPPToJNIConversor_convert n w (A_uint8 x) = Some (Inr (J_val (JChar (ucast x))), w)"
| "CPPToJNIConversor_convert n w (A_int16 x) = Some (Inr (J_val (JShort x)), w)"

text \<open>
  The return types for which \<open>JNICaller<T>\<close> can be instantiated, and the native values
  they carry.
\<close>

datatype ret_type =
    R_void | R_bool | R_int8 | R_uint8 | R_int16 | R_int32 | R_int64 | R_float | R_double
  | R_string | R_vec_string | R_vec_uint8 | R_vec_jobject | R_JNIObjectPtr

fun cpp_of_ret :: "ret_type \<Rightarrow> cpp_type" where
  "cpp_of_ret R_void = T_void"
| "cpp_of_ret R_bool = T_bool"
| "cpp_of_ret R_int8 = T_int8"
| "cpp_of_ret R_uint8 = T_uint8"
| "cpp_of_ret R_int16 = T_int16"
| "cpp_of_ret R_int32 = T_int32"
| "cpp_of_ret R_int64 = T_int64"
| "cpp_of_ret R_float = T_float"
| "cpp_of_ret R_double = T_double"
| "cpp_of_ret R_string = T_string"
| "cpp_of_ret R_vec_string = T_vec_string"
| "cpp_of_ret R_vec_uint8 = T_vec_uint8"
| "cpp_of_ret R_vec_jobject = T_vec_jobject"
| "cpp_of_ret R_JNIObjectPtr = T_JNIObjectPtr"

datatype cpp_value =
    V_void | V_bool bool | V_int8 "8 word" | V_uint8 "8 word" | V_int16 "16 word"
  | V_int32 "32 word" | V_int64 "64 word" | V_float "32 word" | V_double "64 word"
  | V_string string | V_vec_string "string list" | V_vec_uint8 "8 word list"
  | V_vec_jobject "jobject list" | V_JNIObjectPtr JNIObject

text \<open>\<open>JNIToCPPConversor<T>::convert\<close> (lines 364-390), for the four types that have one.\<close>

fun JNIToCPPConversor_convert :: "nat \<Rightarrow> ret_type \<Rightarrow> runtime \<Rightarrow> jobject \<Rightarrow> cpp_value jni" where
  "JNIToCPPConversor_convert n R_string w obj =
     jni_bind (toString n w obj) (\<lambda>s w1. Some (Inr (V_string s), w1))"
| "JNIToCPPConversor_convert n R_vec_string w obj =
     jni_bind (toVectorString n w obj) (\<lambda>v w1. Some (Inr (V_vec_string v), w1))"
| "JNIToCPPConversor_convert n R_vec_uint8 w obj =
     jni_bind (toVectorByte n w obj) (\<lambda>v w1. Some (Inr (V_vec_uint8 v), w1))"
| "JNIToCPPConversor_convert n R_vec_jobject w obj =
     (let (v, w1) = toVectorJObject w obj in Some (Inr (V_vec_jobject v), w1))"
| "JNIToCPPConversor_convert n _ w obj = None"

text \<open>
  What a primitive \<open>Call<Type>Method\<close> hands back as the native type \<open>T\<close>: the method's
  value when it has the type of the entry point, its zero otherwise. \<open>uint8_t\<close> is read
  through \<open>CallCharMethod\<close> and narrowed.
\<close>

fun native_of :: "ret_type \<Rightarrow> jvalue \<Rightarrow> cpp_value" where
  "native_of R_bool v = V_bool (case v of JBoolean b \<Rightarrow> b | _ \<Rightarrow> False)"
| "native_of R_int8 v = V_int8 (case v of JByte x \<Rightarrow> x | _ \<Rightarrow> 0)"
| "native_of R_uint8 v = V_uint8 (case v of JChar x \<Rightarrow> ucast x | _ \<Rightarrow> 0)"
| "native_of R_int16 v = V_int16 (case v of JShort x \<Rightarrow> x | _ \<Rightarrow> 0)"
| "native_of R_int32 v = V_int32 (case v of JInt x \<Rightarrow> x | _ \<Rightarrow> 0)"
| "native_of R_int64 v = V_int64 (case v of JLong x \<Rightarrow> x | _ \<Rightarrow> 0)"
| "native_of R_float v = V_float (case v of JFloat x \<Rightarrow> x | _ \<Rightarrow> 0)"
| "native_of R_double v = V_double (case v of JDouble x \<Rightarrow> x | _ \<Rightarrow> 0)"
| "native_of _ v = V_void"

section \<open>JNICaller (safejni.h, lines 395-652)\<close>

fun JNICaller_callStatic :: "nat \<Rightarrow> ret_type \<Rightarrow> runtime \<Rightarrow> jobject \<Rightarrow> jmethodID \<Rightarrow> jarg list \<Rightarrow> cpp_value jni" where
  "JNICaller_callStatic n R_void w cls method v =
     Some (Inr V_void, CallStaticVoidMethod w cls method v)"
| "JNICaller_callStatic n R_JNIObjectPtr w cls method v =
     (let (obj, w1) = CallStaticObjectMethod w cls method v
      in Some (Inr (V_JNIObjectPtr (CreateShared obj)), w1))"
| "JNICaller_callStatic n R_string w cls method v =
     (let (obj, w1) = CallStaticObjectMethod w cls method v
      in jni_bind (JNIToCPPConversor_convert n R_string w1 obj)
           (\<lambda>result w2. Some (Inr result, if obj \<noteq> 0 then DeleteLocalRef w2 obj else w2)))"
| "JNICaller_callStatic n R_vec_string w cls method v =
     (let (obj, w1) = CallStaticObjectMethod w cls method v
      in jni_bind (JNIToCPPConversor_convert n R_vec_string w1 obj)
           (\<lambda>result w2. Some (Inr result, if obj \<noteq> 0 then DeleteLocalRef w2 obj else w2)))"
| "JNICaller_callStatic n R_vec_uint8 w cls method v =
     (let (obj, w1) = CallStaticObjectMethod w cls method v
      in jni_bind (JNIToCPPConversor_convert n R_vec_uint8 w1 obj)
           (\<lambda>result w2. Some (Inr result, if obj \<noteq> 0 then DeleteLocalRef w2 obj else w2)))"
| "JNICaller_callStatic n R_vec_jobject w cls method v =
     (let (obj, w1) = CallStaticObjectMethod w cls method v
      in jni_bind (JNIToCPPConversor_convert n R_vec_jobject w1 obj)
           (\<lambda>result w2. Some (Inr result, if obj \<noteq> 0 then DeleteLocalRef w2 obj else w2)))"
| "JNICaller_callStatic n T w cls method v =
     (let (x, w1) = CallStaticPrimitiveMethod w cls method v in Some (Inr (native_of T x), w1))"

fun JNICaller_callInstance :: "nat \<Rightarrow> ret_type \<Rightarrow> runtime \<Rightarrow> jobject \<Rightarrow> jmethodID \<Rightarrow> jarg list \<Rightarrow> cpp_value jni" where
  "JNICaller_callInstance n R_void w inst method v =
     Some (Inr V_void, CallVoidMethod w inst method v)"
| "JNICaller_callInstance n R_JNIObjectPtr w inst method v =
     (let (obj, w1) = CallObjectMethod w inst method v
      in Some (Inr (V_JNIObjectPtr (CreateShared obj)), w1))"
| "JNICaller_callInstance n R_string w inst method v =
     (let (obj, w1) = CallObjectMethod w inst method v
      in jni_bind (JNIToCPPConversor_convert n R_string w1 obj)
           (\<lambda>result w2. Some (Inr result, if obj \<noteq> 0 then DeleteLocalRef w2 obj else w2)))"
| "JNICaller_callInstance n R_vec_string w inst method v =
     (let (obj, w1) = CallObjectMethod w inst method v
      in jni_bind (JNIToCPPConversor_convert n R_vec_string w1 obj)
           (\<lambda>result w2. Some (Inr result, if obj \<noteq> 0 then DeleteLocalRef w2 obj else w2)))"
| "JNICaller_callInstance n R_vec_uint8 w inst method v =
     (let (obj, w1) = CallObjectMethod w inst method v
      in jni_bind (JNIToCPPConversor_convert n R_vec_uint8 w1 obj)
           (\<lambda>result w2. Some (Inr result, if obj \<noteq> 0 then DeleteLocalRef w2 obj else w2)))"
| "JNICaller_callInstance n R_vec_jobject w inst method v =
     (let (obj, w1) = CallObjectMethod w inst method v
      in jni_bind (JNIToCPPConversor_convert n R_vec_jobject w1 obj)
           (\<lambda>result w2. Some (Inr result, if obj \<noteq> 0 then DeleteLocalRef w2 obj else w2)))"
| "JNICaller_callInstance n T w inst method v =
     (let (x, w1) = CallPrimitiveMethod w inst method v in Some (Inr (native_of T x), w1))"

section \<open>JNIParamDestructor and JNIParamConversor (safejni.h, lines 676-755)\<close>

record JNIParamDestructor =
  jniParams :: "jobject list"
  currentIndex :: nat

text \<open>
  The constructor: \<open>NUM_PARAMS\<close> slots, all null. \<open>JNIParamDestructor<0>\<close> is the same with
  no slot at all.
\<close>

definition JNIParamDestructor_ctor :: "nat \<Rightarrow> JNIParamDestructor" where
  "JNIParamDestructor_ctor NUM_PARAMS = \<lparr>jniParams = replicate NUM_PARAMS 0, currentIndex = 0\<rparr>"

text \<open>\<open>add\<close> (lines 686-688); a write past the last slot is undefined and gives \<open>None\<close>.\<close>

definition add :: "JNIParamDestructor \<Rightarrow> jobject \<Rightarrow> JNIParamDestructor option" where
  "add d jniObject =
     (if currentIndex d < length (jniParams d)
      then Some (d\<lparr>jniParams := (jniParams d)[currentIndex d := jniObject],
                   currentIndex := Suc (currentIndex d)\<rparr>)
      else None)"

fun DeleteLocalRefs :: "runtime \<Rightarrow> jobject list \<Rightarrow> runtime" where
  "DeleteLocalRefs w [] = w"
| "DeleteLocalRefs w (p # ps) = DeleteLocalRefs (if p \<noteq> 0 then DeleteLocalRef w p else w) ps"

text \<open>
  \<open>~JNIParamDestructor\<close> (lines 690-696 and 706-708): release every non-null slot, then
  \<open>clearException\<close>. An exception leaving the destructor ends the program.
\<close>

definition JNIParamDestructor_dtor :: "nat \<Rightarrow> JNIParamDestructor \<Rightarrow> runtime \<Rightarrow> runtime option" where
  "JNIParamDestructor_dtor n d w =
     (case clearException n (DeleteLocalRefs w (jniParams d)) of
        Some (Inr _, w1) \<Rightarrow> Some w1
      | _ \<Rightarrow> None)"

text \<open>
  \<open>JNIDestructorDecider<T, D>::decide\<close> (lines 713-739): a reference type (\<open>jobject\<close>,
  \<open>jstring\<close>, \<open>jobjectArray\<close>, \<open>jbyteArray\<close>) is added, a primitive is not.
\<close>

definition JNIDestructorDecider_decide :: "jarg \<Rightarrow> JNIParamDestructor \<Rightarrow> JNIParamDestructor option" where
  "JNIDestructorDecider_decide jniParam destructor =
     (case jniParam of J_ref obj \<Rightarrow> add destructor obj | J_val _ \<Rightarrow> Some destructor)"

text \<open>
  \<open>JNIParamConversor\<close> (lines 744-755). The destructor is a local of the caller that the
  conversion updates, so it is returned on the exceptional exit as well.
\<close>

definition JNIParamConversor :: "nat \<Rightarrow> cpp_arg \<Rightarrow> runtime \<Rightarrow> JNIParamDestructor \<Rightarrow> (jarg result \<times> JNIParamDestructor \<times> runtime) option" where
  "JNIParamConversor n arg w destructor =
     (case CPPToJNIConversor_convert n w arg of
        None \<Rightarrow> None
      | Some (Inl e, w1) \<Rightarrow> Some (Inl e, destructor, w1)
      | Some (Inr result, w1) \<Rightarrow>
          (if needDeleteLocal arg
           then (case JNIDestructorDecider_decide result destructor of
                   None \<Rightarrow> None
                 | Some d1 \<Rightarrow> Some (Inr result, d1, w1))
           else Some (Inr result, destructor, w1)))"

text \<open>
  The pack expansion \<open>JNIParamConversor<Args>(jniEnv, v, paramDestructor)...\<close>: the
  arguments are converted one after the other, here from the first to the last, and the
  first exception ends the conversion.
\<close>

fun convert_args :: "nat \<Rightarrow> cpp_arg list \<Rightarrow> runtime \<Rightarrow> JNIParamDestructor \<Rightarrow> (jarg list result \<times> JNIParamDestructor \<times> runtime) option" where
  "convert_args n [] w d = Some (Inr [], d, w)"
| "convert_args n (a # rest) w d =
     (case JNIParamConversor n a w d of
        None \<Rightarrow> None
      | Some (Inl e, d1, w1) \<Rightarrow> Some (Inl e, d1, w1)
      | Some (Inr j, d1, w1) \<Rightarrow>
          (case convert_args n rest w1 d1 of
             None \<Rightarrow> None
           | Some (Inl e, d2, w2) \<Rightarrow> Some (Inl e, d2, w2)
           | Some (Inr js, d2, w2) \<Rightarrow> Some (Inr (j # js), d2, w2)))"

section \<open>The public calls (safejni.h, lines 760-810 and 960-973)\<close>

text \<open>\<open>static constexpr uint8_t nargs = sizeof...(Args)\<close>.\<close>

definition nargs :: "cpp_arg list \<Rightarrow> nat" where
  "nargs v = unat (word_of_nat (length v) :: 8 word)"

text \<open>
  \<open>CallStatic\<close> (lines 760-783). The locals are destroyed in the reverse order of their
  construction: \<open>paramDestructor\<close>, then \<open>methodInfo\<close>.
\<close>

definition CallStatic :: "nat \<Rightarrow> ret_type \<Rightarrow> string \<Rightarrow> string \<Rightarrow> string \<Rightarrow> cpp_arg list \<Rightarrow> runtime \<Rightarrow> cpp_value jni" where
  "CallStatic n T className methodName signature v w =
     (case attachJniEnv w of
        (Inl e, w1) \<Rightarrow> Some (Inl e, w1)
      | (Inr Indeterminate, w1) \<Rightarrow> None
      | (Inr Attached, w1) \<Rightarrow>
          (let sig = (if signature = [] then getJNISignature (cpp_of_ret T) (map type_of v)
                      else c_str signature)
           in jni_bind (getStaticMethodInfo n w1 className methodName (c_str signature))
                (\<lambda>methodInfo w2.
                   scope_exit
                     (case convert_args n v w2 (JNIParamDestructor_ctor (nargs v)) of
                        None \<Rightarrow> None
                      | Some (r, paramDestructor, w3) \<Rightarrow>
                          scope_exit
                            (case r of
                               Inl e \<Rightarrow> Some (Inl e, w3)
                             | Inr args \<Rightarrow>
                                 JNICaller_callStatic n T w3 (classId methodInfo)
                                   (methodId methodInfo) args)
                            (JNIParamDestructor_dtor n paramDestructor))
                     (JNIMethodInfo_dtor methodInfo))))"

text \<open>\<open>Call\<close> on an instance (lines 786-810).\<close>

definition Call :: "nat \<Rightarrow> ret_type \<Rightarrow> jobject \<Rightarrow> jobject \<Rightarrow> string \<Rightarrow> string \<Rightarrow> cpp_arg list \<Rightarrow> runtime \<Rightarrow> cpp_value jni" where
  "Call n T inst cls methodName signature v w =
     (case attachJniEnv w of
        (Inl e, w1) \<Rightarrow> Some (Inl e, w1)
      | (Inr Indeterminate, w1) \<Rightarrow> None
      | (Inr Attached, w1) \<Rightarrow>
          (let sig = (if signature = [] then getJNISignature (cpp_of_ret T) (map type_of v)
                      else c_str signature)
           in jni_bind (getMethodInfo_jclass n w1 cls methodName sig)
                (\<lambda>methodInfo w2.
                   scope_exit
                     (case convert_args n v w2 (JNIParamDestructor_ctor (nargs v)) of
                        None \<Rightarrow> None
                      | Some (r, paramDestructor, w3) \<Rightarrow>
                          scope_exit
                            (case r of
                               Inl e \<Rightarrow> Some (Inl e, w3)
                             | Inr args \<Rightarrow>
                                 JNICaller_callInstance n T w3 inst (methodId methodInfo) args)
                            (JNIParamDestructor_dtor n paramDestructor))
                     (JNIMethodInfo_dtor methodInfo))))"

text \<open>
  \<open>JNIObject::Call\<close> (lines 960-973). The proxy is returned with the result: the call
  changes its override fields. \<open>NameAndSignatureClear clear(this)\<close> is constructed after
  \<open>attachJniEnv\<close> has returned.
\<close>

definition JNIObject_Call :: "nat \<Rightarrow> ret_type \<Rightarrow> JNIObject \<Rightarrow> string \<Rightarrow> cpp_arg list \<Rightarrow> runtime \<Rightarrow> (cpp_value result \<times> JNIObject \<times> runtime) option" where
  "JNIObject_Call n T this methodName v w =
     (case attachJniEnv w of
        (Inl e, w1) \<Rightarrow> Some (Inl e, this, w1)
      | (Inr Indeterminate, w1) \<Rightarrow> None
      | (Inr Attached, w1) \<Rightarrow>
          (let (cls, w2) = (if className' this = [] then GetObjectClass w1 (instance' this)
                            else FindClass w1 (c_str (className' this)))
           in case Call n T (instance' this) cls methodName (memberSignature' this) v w2 of
                None \<Rightarrow> None
              | Some (r, w3) \<Rightarrow> Some (r, NameAndSignatureClear_dtor this, w3)))"

section \<open>Accounting\<close>

text \<open>
  \<open>attachable\<close>: the library was initialised with a runtime to which the thread attaches.
  \<open>frame w w'\<close>: from \<open>w\<close> to \<open>w'\<close> the runtime reference stayed, handles were only added,
  and every local reference released in between was created in between.
\<close>

definition attachable :: "runtime \<Rightarrow> bool" where
  "attachable w = (case javaVM w of None \<Rightarrow> False | Some status \<Rightarrow> 0 \<le> status)"

definition released :: "runtime \<Rightarrow> jobject \<Rightarrow> nat" where
  "released w h = count_list (journal w) (Delete Local h)"

text \<open>The kind of reference behind a handle, \<open>None\<close> when the handle is not live.\<close>

definition kind :: "runtime \<Rightarrow> jobject \<Rightarrow> ref_kind option" where
  "kind w h = map_option fst (lookup w h)"

definition frame :: "runtime \<Rightarrow> runtime \<Rightarrow> bool" where
  "frame w w' \<longleftrightarrow>
     javaVM w' = javaVM w \<and> next_ref w \<le> next_ref w'
     \<and> (\<forall>h. h \<le> next_ref w \<or> next_ref w' < h \<longrightarrow> released w' h = released w h)
     \<and> (\<forall>h. h \<le> next_ref w \<longrightarrow> kind w' h = kind w h)"

text \<open>
  \<open>quiet w w'\<close>: a runtime operation that creates and releases no reference. \<open>alloc w p\<close>:
  an operation that returns null and was quiet, or returns one new local reference, the next
  handle of the runtime.
\<close>

definition quiet :: "runtime \<Rightarrow> runtime \<Rightarrow> bool" where
  "quiet w w' \<longleftrightarrow>
     javaVM w' = javaVM w \<and> next_ref w' = next_ref w \<and> journal w' = journal w
     \<and> (\<forall>h. kind w' h = kind w h)"

definition alloc :: "runtime \<Rightarrow> jobject \<times> runtime \<Rightarrow> bool" where
  "alloc w p \<longleftrightarrow>
     (fst p = 0 \<and> quiet w (snd p))
     \<or> (fst p = Suc (next_ref w) \<and> javaVM (snd p) = javaVM w
        \<and> next_ref (snd p) = Suc (next_ref w)
        \<and> journal (snd p) = New Local (Suc (next_ref w)) # journal w
        \<and> (\<forall>h. kind (snd p) h = (if h = Suc (next_ref w) then Some Local else kind w h)))"

text \<open>A library function that returns, normally or with an exception, and is a frame.\<close>

definition framed :: "runtime \<Rightarrow> 'a jni \<Rightarrow> bool" where
  "framed w m \<longleftrightarrow> (\<exists>r w'. m = Some (r, w') \<and> frame w w')"

text \<open>
  \<open>grows w w'\<close>: handles were added and nothing was released. \<open>fresh w h w'\<close>: the handle
  \<open>h\<close> is null, or a local reference created after \<open>w\<close> that is live and unreleased in \<open>w'\<close>.
  \<open>yields_fresh\<close>: what an outbound conversion gives, it returns, is a frame, and a handle
  it returns is fresh.
\<close>

definition grows :: "runtime \<Rightarrow> runtime \<Rightarrow> bool" where
  "grows w w' \<longleftrightarrow>
     javaVM w' = javaVM w \<and> next_ref w \<le> next_ref w' \<and> (\<forall>h. released w' h = released w h)
     \<and> (\<forall>h. h \<le> next_ref w \<longrightarrow> kind w' h = kind w h)"

definition fresh :: "runtime \<Rightarrow> jobject \<Rightarrow> runtime \<Rightarrow> bool" where
  "fresh w h w' \<longleftrightarrow>
     h = 0 \<or> (next_ref w < h \<and> h \<le> next_ref w' \<and> released w' h = released w h
              \<and> kind w' h = Some Local)"

definition yields_fresh :: "runtime \<Rightarrow> jobject jni \<Rightarrow> bool" where
  "yields_fresh w m \<longleftrightarrow>
     (\<exists>r w'. m = Some (r, w') \<and> frame w w' \<and> (case r of Inl e \<Rightarrow> True | Inr h \<Rightarrow> fresh w h w'))"

text \<open>
  \<open>tracked wb d w\<close>: the state of a \<open>JNIParamDestructor\<close> \<open>d\<close> during the conversion of the
  arguments of a call that began in \<open>wb\<close>. The slots filled so far hold distinct handles,
  each null or a local reference created since \<open>wb\<close> that is live and unreleased; the
  other slots hold null.
\<close>

definition nonnull :: "jobject list \<Rightarrow> jobject list" where
  "nonnull hs = filter (\<lambda>h. h \<noteq> 0) hs"

definition tracked :: "runtime \<Rightarrow> JNIParamDestructor \<Rightarrow> runtime \<Rightarrow> bool" where
  "tracked wb d w \<longleftrightarrow>
     frame wb w
     \<and> (\<exists>regs. jniParams d = regs @ replicate (length (jniParams d) - length regs) 0
          \<and> currentIndex d = length regs \<and> length regs \<le> length (jniParams d)
          \<and> distinct (nonnull regs)
          \<and> (\<forall>h\<in>set regs. h \<noteq> 0 \<longrightarrow>
                next_ref wb < h \<and> h \<le> next_ref w \<and> released w h = released wb h
                \<and> kind w h = Some Local))"

text \<open>
  The handles that a result carries to the caller, and \<open>later w x\<close>: each of them is null or
  was created after \<open>w\<close>.
\<close>

fun handles_of :: "cpp_value \<Rightarrow> jobject list" where
  "handles_of (V_JNIObjectPtr obj) = [instance' obj]"
| "handles_of (V_vec_jobject hs) = hs"
| "handles_of _ = []"

definition later :: "runtime \<Rightarrow> cpp_value \<Rightarrow> bool" where
  "later w x \<longleftrightarrow> (\<forall>h\<in>set (handles_of x). h = 0 \<or> next_ref w < h)"

section \<open>An example runtime\<close>

text \<open>
  A runtime with one user class \<open>Foo\<close>, an object of it behind the local handle \<open>1\<close>, the
  class behind the local handle \<open>2\<close>, an instance method \<open>run\<close>, a static method \<open>start\<close>,
  an instance method \<open>names\<close> and a static method \<open>list\<close> that raise, and the instance
  methods \<open>void fail()\<close>, \<open>int count()\<close> and \<open>String label()\<close> that raise.
\<close>

definition Foo_methods :: "jmethod list" where
  "Foo_methods =
     [\<lparr>m_class = ''Foo'', m_name = ''run'', m_sig = ''()V'', m_static = False,
        m_body = (\<lambda>this args. Returned JNull)\<rparr>,
      \<lparr>m_class = ''Foo'', m_name = ''start'', m_sig = ''()V'', m_static = True,
        m_body = (\<lambda>this args. Returned JNull)\<rparr>,
      \<lparr>m_class = ''Foo'', m_name = ''names'',
        m_sig = ''(Ljava/lang/String;I[Ljava/lang/String;)[Ljava/lang/String;'',
        m_static = False,
        m_body = (\<lambda>this args. Raised (Some ''bang''))\<rparr>,
      \<lparr>m_class = ''Foo'', m_name = ''list'',
        m_sig = ''(Ljava/lang/String;I[Ljava/lang/String;)[Ljava/lang/String;'',
        m_static = True,
        m_body = (\<lambda>this args. Raised (Some ''bang''))\<rparr>,
      \<lparr>m_class = ''Foo'', m_name = ''fail'', m_sig = ''()V'', m_static = False,
        m_body = (\<lambda>this args. Raised (Some ''boom''))\<rparr>,
      \<lparr>m_class = ''Foo'', m_name = ''count'', m_sig = ''()I'', m_static = False,
        m_body = (\<lambda>this args. Raised (Some ''boom''))\<rparr>,
      \<lparr>m_class = ''Foo'', m_name = ''label'', m_sig = ''()Ljava/lang/String;'',
        m_static = False,
        m_body = (\<lambda>this args. Raised (Some ''boom''))\<rparr>]"

definition Foo_runtime :: runtime where
  "Foo_runtime =
     \<lparr>javaVM = Some 0, class_table = [''Foo''], method_table = Foo_methods,
      refs = [1 \<mapsto> (Local, JInstance ''Foo''), 2 \<mapsto> (Local, JClass ''Foo'')],
      next_ref = 2, pending = None, journal = [], logcat = [],
      malformed_utf = (\<lambda>bytes. [])\<rparr>"

section \<open>Signature derivation\<close>

lemma Concatenate_concat: "Concatenate c cs = c @ concat cs"
  by (induction c cs rule: Concatenate.induct) (simp_all add: Concatenate2_def)

lemma JNIType_no_NUL: "NUL \<notin> set (JNIType t)"
  by (cases t) (simp_all add: NUL_def)

lemma c_str_terminated: "NUL \<notin> set s \<Longrightarrow> c_str (s @ NUL # r) = s"
  by (simp add: c_str_def takeWhile_append)

text \<open>
  C4. For a return type \<open>R\<close> and parameter types \<open>As\<close> the derived signature is exactly
  \<open>"(" + descriptor(A1) + ... + descriptor(An) + ")" + descriptor(R)\<close>. The signature is a
  function of the two type arguments alone, so deriving it twice for the same combination
  gives the same bytes.
\<close>

theorem getJNISignature_exact:
  "getJNISignature R As = ''('' @ concat (map JNIType As) @ '')'' @ JNIType R"
proof -
  let ?s = "''('' @ concat (map JNIType As) @ '')'' @ JNIType R"
  have "NUL \<notin> set ?s"
    using JNIType_no_NUL by (auto simp: NUL_def)
  then have "c_str (?s @ NUL # []) = ?s"
    by (rule c_str_terminated)
  then show ?thesis
    by (simp add: getJNISignature_def CompileTimeString_value_def Concatenate_concat)
qed

section \<open>Modified UTF-8\<close>

lemma two_bytes:
  fixes x y :: nat
  assumes "y < 64"
  shows "(x * 64 + y) div 64 = x" "(x * 64 + y) mod 64 = y"
  using assms by simp_all

lemma three_bytes:
  fixes x y z :: nat
  assumes "y < 64" and "z < 64"
  shows "(x * 4096 + y * 64 + z) div 4096 = x" "(x * 4096 + y * 64 + z) div 64 mod 64 = y"
    "(x * 4096 + y * 64 + z) mod 64 = z"
proof -
  have e: "x * 4096 + y * 64 + z = (x * 64 + y) * 64 + z" by simp
  have m: "((x * 64 + y) * 64 + z) mod 64 = z mod 64" by (rule mod_mult_self3)
  have d: "((x * 64 + y) * 64 + z) div 64 = (x * 64 + y) + z div 64"
    by (rule div_mult_self3) simp
  from d assms(2) have "(x * 4096 + y * 64 + z) div 64 = x * 64 + y"
    by (simp only: e div_less add_0_right)
  then show "(x * 4096 + y * 64 + z) div 64 mod 64 = y"
    using two_bytes(2) [OF assms(1), of x] by (simp only:)
  from m assms(2) show "(x * 4096 + y * 64 + z) mod 64 = z"
    by (simp only: e mod_less)
  have f: "x * 4096 + y * 64 + z = x * 4096 + (y * 64 + z)" by simp
  have "y * 64 + z < 4096" using assms by simp
  moreover have "(x * 4096 + (y * 64 + z)) div 4096 = x + (y * 64 + z) div 4096"
    by (rule div_mult_self3) simp
  ultimately show "(x * 4096 + y * 64 + z) div 4096 = x"
    by (simp only: f div_less add_0_right)
qed

lemma encode_Cons: "mutf8_encode (u # us) = encode_unit u @ mutf8_encode us"
  by (simp add: mutf8_encode_def)

lemma encode_one: "(1::nat) \<le> of_char c \<Longrightarrow> (of_char c :: nat) < 128 \<Longrightarrow> encode_unit (of_char c) = [c]"
  by (simp add: encode_unit_def)

lemma encode_two:
  fixes x y :: nat
  assumes "of_char c = 192 + x" and "x < 32" and "of_char c2 = 128 + y" and "y < 64"
    and "x * 64 + y = 0 \<or> 128 \<le> x * 64 + y"
  shows "encode_unit (x * 64 + y) = [c, c2]"
proof -
  have "x * 64 + y < 2048" using assms(2,4) by simp
  moreover have "\<not> (1 \<le> x * 64 + y \<and> x * 64 + y < 128)" using assms(5) by auto
  moreover have "char_of (192 + (x * 64 + y) div 64) = c"
    using char_of_char [of c, where ?'a = nat] by (simp only: two_bytes [OF assms(4)] assms(1) [symmetric])
  moreover have "char_of (128 + (x * 64 + y) mod 64) = c2"
    using char_of_char [of c2, where ?'a = nat] by (simp only: two_bytes [OF assms(4)] assms(3) [symmetric])
  ultimately show ?thesis by (simp only: encode_unit_def if_False if_True simp_thms)
qed

lemma encode_three:
  fixes x y z :: nat
  assumes "of_char c = 224 + x" and "of_char c2 = 128 + y" and "y < 64"
    and "of_char c3 = 128 + z" and "z < 64" and "2048 \<le> x * 4096 + y * 64 + z"
  shows "encode_unit (x * 4096 + y * 64 + z) = [c, c2, c3]"
proof -
  have "\<not> x * 4096 + y * 64 + z < 2048" using assms(6) by simp
  moreover have "\<not> (1 \<le> x * 4096 + y * 64 + z \<and> x * 4096 + y * 64 + z < 128)"
    using assms(6) by simp
  moreover have "char_of (224 + (x * 4096 + y * 64 + z) div 4096) = c"
    using char_of_char [of c, where ?'a = nat]
    by (simp only: three_bytes [OF assms(3,5)] assms(1) [symmetric])
  moreover have "char_of (128 + (x * 4096 + y * 64 + z) div 64 mod 64) = c2"
    using char_of_char [of c2, where ?'a = nat]
    by (simp only: three_bytes [OF assms(3,5)] assms(2) [symmetric])
  moreover have "char_of (128 + (x * 4096 + y * 64 + z) mod 64) = c3"
    using char_of_char [of c3, where ?'a = nat]
    by (simp only: three_bytes [OF assms(3,5)] assms(4) [symmetric])
  ultimately show ?thesis by (simp only: encode_unit_def if_False if_True simp_thms)
qed


lemma decode_encode: "mutf8_decode bs = Some us \<Longrightarrow> mutf8_encode us = bs"
proof (induction bs arbitrary: us rule: mutf8_decode.induct)
  case 1
  then show ?case by (simp add: mutf8_encode_def)
next
  case (2 c cs)
  let ?a = "of_char c :: nat"
  consider (one) "1 \<le> ?a" "?a < 128"
    | (two) "192 \<le> ?a" "?a < 224"
    | (three) "224 \<le> ?a" "?a < 240"
    | (other) "\<not> (1 \<le> ?a \<and> ?a < 128)" "\<not> (192 \<le> ?a \<and> ?a < 224)" "\<not> (224 \<le> ?a \<and> ?a < 240)"
    by linarith
  then show ?case
  proof cases
    case one
    with "2.prems" obtain us' where d: "mutf8_decode cs = Some us'" and us: "us = ?a # us'"
      by (auto simp: Let_def)
    have "mutf8_encode us' = cs" using one d by (intro "2.IH"(1)) simp_all
    with us one show ?thesis by (simp add: encode_Cons encode_one)
  next
    case two
    with "2.prems" obtain c2 r where cs: "cs = c2 # r"
      by (cases cs) (simp_all add: Let_def)
    let ?b = "of_char c2 :: nat"
    let ?u = "(?a - 192) * 64 + (?b - 128)"
    have dec: "mutf8_decode (c # cs)
                 = (if 128 \<le> ?b \<and> ?b < 192 \<and> (?u = 0 \<or> 128 \<le> ?u)
                    then map_option (Cons ?u) (mutf8_decode r) else None)"
      using two cs by (simp add: Let_def)
    with "2.prems" have cond: "128 \<le> ?b \<and> ?b < 192 \<and> (?u = 0 \<or> 128 \<le> ?u)"
      by (simp split: if_splits)
    have "map_option (Cons ?u) (mutf8_decode r) = Some us"
      using cond "2.prems" unfolding dec by (simp only: if_True simp_thms)
    then obtain us' where d: "mutf8_decode r = Some us'" and us: "us = ?u # us'"
      unfolding map_option_eq_Some by blast
    have ih: "mutf8_encode us' = r"
      using two cs cond d by (intro "2.IH"(2) [of ?a c2 r ?b ?u]) (simp_all only: simp_thms, linarith+)
    have x: "?a = 192 + (?a - 192)" "?a - 192 < 32" using two by linarith+
    have y: "?b = 128 + (?b - 128)" "?b - 128 < 64" using cond by linarith+
    have "encode_unit ?u = [c, c2]"
      using x y cond [THEN conjunct2, THEN conjunct2] by (rule encode_two)
    with us ih cs show ?thesis by (simp only: encode_Cons append_Cons append_Nil)
  next
    case three
    with "2.prems" obtain c2 c3 r where cs: "cs = c2 # c3 # r"
      by (cases cs; cases "tl cs") (simp_all add: Let_def)
    let ?b = "of_char c2 :: nat"
    let ?d = "of_char c3 :: nat"
    let ?u = "(?a - 224) * 4096 + (?b - 128) * 64 + (?d - 128)"
    have dec: "mutf8_decode (c # cs)
                 = (if 128 \<le> ?b \<and> ?b < 192 \<and> 128 \<le> ?d \<and> ?d < 192 \<and> 2048 \<le> ?u
                          \<and> \<not> (55296 \<le> ?u \<and> ?u < 57344)
                    then map_option (Cons ?u) (mutf8_decode r) else None)"
      using three cs by (simp add: Let_def)
    with "2.prems" have cond: "128 \<le> ?b \<and> ?b < 192 \<and> 128 \<le> ?d \<and> ?d < 192 \<and> 2048 \<le> ?u
                          \<and> \<not> (55296 \<le> ?u \<and> ?u < 57344)"
      by (simp split: if_splits)
    have "map_option (Cons ?u) (mutf8_decode r) = Some us"
      using cond "2.prems" unfolding dec by (simp only: if_True simp_thms)
    then obtain us' where d: "mutf8_decode r = Some us'" and us: "us = ?u # us'"
      unfolding map_option_eq_Some by blast
    have ih: "mutf8_encode us' = r"
      using three cs cond d
      by (intro "2.IH"(3) [of ?a c2 "c3 # r" c3 r ?b ?d ?u]) (simp_all only: simp_thms, linarith+)
    have x: "?a = 224 + (?a - 224)" using three by linarith
    have y: "?b = 128 + (?b - 128)" "?b - 128 < 64" using cond by linarith+
    have z: "?d = 128 + (?d - 128)" "?d - 128 < 64" using cond by linarith+
    have "encode_unit ?u = [c, c2, c3]"
      using x y z cond [THEN conjunct2, THEN conjunct2, THEN conjunct2, THEN conjunct2,
          THEN conjunct1]
      by (rule encode_three)
    with us ih cs show ?thesis by (simp only: encode_Cons append_Cons append_Nil)
  next
    case other
    then have "(1 \<le> ?a \<and> ?a < 128) = False" "(192 \<le> ?a \<and> ?a < 224) = False"
      "(224 \<le> ?a \<and> ?a < 240) = False"
      by simp_all
    then have "mutf8_decode (c # cs) = None"
      by (simp only: mutf8_decode.simps Let_def if_False)
    with "2.prems" show ?thesis by simp
  qed
qed

text \<open>Bytes that decode are stored as they are.\<close>

lemma string_of_utf_bmp: "bmp_mutf8 bytes \<Longrightarrow> string_of_utf w bytes = bytes"
  by (auto simp: bmp_mutf8_def string_of_utf_def decode_encode)

section \<open>Evaluation\<close>

lemmas fake_defs = new_ref_def new_local_def lookup_def deref_def raise_def NewStringUTF_def
  string_of_utf_bmp bmp_mutf8_def
  platform_classes_def FindClass_def GetObjectClass_def lookup_method_def find_member_def
  GetMethodID_def GetStaticMethodID_def DeleteLocalRef_def DeleteGlobalRef_def NewGlobalRef_def
  NewLocalRef_def ExceptionCheck_def ExceptionOccurred_def ExceptionDescribe_def
  ExceptionClear_def arg_value_def hashmap_put_def invoke_def CallObjectMethod_def
  CallVoidMethod_def CallPrimitiveMethod_def CallStaticObjectMethod_def CallStaticVoidMethod_def
  CallStaticPrimitiveMethod_def NewObject_def NewObjectArray_def SetObjectArrayElement_def
  GetObjectArrayElement_def GetArrayLength_def NewByteArray_def SetByteArrayRegion_def
  GetByteArrayRegion_def GetFloatArrayRegion_def GetStringUTFChars_def

lemmas lib_defs = LOGE_def throw_def jni_bind_def scope_exit_def attachJniEnv_def
  JNIMethodInfo_dtor_def toJString_def getStaticMethodInfo_def getMethodInfo_jclass_def
  clearException_def jint_of_size_def toJObjectArray_def toJObjectArray_bytes_def toHashMap_def
  toVectorString_def toVectorByte_def toVectorFloat_def toVectorJObject_def JNIObject_new_def
  JNIObject_dtor_def makeGlobalRef_def CreateGlobal_def CreateShared_def CreateWeak_def
  NameAndSignatureClear_dtor_def JNIParamDestructor_ctor_def add_def JNIParamDestructor_dtor_def
  JNIDestructorDecider_decide_def JNIParamConversor_def nargs_def CallStatic_def Call_def
  JNIObject_Call_def c_str_def NUL_def getJNISignature_def CompileTimeString_value_def
  Concatenate2_def checkException.simps getMethodInfo.simps toString.simps

lemmas example_defs = Foo_runtime_def Foo_methods_def

section \<open>Basic facts about the fake\<close>

lemma new_ref_simps [simp]:
  "fst (new_ref k v w) = Suc (next_ref w)"
  "next_ref (snd (new_ref k v w)) = Suc (next_ref w)"
  "pending (snd (new_ref k v w)) = pending w"
  "javaVM (snd (new_ref k v w)) = javaVM w"
  "class_table (snd (new_ref k v w)) = class_table w"
  "method_table (snd (new_ref k v w)) = method_table w"
  "logcat (snd (new_ref k v w)) = logcat w"
  "journal (snd (new_ref k v w)) = New k (Suc (next_ref w)) # journal w"
  "lookup (snd (new_ref k v w)) a = (if a = Suc (next_ref w) then Some (k, v) else lookup w a)"
  by (simp_all add: new_ref_def Let_def lookup_def)

lemma DeleteLocalRef_simps [simp]:
  "next_ref (DeleteLocalRef w h) = next_ref w"
  "pending (DeleteLocalRef w h) = pending w"
  "javaVM (DeleteLocalRef w h) = javaVM w"
  "class_table (DeleteLocalRef w h) = class_table w"
  "method_table (DeleteLocalRef w h) = method_table w"
  "logcat (DeleteLocalRef w h) = logcat w"
  "journal (DeleteLocalRef w h) = (if h = 0 then journal w else Delete Local h # journal w)"
  "a \<noteq> h \<Longrightarrow> lookup (DeleteLocalRef w h) a = lookup w a"
  by (auto simp: DeleteLocalRef_def lookup_def split: option.splits ref_kind.splits)

lemma FindClass_platform [simp]:
  "FindClass w ''java/lang/String'' = new_ref Local (JClass ''java/lang/String'') w"
  "FindClass w ''java/util/HashMap'' = new_ref Local (JClass ''java/util/HashMap'') w"
  "FindClass w ''java/lang/Throwable'' = new_ref Local (JClass ''java/lang/Throwable'') w"
  by (simp_all add: FindClass_def platform_classes_def)

section \<open>The exception check\<close>

lemma c_str_no_NUL: "NUL \<notin> set s \<Longrightarrow> c_str s = s"
  by (induction s) (auto simp: c_str_def)

lemma checkException_none: "pending w = None \<Longrightarrow> checkException n w = Some (Inr (), w)"
  by (cases n) (simp_all add: checkException.simps ExceptionCheck_def)

lemma getMethodInfo_getMessage:
  assumes "pending w = None"
  shows "getMethodInfo n w ''java/lang/Throwable'' ''getMessage'' ''()Ljava/lang/String;'' =
           Some (Inr \<lparr>classId = Suc (next_ref w), methodId = Throwable_getMessage,
                      weak' = False\<rparr>,
                 snd (new_ref Local (JClass ''java/lang/Throwable'') w))"
proof -
  have c: "c_str ''java/lang/Throwable'' = ''java/lang/Throwable''"
    "c_str ''getMessage'' = ''getMessage''"
    by (simp_all add: c_str_def NUL_def)
  show ?thesis
    using assms
    by (simp add: getMethodInfo.simps c FindClass_def platform_classes_def new_ref_def Let_def
        jni_bind_def checkException_none GetMethodID_def find_member_def deref_def
        lookup_def lookup_method_def)
qed

lemma toString_no_pending:
  assumes "pending w = None"
  shows "toString n w h = Some (Inr (if h = 0 then [] else
            (case GetStringUTFChars w h of None \<Rightarrow> [] | Some cs \<Rightarrow> c_str cs)), w)"
  using assms by (simp add: toString.simps jni_bind_def checkException_none Let_def)

lemma checkException_pending:
  assumes "pending w = Some t" and "javaVM w = Some status" and "0 \<le> status"
  shows "\<exists>w'. checkException (Suc n) w =
            Some (Inl (JNIException (case t of None \<Rightarrow> [] | Some m \<Rightarrow> c_str m)), w')
          \<and> pending w' = None \<and> frame w w'"
proof (cases t)
  case None
  with assms show ?thesis
    by (simp add: checkException.simps ExceptionCheck_def ExceptionOccurred_def
        ExceptionDescribe_def ExceptionClear_def getMethodInfo_getMessage toString_no_pending
        CallObjectMethod_def invoke_def new_local_def new_ref_def deref_def lookup_def
        jni_bind_def scope_exit_def Let_def throw_def LOGE_def JNIMethodInfo_dtor_def
        attachJniEnv_def DeleteLocalRef_def frame_def released_def kind_def)
next
  case (Some m)
  with assms show ?thesis
    by (simp add: checkException.simps ExceptionCheck_def ExceptionOccurred_def
        ExceptionDescribe_def ExceptionClear_def getMethodInfo_getMessage toString_no_pending
        CallObjectMethod_def invoke_def new_local_def new_ref_def deref_def lookup_def
        jni_bind_def scope_exit_def Let_def throw_def GetStringUTFChars_def LOGE_def
        JNIMethodInfo_dtor_def attachJniEnv_def DeleteLocalRef_def frame_def released_def
        kind_def)
qed

text \<open>
  The check by itself. In an initialised library (the runtime reference is stored and the
  thread attaches), whenever \<open>checkException\<close> finds an exception pending it fails with a
  \<open>JNIException\<close> whose message is the text \<open>getMessage\<close> gives (empty when that is null),
  and when it returns no exception is pending any more, so the next check on the thread
  passes.
\<close>

theorem checkException_raises_and_clears:
  assumes "pending w = Some t" and "javaVM w = Some status" and "0 \<le> status"
  shows "\<exists>w'. checkException (Suc n) w =
            Some (Inl (JNIException (case t of None \<Rightarrow> [] | Some m \<Rightarrow> c_str m)), w')
          \<and> pending w' = None \<and> checkException k w' = Some (Inr (), w')"
  using checkException_pending [OF assms, of n] checkException_none by blast

theorem checkException_raises_and_clears_witness:
  "\<exists>w'. checkException 1 (Foo_runtime\<lparr>pending := Some (Some ''bang'')\<rparr>) =
            Some (Inl (JNIException ''bang''), w')
          \<and> pending w' = None \<and> checkException 0 w' = Some (Inr (), w')"
  using checkException_raises_and_clears
    [of "Foo_runtime\<lparr>pending := Some (Some ''bang'')\<rparr>" "Some ''bang''" 0 0 0]
  by (simp add: example_defs c_str_def NUL_def)

text \<open>
  C3. A call whose target raises need not fail. \<open>Call<void>\<close>, \<open>Call<int32_t>\<close> and
  \<open>Call<std::string>\<close> on the methods \<open>fail\<close>, \<open>count\<close> and \<open>label\<close> of the example, which
  raise an exception with the message \<open>boom\<close>, return to the caller normally, with nothing,
  with \<open>0\<close> and with the empty string. No \<open>JNIException\<close> is thrown: \<open>JNICaller<void>\<close> and
  the primitive callers make no check after the call (safejni.h, lines 476-652),
  \<open>toString\<close> returns at its null test before its check (part_000, lines 129-131), and
  \<open>~JNIParamDestructor\<close> ends with \<open>clearException\<close>, which logs the message and clears
  the exception (safejni.h, lines 690-696; part_000, lines 273-285). Afterwards nothing is
  pending and the log holds the message.
\<close>

theorem Call_raising_target_returns_normally:
  "(\<exists>w'. Call 1 R_void 1 2 ''fail'' [] [] Foo_runtime = Some (Inr V_void, w')
          \<and> pending w' = None \<and> logcat w' = [''boom''])
   \<and> (\<exists>w'. Call 1 R_int32 1 2 ''count'' [] [] Foo_runtime = Some (Inr (V_int32 0), w')
          \<and> pending w' = None \<and> logcat w' = [''boom''])
   \<and> (\<exists>w'. Call 1 R_string 1 2 ''label'' [] [] Foo_runtime = Some (Inr (V_string []), w')
          \<and> pending w' = None \<and> logcat w' = [''boom''])"
  by (simp add: example_defs fake_defs lib_defs Let_def)

section \<open>The execution context\<close>

text \<open>
  C8. With the runtime reference unset \<open>attachJniEnv\<close> does not fail: it returns the
  pointer it never initialised.
\<close>

theorem attachJniEnv_unset_returns_indeterminate:
  "attachJniEnv (w\<lparr>javaVM := None\<rparr>) = (Inr Indeterminate, w\<lparr>javaVM := None\<rparr>)"
  by (simp add: attachJniEnv_def)

section \<open>The proxy\<close>

text \<open>
  C6. When attaching the thread fails, \<open>JNIObject::Call\<close> throws before its clearing guard
  exists, and the proxy keeps its override class name and signature.
\<close>

theorem JNIObject_Call_attach_failure_keeps_overrides:
  "JNIObject_Call n T this methodName v (w\<lparr>javaVM := Some (- 1)\<rparr>) =
     Some (Inl (JNIException ''Could not attach the JNI environment to the current thread.''),
           this,
           LOGE ''JNI Exception: Could not attach the JNI environment to the current thread.''
             (w\<lparr>javaVM := Some (- 1)\<rparr>))"
  by (simp add: JNIObject_Call_def attachJniEnv_def throw_def c_str_def NUL_def)

text \<open>
  C10. Wrapping a live handle with \<open>CreateGlobal\<close> creates two global references, and
  destroying the proxy releases the second one only.
\<close>

theorem CreateGlobal_creates_two_releases_one:
  assumes "javaVM w = Some status" and "0 \<le> status" and "lookup w obj = Some (k, x)"
  shows "\<exists>p w1 w2. CreateGlobal obj w = Some (Inr p, w1)
           \<and> journal w1 = [New Global (Suc (Suc (next_ref w))), New Global (Suc (next_ref w))]
                            @ journal w
           \<and> JNIObject_dtor p w1 = Some w2
           \<and> journal w2 = Delete Global (Suc (Suc (next_ref w))) # journal w1"
  using assms
  by (auto simp: CreateGlobal_def makeGlobalRef_def attachJniEnv_def NewGlobalRef_def new_ref_def
      JNIObject_new_def JNIObject_dtor_def DeleteGlobalRef_def lookup_def Let_def
      split: if_splits)

theorem CreateGlobal_creates_two_releases_one_witness:
  "\<exists>p w1 w2. CreateGlobal 1 Foo_runtime = Some (Inr p, w1)
           \<and> journal w1 = [New Global 4, New Global 3]
           \<and> JNIObject_dtor p w1 = Some w2
           \<and> journal w2 = [Delete Global 4, New Global 4, New Global 3]"
proof -
  have "\<exists>p w1 w2. CreateGlobal 1 Foo_runtime = Some (Inr p, w1)
           \<and> journal w1 = [New Global (Suc (Suc (next_ref Foo_runtime))),
                            New Global (Suc (next_ref Foo_runtime))] @ journal Foo_runtime
           \<and> JNIObject_dtor p w1 = Some w2
           \<and> journal w2 = Delete Global (Suc (Suc (next_ref Foo_runtime))) # journal w1"
    by (rule CreateGlobal_creates_two_releases_one [of Foo_runtime 0 1 Local "JInstance ''Foo''"])
      (simp_all add: example_defs lookup_def)
  then obtain p w1 w2 where "CreateGlobal 1 Foo_runtime = Some (Inr p, w1)"
    and "journal w1 = [New Global (Suc (Suc (next_ref Foo_runtime))),
                       New Global (Suc (next_ref Foo_runtime))] @ journal Foo_runtime"
    and "JNIObject_dtor p w1 = Some w2"
    and "journal w2 = Delete Global (Suc (Suc (next_ref Foo_runtime))) # journal w1"
    by blast
  moreover have "next_ref Foo_runtime = 2" and "journal Foo_runtime = []"
    by (simp_all add: example_defs)
  ultimately show ?thesis
    by (simp add: eval_nat_numeral)
qed

section \<open>Static calls\<close>

text \<open>
  C1. \<open>CallStatic\<close> with an empty signature: the derived signature of \<open>void start()\<close> is
  \<open>()V\<close> and the call with that signature written out succeeds, but with the signature
  left empty the method is not found.
\<close>

theorem CallStatic_empty_signature_not_derived:
  "getJNISignature (cpp_of_ret R_void) (map type_of []) = ''()V''
   \<and> map_option fst (CallStatic 1 R_void ''Foo'' ''start'' ''()V'' [] Foo_runtime)
       = Some (Inr V_void)
   \<and> map_option fst (CallStatic 1 R_void ''Foo'' ''start'' [] [] Foo_runtime)
       = Some (Inl (JNIException ''start''))"
  by (simp add: example_defs fake_defs lib_defs Let_def)

section \<open>Inbound conversion of the null handle\<close>




section \<open>Outbound and inbound conversion\<close>

lemma jint_of_size_small: "n < 2 ^ 31 \<Longrightarrow> jint_of_size n = int n"
  by (simp add: jint_of_size_def signed_of_nat signed_take_bit_int_eq_self)

lemma c_str_idem: "c_str (c_str s) = c_str s"
  by (simp add: c_str_def takeWhile_idem)

lemma mutf8_decode_bytes:
  "mutf8_decode bs = Some us \<Longrightarrow> \<forall>c\<in>set bs. (1::nat) \<le> of_char c"
proof (induction bs arbitrary: us rule: mutf8_decode.induct)
  case 1
  then show ?case by simp
next
  case (2 c cs)
  let ?a = "of_char c :: nat"
  consider (one) "1 \<le> ?a" "?a < 128"
    | (two) "192 \<le> ?a" "?a < 224"
    | (three) "224 \<le> ?a" "?a < 240"
    | (other) "\<not> (1 \<le> ?a \<and> ?a < 128)" "\<not> (192 \<le> ?a \<and> ?a < 224)" "\<not> (224 \<le> ?a \<and> ?a < 240)"
    by linarith
  then show ?case
  proof cases
    case one
    with "2.prems" obtain us' where d: "mutf8_decode cs = Some us'"
      by (auto simp: Let_def)
    have "\<forall>c\<in>set cs. (1::nat) \<le> of_char c" using one d by (intro "2.IH"(1)) simp_all
    with one show ?thesis by simp
  next
    case two
    with "2.prems" obtain c2 r where cs: "cs = c2 # r"
      by (cases cs) (simp_all add: Let_def)
    let ?b = "of_char c2 :: nat"
    let ?u = "(?a - 192) * 64 + (?b - 128)"
    have dec: "mutf8_decode (c # cs)
                 = (if 128 \<le> ?b \<and> ?b < 192 \<and> (?u = 0 \<or> 128 \<le> ?u)
                    then map_option (Cons ?u) (mutf8_decode r) else None)"
      using two cs by (simp add: Let_def)
    with "2.prems" have cond: "128 \<le> ?b \<and> ?b < 192 \<and> (?u = 0 \<or> 128 \<le> ?u)"
      by (simp split: if_splits)
    have "map_option (Cons ?u) (mutf8_decode r) = Some us"
      using cond "2.prems" unfolding dec by (simp only: if_True simp_thms)
    then obtain us' where d: "mutf8_decode r = Some us'"
      unfolding map_option_eq_Some by blast
    have "\<forall>c\<in>set r. (1::nat) \<le> of_char c"
      using two cs cond d
      by (intro "2.IH"(2) [of ?a c2 r ?b ?u]) (simp_all only: simp_thms, linarith+)
    moreover have "1 \<le> ?a" "1 \<le> ?b" using two cond by linarith+
    ultimately show ?thesis using cs by simp
  next
    case three
    with "2.prems" obtain c2 c3 r where cs: "cs = c2 # c3 # r"
      by (cases cs; cases "tl cs") (simp_all add: Let_def)
    let ?b = "of_char c2 :: nat"
    let ?d = "of_char c3 :: nat"
    let ?u = "(?a - 224) * 4096 + (?b - 128) * 64 + (?d - 128)"
    have dec: "mutf8_decode (c # cs)
                 = (if 128 \<le> ?b \<and> ?b < 192 \<and> 128 \<le> ?d \<and> ?d < 192 \<and> 2048 \<le> ?u
                          \<and> \<not> (55296 \<le> ?u \<and> ?u < 57344)
                    then map_option (Cons ?u) (mutf8_decode r) else None)"
      using three cs by (simp add: Let_def)
    with "2.prems" have cond: "128 \<le> ?b \<and> ?b < 192 \<and> 128 \<le> ?d \<and> ?d < 192 \<and> 2048 \<le> ?u
                          \<and> \<not> (55296 \<le> ?u \<and> ?u < 57344)"
      by (simp split: if_splits)
    have "map_option (Cons ?u) (mutf8_decode r) = Some us"
      using cond "2.prems" unfolding dec by (simp only: if_True simp_thms)
    then obtain us' where d: "mutf8_decode r = Some us'"
      unfolding map_option_eq_Some by blast
    have "\<forall>c\<in>set r. (1::nat) \<le> of_char c"
      using three cs cond d
      by (intro "2.IH"(3) [of ?a c2 "c3 # r" c3 r ?b ?d ?u]) (simp_all only: simp_thms, linarith+)
    moreover have "1 \<le> ?a" "1 \<le> ?b" "1 \<le> ?d" using three cond by linarith+
    ultimately show ?thesis using cs by simp
  next
    case other
    then have "(1 \<le> ?a \<and> ?a < 128) = False" "(192 \<le> ?a \<and> ?a < 224) = False"
      "(224 \<le> ?a \<and> ?a < 240) = False"
      by simp_all
    then have "mutf8_decode (c # cs) = None"
      by (simp only: mutf8_decode.simps Let_def if_False)
    with "2.prems" show ?thesis by simp
  qed
qed

lemma bmp_mutf8_no_NUL: "bmp_mutf8 s \<Longrightarrow> NUL \<notin> set s"
proof
  assume "bmp_mutf8 s" and "NUL \<in> set s"
  then obtain us where "mutf8_decode s = Some us" by (auto simp: bmp_mutf8_def)
  from mutf8_decode_bytes [OF this] \<open>NUL \<in> set s\<close> have "(1::nat) \<le> of_char NUL" by blast
  then show False by (simp add: NUL_def)
qed

lemma bmp_mutf8_c_str: "bmp_mutf8 s \<Longrightarrow> c_str s = s"
  by (simp add: bmp_mutf8_no_NUL c_str_no_NUL)

lemma bmp_mutf8_string: "bmp_mutf8 s \<Longrightarrow> string_of_utf w (c_str s) = s"
  by (simp add: bmp_mutf8_c_str string_of_utf_bmp)

text \<open>Every string of bytes \<open>01..7F\<close> is such an encoding.\<close>

lemma ascii_bmp_mutf8:
  "\<forall>c\<in>set s. (1::nat) \<le> of_char c \<and> (of_char c :: nat) < 128 \<Longrightarrow> bmp_mutf8 s"
  by (induction s) (auto simp: bmp_mutf8_def Let_def)

text \<open>
  Examples: \<open>C3 A9\<close> (U+00E9), \<open>E2 82 AC\<close> (U+20AC) and \<open>C0 80\<close> (U+0000) are such encodings;
  a byte \<open>FF\<close>, the standard UTF-8 \<open>F0 9F 98 80\<close> of U+1F600, the surrogate \<open>ED A0 BD\<close>,
  the two-byte form \<open>C1 81\<close> of U+0041 and a lead byte without its continuation are not.
\<close>

lemma bmp_mutf8_examples:
  "mutf8_decode [CHR 0xC3, CHR 0xA9] = Some [233]"
  "mutf8_decode [CHR 0xE2, CHR 0x82, CHR 0xAC] = Some [8364]"
  "mutf8_decode [CHR 0xC0, CHR 0x80] = Some [0]" "\<not> bmp_mutf8 [CHR 0xFF]"
  "\<not> bmp_mutf8 [CHR 0xF0, CHR 0x9F, CHR 0x98, CHR 0x80]"
  "\<not> bmp_mutf8 [CHR 0xED, CHR 0xA0, CHR 0xBD]" "\<not> bmp_mutf8 [CHR 0xC1, CHR 0x81]"
  "\<not> bmp_mutf8 [CHR 0xC3]"
  by (simp_all add: bmp_mutf8_def)

lemma toJString_toString:
  assumes "pending w = None" and "bmp_mutf8 (c_str s)"
  shows "toString n (snd (toJString w s)) (fst (toJString w s))
           = Some (Inr (c_str s), snd (toJString w s))"
  using assms
  by (simp add: toJString_def NewStringUTF_def new_ref_def Let_def toString_no_pending
      GetStringUTFChars_def deref_def lookup_def string_of_utf_bmp c_str_idem)

lemma toJObjectArray_loop_array:
  assumes "lookup w joa = Some (k, JObjectArray (pre @ replicate (length rest) JNull))"
    and "i = length pre" and "joa \<le> next_ref w" and "\<forall>s\<in>set rest. bmp_mutf8 s"
  shows "lookup (toJObjectArray_loop w joa i rest) joa
           = Some (k, JObjectArray (pre @ map JString rest))
         \<and> pending (toJObjectArray_loop w joa i rest) = pending w
         \<and> next_ref w \<le> next_ref (toJObjectArray_loop w joa i rest)"
  using assms
proof (induction rest arbitrary: w i pre)
  case Nil
  then show ?case by simp
next
  case (Cons s rest)
  let ?w1 = "snd (toJString w s)"
  let ?jstr = "fst (toJString w s)"
  let ?w2 = "SetObjectArrayElement ?w1 joa (int i) ?jstr"
  have joa0: "joa \<noteq> 0" using Cons.prems(1) by (auto simp: lookup_def split: if_splits)
  have l1: "lookup ?w1 joa = Some (k, JObjectArray (pre @ replicate (length (s # rest)) JNull))"
    using Cons.prems joa0 by (simp add: toJString_def NewStringUTF_def new_ref_def Let_def lookup_def)
  have d: "deref ?w1 ?jstr = JString s"
    using Cons.prems(4)
    by (simp add: toJString_def NewStringUTF_def new_ref_def Let_def lookup_def deref_def
        bmp_mutf8_string)
  have l2: "lookup ?w2 joa = Some (k, JObjectArray ((pre @ [JString s]) @ replicate (length rest) JNull))"
    using l1 d Cons.prems(2) joa0
    by (simp add: SetObjectArrayElement_def lookup_def list_update_append)
  have p2: "pending ?w2 = pending w" "next_ref ?w2 = Suc (next_ref w)"
    using l1 Cons.prems(2)
    by (simp_all add: SetObjectArrayElement_def toJString_def NewStringUTF_def new_ref_def Let_def)
  have "toJObjectArray_loop w joa i (s # rest) = toJObjectArray_loop ?w2 joa (Suc i) rest"
    by (simp add: Let_def split_beta)
  moreover have "lookup (toJObjectArray_loop ?w2 joa (Suc i) rest) joa
           = Some (k, JObjectArray ((pre @ [JString s]) @ map JString rest))
         \<and> pending (toJObjectArray_loop ?w2 joa (Suc i) rest) = pending ?w2
         \<and> next_ref ?w2 \<le> next_ref (toJObjectArray_loop ?w2 joa (Suc i) rest)"
    using Cons.prems p2 by (intro Cons.IH [OF l2]) simp_all
  ultimately show ?case using p2 by simp
qed

lemma toJObjectArray_strings:
  assumes "pending w = None" and "length xs < 2 ^ 31" and "\<forall>s\<in>set xs. bmp_mutf8 s"
  shows "\<exists>k w1. toJObjectArray n w xs = Some (Inr (Suc (Suc (next_ref w))), w1)
           \<and> lookup w1 (Suc (Suc (next_ref w)))
               = Some (k, JObjectArray (map JString xs))
           \<and> pending w1 = None \<and> Suc (Suc (next_ref w)) \<le> next_ref w1"
proof -
  let ?cls = "Suc (next_ref w)"
  let ?joa = "Suc (Suc (next_ref w))"
  let ?w1 = "snd (new_ref Local (JClass ''java/lang/String'') w)"
  let ?w2 = "snd (new_ref Local (JObjectArray (replicate (length xs) JNull)) ?w1)"
  let ?w3 = "toJObjectArray_loop ?w2 ?joa 0 xs"
  let ?w4 = "DeleteLocalRef ?w3 ?cls"
  have a: "NewObjectArray ?w1 (int (length xs)) ?cls 0
             = new_ref Local (JObjectArray (replicate (length xs) JNull)) ?w1"
    by (simp add: NewObjectArray_def deref_def lookup_def)
  have l2: "lookup ?w2 ?joa = Some (Local, JObjectArray ([] @ replicate (length xs) JNull))"
    by simp
  have l3: "lookup ?w3 ?joa = Some (Local, JObjectArray ([] @ map JString xs))
         \<and> pending ?w3 = pending ?w2 \<and> next_ref ?w2 \<le> next_ref ?w3"
    by (rule toJObjectArray_loop_array [OF l2]) (simp_all add: assms(3))
  have l4: "lookup ?w4 ?joa = Some (Local, JObjectArray (map JString xs))"
    "pending ?w4 = None" "?joa \<le> next_ref ?w4"
    using l3 assms(1) by simp_all
  have "toJObjectArray n w xs = Some (Inr ?joa, ?w4)"
    using assms(2) l4(2)
    by (simp add: toJObjectArray_def a jint_of_size_small Let_def case_prod_beta jni_bind_def
        checkException_none)
  with l4 show ?thesis by blast
qed

lemma toVectorString_loop_strings:
  assumes "lookup w arr = Some (kk, JObjectArray (map JString ys))"
    and "pending w = None" and "arr \<le> next_ref w" and "i + k = length ys"
  shows "\<exists>w'. toVectorString_loop n w arr i k acc = Some (Inr (acc @ map c_str (drop i ys)), w')
           \<and> pending w' = None"
  using assms
proof (induction k arbitrary: w i acc)
  case 0
  then show ?case by simp
next
  case (Suc k)
  have arr0: "arr \<noteq> 0" using Suc.prems(1) by (auto simp: lookup_def split: if_splits)
  have i: "i < length ys" using Suc.prems(4) by simp
  let ?h = "Suc (next_ref w)"
  let ?w1 = "snd (new_ref Local (JString (ys ! i)) w)"
  have g: "GetObjectArrayElement w arr (int i) = (?h, ?w1)"
    using Suc.prems(1) i
    by (simp add: GetObjectArrayElement_def deref_def new_local_def new_ref_def Let_def)
  have t: "toString n ?w1 ?h = Some (Inr (c_str (ys ! i)), ?w1)"
    using Suc.prems(2)
    by (simp add: toString_no_pending new_ref_def Let_def GetStringUTFChars_def deref_def lookup_def)
  let ?w2 = "DeleteLocalRef ?w1 ?h"
  have l2: "lookup ?w2 arr = Some (kk, JObjectArray (map JString ys))"
    "pending ?w2 = None" "arr \<le> next_ref ?w2"
    using Suc.prems arr0 by (auto simp: DeleteLocalRef_def new_ref_def Let_def lookup_def)
  have "\<exists>w'. toVectorString_loop n ?w2 arr (Suc i) k (acc @ [c_str (ys ! i)])
            = Some (Inr ((acc @ [c_str (ys ! i)]) @ map c_str (drop (Suc i) ys)), w')
           \<and> pending w' = None"
    using Suc.prems(4) by (intro Suc.IH l2) simp
  moreover have "drop i ys = ys ! i # drop (Suc i) ys"
    using i by (simp add: Cons_nth_drop_Suc)
  ultimately show ?case
    by (simp add: g t jni_bind_def)
qed

lemma toVectorString_strings:
  assumes "lookup w arr = Some (kk, JObjectArray (map JString ys))"
    and "pending w = None" and "arr \<le> next_ref w"
  shows "\<exists>w'. toVectorString n w arr = Some (Inr (map c_str ys), w')"
proof -
  have arr0: "arr \<noteq> 0" using assms(1) by (auto simp: lookup_def split: if_splits)
  have len: "nat (GetArrayLength w arr) = length ys"
    using assms(1) by (simp add: GetArrayLength_def deref_def)
  obtain w' where "toVectorString_loop n w arr 0 (length ys) [] = Some (Inr ([] @ map c_str (drop 0 ys)), w')"
    and "pending w' = None"
    using toVectorString_loop_strings [OF assms, of 0 "length ys" n "[]"] by auto
  then show ?thesis
    using arr0 by (simp add: toVectorString_def len jni_bind_def checkException_none)
qed

lemma bytes_roundtrip:
  assumes "pending w = None" and "length bs < 2 ^ 31"
  shows "\<exists>h w1 w2. toJObjectArray_bytes n w bs = Some (Inr h, w1)
           \<and> toVectorByte n w1 h = Some (Inr bs, w2)"
  using assms
  by (simp add: toJObjectArray_bytes_def jint_of_size_small NewByteArray_def new_ref_def Let_def
      SetByteArrayRegion_def lookup_def jni_bind_def checkException_none toVectorByte_def
      GetArrayLength_def deref_def GetByteArrayRegion_def)

text \<open>
  C5, amended. With no exception pending, a string that is the modified UTF-8 encoding of
  characters of the Basic Multilingual Plane other than surrogates (it has no NUL byte, and
  every string of bytes \<open>01..7F\<close> is one), a sequence of fewer than \<open>2\<^sup>3\<^sup>1\<close> such strings
  and a sequence of fewer than \<open>2\<^sup>3\<^sup>1\<close> bytes each come back unchanged, and in order, from
  the outbound conversion followed by the inbound one; the empty string and the empty
  sequences are among them. A string whose bytes before its first NUL byte are such an
  encoding comes back as those bytes, cut at the NUL.
\<close>

theorem outbound_inbound_roundtrip:
  assumes "pending w = None"
  shows "(bmp_mutf8 s \<longrightarrow>
            toString n (snd (toJString w s)) (fst (toJString w s))
              = Some (Inr s, snd (toJString w s)))
       \<and> (bmp_mutf8 (c_str s) \<longrightarrow>
            toString n (snd (toJString w s)) (fst (toJString w s))
              = Some (Inr (c_str s), snd (toJString w s)))
       \<and> ((\<forall>x\<in>set xs. bmp_mutf8 x) \<and> length xs < 2 ^ 31 \<longrightarrow>
            (\<exists>h w1 w2. toJObjectArray n w xs = Some (Inr h, w1)
                \<and> toVectorString n w1 h = Some (Inr xs, w2)))
       \<and> (length bs < 2 ^ 31 \<longrightarrow>
            (\<exists>h w1 w2. toJObjectArray_bytes n w bs = Some (Inr h, w1)
                \<and> toVectorByte n w1 h = Some (Inr bs, w2)))
       \<and> (bmp_mutf8 s \<longrightarrow> NUL \<notin> set s)
       \<and> ((\<forall>c\<in>set s. (1::nat) \<le> of_char c \<and> (of_char c :: nat) < 128) \<longrightarrow> bmp_mutf8 s)"
proof (intro conjI impI)
  assume "bmp_mutf8 s"
  then show "NUL \<notin> set s" by (rule bmp_mutf8_no_NUL)
next
  assume "\<forall>c\<in>set s. (1::nat) \<le> of_char c \<and> (of_char c :: nat) < 128"
  then show "bmp_mutf8 s" by (rule ascii_bmp_mutf8)
next
  assume "bmp_mutf8 s"
  then show "toString n (snd (toJString w s)) (fst (toJString w s))
               = Some (Inr s, snd (toJString w s))"
    using toJString_toString [OF assms, of s n] by (simp add: bmp_mutf8_c_str)
next
  assume "bmp_mutf8 (c_str s)"
  with assms show "toString n (snd (toJString w s)) (fst (toJString w s))
               = Some (Inr (c_str s), snd (toJString w s))"
    by (rule toJString_toString)
next
  assume a: "(\<forall>x\<in>set xs. bmp_mutf8 x) \<and> length xs < 2 ^ 31"
  then obtain k w1 where o: "toJObjectArray n w xs = Some (Inr (Suc (Suc (next_ref w))), w1)"
    and l: "lookup w1 (Suc (Suc (next_ref w))) = Some (k, JObjectArray (map JString xs))"
    and p: "pending w1 = None" and b: "Suc (Suc (next_ref w)) \<le> next_ref w1"
    using toJObjectArray_strings [OF assms, of xs n] by auto
  obtain w2 where "toVectorString n w1 (Suc (Suc (next_ref w))) = Some (Inr (map c_str xs), w2)"
    using toVectorString_strings [OF l p b] by blast
  moreover have "map c_str xs = xs"
    using a by (simp add: bmp_mutf8_c_str map_idI)
  ultimately show "\<exists>h w1 w2. toJObjectArray n w xs = Some (Inr h, w1)
                     \<and> toVectorString n w1 h = Some (Inr xs, w2)"
    using o by auto
next
  assume "length bs < 2 ^ 31"
  then show "\<exists>h w1 w2. toJObjectArray_bytes n w bs = Some (Inr h, w1)
                \<and> toVectorByte n w1 h = Some (Inr bs, w2)"
    by (rule bytes_roundtrip [OF assms])
qed

theorem outbound_inbound_roundtrip_witness:
  "pending Foo_runtime = None \<and> bmp_mutf8 []
   \<and> toString 0 (snd (toJString Foo_runtime [])) (fst (toJString Foo_runtime []))
      = Some (Inr [], snd (toJString Foo_runtime []))
   \<and> bmp_mutf8 [CHR 0xC3, CHR 0xA9]
   \<and> toString 0 (snd (toJString Foo_runtime [CHR 0xC3, CHR 0xA9]))
        (fst (toJString Foo_runtime [CHR 0xC3, CHR 0xA9]))
      = Some (Inr [CHR 0xC3, CHR 0xA9], snd (toJString Foo_runtime [CHR 0xC3, CHR 0xA9]))
   \<and> bmp_mutf8 (c_str (''a'' @ [NUL] @ ''b''))
   \<and> toString 0 (snd (toJString Foo_runtime (''a'' @ [NUL] @ ''b'')))
        (fst (toJString Foo_runtime (''a'' @ [NUL] @ ''b'')))
      = Some (Inr ''a'', snd (toJString Foo_runtime (''a'' @ [NUL] @ ''b'')))
   \<and> bmp_mutf8 ''a'' \<and> bmp_mutf8 ''b''
   \<and> (\<exists>h w1 w2. toJObjectArray 0 Foo_runtime [''a'', ''b''] = Some (Inr h, w1)
         \<and> toVectorString 0 w1 h = Some (Inr [''a'', ''b''], w2))
   \<and> (\<exists>h w1 w2. toJObjectArray_bytes 0 Foo_runtime [] = Some (Inr h, w1)
         \<and> toVectorByte 0 w1 h = Some (Inr [], w2))"
  using outbound_inbound_roundtrip [of Foo_runtime "[]" 0 "[''a'', ''b'']" "[]"]
    outbound_inbound_roundtrip [of Foo_runtime "[CHR 0xC3, CHR 0xA9]" 0 "[]" "[]"]
    outbound_inbound_roundtrip [of Foo_runtime "''a'' @ [NUL] @ ''b''" 0 "[]" "[]"]
  by (simp add: Foo_runtime_def bmp_mutf8_def c_str_def NUL_def)

text \<open>
  C5, as the claim states it, fails: the outbound conversion hands the runtime the C string
  of the bytes, so a string with a NUL byte inside comes back cut at that byte.
\<close>

theorem string_with_NUL_roundtrip_counterexample:
  "map_option fst (toString 0 (snd (toJString Foo_runtime (''a'' @ [NUL] @ ''b'')))
                     (fst (toJString Foo_runtime (''a'' @ [NUL] @ ''b''))))
     = Some (Inr ''a'')
   \<and> ''a'' \<noteq> ''a'' @ [NUL] @ ''b''"
  by (simp add: example_defs fake_defs lib_defs Let_def)

section \<open>Accounting of the runtime operations\<close>

lemma kind_simps [simp]:
  "kind (snd (new_ref k v w)) h = (if h = Suc (next_ref w) then Some k else kind w h)"
  "kind (DeleteLocalRef w a) h
     = (if h = a \<and> a \<noteq> 0 \<and> kind w a = Some Local then None else kind w h)"
  by (auto simp: kind_def new_ref_def DeleteLocalRef_def lookup_def Let_def
      split: option.splits ref_kind.splits)

lemma quiet_refl [simp]: "quiet w w"
  by (simp add: quiet_def)

lemma quiet_trans: "quiet a b \<Longrightarrow> quiet b c \<Longrightarrow> quiet a c"
  by (simp add: quiet_def)

lemma quiet_invoke [simp]: "quiet w (snd (invoke w recv mid args))"
proof (cases mid)
  case HashMap_put
  show ?thesis
  proof (cases "hashmap_at (lookup w recv)")
    case None
    with HashMap_put show ?thesis by (simp add: invoke_def)
  next
    case (Some km)
    then have "\<exists>v. lookup w recv = Some (fst km, v)"
      by (cases "lookup w recv" rule: hashmap_at.cases) auto
    with HashMap_put Some show ?thesis
      by (cases km; cases "put_args (map (arg_value w) args)")
         (auto simp: invoke_def quiet_def kind_def lookup_def split: if_splits)
  qed
qed (auto simp: quiet_def invoke_def kind_def lookup_def split: option.splits outcome.splits)

lemma quiet_find_member [simp]: "quiet w (snd (find_member w cls name sig st))"
  by (cases "deref w cls"; cases "lookup_method w (case deref w cls of JClass c \<Rightarrow> c | _ \<Rightarrow> []) name sig st")
     (simp_all add: quiet_def find_member_def raise_def kind_def lookup_def)

lemma quiet_SetObjectArrayElement [simp]: "quiet w (SetObjectArrayElement w arr i h)"
proof (cases "lookup w arr")
  case None
  then show ?thesis by (simp add: SetObjectArrayElement_def)
next
  case (Some p)
  then show ?thesis
    by (cases p; cases "snd p")
       (auto simp: SetObjectArrayElement_def quiet_def raise_def kind_def lookup_def
          split: if_splits)
qed

lemma quiet_SetByteArrayRegion [simp]: "quiet w (SetByteArrayRegion w arr start len buf)"
proof (cases "lookup w arr")
  case None
  then show ?thesis by (simp add: SetByteArrayRegion_def)
next
  case (Some p)
  then show ?thesis
    by (cases p; cases "snd p")
       (auto simp: SetByteArrayRegion_def quiet_def raise_def kind_def lookup_def
          split: if_splits)
qed

lemma quiet_GetByteArrayRegion [simp]: "quiet w (snd (GetByteArrayRegion w arr start len buf))"
  by (cases "deref w arr")
     (simp_all add: GetByteArrayRegion_def quiet_def raise_def kind_def lookup_def)

lemma quiet_GetFloatArrayRegion [simp]: "quiet w (snd (GetFloatArrayRegion w arr start len fbuf))"
  by (cases "deref w arr")
     (simp_all add: GetFloatArrayRegion_def quiet_def raise_def kind_def lookup_def)

lemma quiet_ops [simp]:
  "quiet w (raise msg w)"
  "quiet w (ExceptionClear w)"
  "quiet w (ExceptionDescribe w)"
  "quiet w (LOGE line w)"
  "quiet w (snd (GetMethodID w cls name sig))"
  "quiet w (snd (GetStaticMethodID w cls name sig))"
  "quiet w (CallVoidMethod w recv mid args)"
  "quiet w (CallStaticVoidMethod w recv mid args)"
  "quiet w (snd (CallPrimitiveMethod w recv mid args))"
  "quiet w (snd (CallStaticPrimitiveMethod w recv mid args))"
  "quiet w (snd (throw msg w :: 'a result \<times> runtime))"
  by (simp_all add: GetMethodID_def GetStaticMethodID_def CallVoidMethod_def
      CallStaticVoidMethod_def CallPrimitiveMethod_def CallStaticPrimitiveMethod_def)
     (simp_all add: quiet_def raise_def ExceptionClear_def ExceptionDescribe_def LOGE_def
        throw_def kind_def lookup_def)

lemma alloc_new_ref [simp]: "alloc w (new_ref Local v w)"
  by (simp add: alloc_def)

lemma alloc_null [simp]: "quiet w w' \<Longrightarrow> alloc w (0, w')"
  by (simp add: alloc_def)

lemma alloc_new_local [simp]: "alloc w (new_local v w)"
  by (simp add: new_local_def)

lemma alloc_after_quiet: "quiet w w1 \<Longrightarrow> alloc w1 p \<Longrightarrow> alloc w p"
  by (auto simp: alloc_def quiet_def)

lemma alloc_NewStringUTF [simp]: "alloc w (NewStringUTF w bytes)" "alloc w (toJString w s)"
  by (simp_all add: NewStringUTF_def toJString_def)

lemma alloc_FindClass [simp]: "alloc w (FindClass w name)"
  by (simp add: FindClass_def)

lemma alloc_GetObjectClass [simp]: "alloc w (GetObjectClass w obj)"
  by (simp add: GetObjectClass_def)

lemma alloc_ExceptionOccurred [simp]: "alloc w (ExceptionOccurred w)"
  by (cases "pending w") (simp_all add: ExceptionOccurred_def)

lemma alloc_NewObjectArray [simp]: "alloc w (NewObjectArray w len cls init)"
  by (simp add: NewObjectArray_def)

lemma alloc_NewByteArray [simp]: "alloc w (NewByteArray w len)"
  by (simp add: NewByteArray_def)

lemma alloc_GetObjectArrayElement [simp]: "alloc w (GetObjectArrayElement w arr i)"
  by (cases "deref w arr") (simp_all add: GetObjectArrayElement_def)

lemma alloc_calls [simp]:
  "alloc w (CallObjectMethod w recv mid args)"
  "alloc w (CallStaticObjectMethod w cls mid args)"
  "alloc w (NewObject w cls mid args)"
  unfolding CallObjectMethod_def CallStaticObjectMethod_def NewObject_def case_prod_beta Let_def
  by (rule alloc_after_quiet [OF quiet_invoke alloc_new_local])+

lemma released_simps [simp]:
  "released (snd (new_ref k v w)) h = released w h"
  "released (DeleteLocalRef w a) h = (if a \<noteq> 0 \<and> a = h then Suc (released w h) else released w h)"
  by (auto simp: released_def)

lemma frame_refl [simp]: "frame w w"
  by (simp add: frame_def)

lemma frame_trans: "frame a b \<Longrightarrow> frame b c \<Longrightarrow> frame a c"
  by (auto simp: frame_def)

lemma frame_quiet: "frame w0 w \<Longrightarrow> quiet w w' \<Longrightarrow> frame w0 w'"
  by (auto simp: frame_def quiet_def released_def)

lemma frame_alloc: "frame w0 w \<Longrightarrow> alloc w p \<Longrightarrow> frame w0 (snd p)"
  by (auto simp: frame_def quiet_def alloc_def released_def)

lemma frame_DeleteLocalRef:
  "frame w0 w \<Longrightarrow> a = 0 \<or> (next_ref w0 < a \<and> a \<le> next_ref w) \<Longrightarrow> frame w0 (DeleteLocalRef w a)"
  by (auto simp: frame_def)

lemma frame_next_ref: "frame w w' \<Longrightarrow> next_ref w \<le> next_ref w'"
  by (simp add: frame_def)

lemma frame_released: "frame w w' \<Longrightarrow> h \<le> next_ref w \<or> next_ref w' < h \<Longrightarrow> released w' h = released w h"
  unfolding frame_def by blast

lemma frame_kind: "frame w w' \<Longrightarrow> h \<le> next_ref w \<Longrightarrow> kind w' h = kind w h"
  unfolding frame_def by blast

lemma frame_attachable: "frame w w' \<Longrightarrow> attachable w \<Longrightarrow> attachable w'"
  by (simp add: frame_def attachable_def)

lemma alloc_handle: "alloc w p \<Longrightarrow> fst p = 0 \<or> (next_ref w < fst p \<and> fst p \<le> next_ref (snd p))"
  by (auto simp: alloc_def)

lemma alloc_released: "alloc w p \<Longrightarrow> released (snd p) h = released w h"
  by (auto simp: alloc_def quiet_def released_def)

lemma alloc_kind: "alloc w p \<Longrightarrow> fst p \<noteq> 0 \<Longrightarrow> kind (snd p) (fst p) = Some Local"
  by (auto simp: alloc_def)

lemma quiet_released: "quiet w w' \<Longrightarrow> released w' h = released w h"
  by (auto simp: quiet_def released_def)

section \<open>Frames of the library functions\<close>

lemma framed_Some: "frame w w' \<Longrightarrow> framed w (Some (r, w'))"
  by (simp add: framed_def)

lemma framed_weaken: "frame w0 w \<Longrightarrow> framed w m \<Longrightarrow> framed w0 m"
  by (auto simp: framed_def intro: frame_trans)

lemma framed_bind:
  assumes "framed w m" and "\<And>x w1. m = Some (Inr x, w1) \<Longrightarrow> frame w w1 \<Longrightarrow> framed w (k x w1)"
  shows "framed w (jni_bind m k)"
proof -
  from assms(1) obtain r w1 where m: "m = Some (r, w1)" and f: "frame w w1"
    by (auto simp: framed_def)
  show ?thesis
  proof (cases r)
    case (Inl e)
    with m f show ?thesis by (simp add: jni_bind_def framed_def)
  next
    case (Inr x)
    with m f assms(2) [of x w1] show ?thesis by (simp add: jni_bind_def)
  qed
qed

lemma framed_scope_exit:
  assumes "framed w m"
    and "\<And>r w1. m = Some (r, w1) \<Longrightarrow> frame w w1 \<Longrightarrow> \<exists>w2. d w1 = Some w2 \<and> frame w w2"
  shows "framed w (scope_exit m d)"
proof -
  from assms(1) obtain r w1 where m: "m = Some (r, w1)" and f: "frame w w1"
    by (auto simp: framed_def)
  from assms(2) [OF m f] obtain w2 where "d w1 = Some w2" and "frame w w2" by blast
  with m show ?thesis by (simp add: scope_exit_def framed_def)
qed

lemma attachable_javaVM: "attachable w \<Longrightarrow> \<exists>status. javaVM w = Some status \<and> 0 \<le> status"
  by (cases "javaVM w") (simp_all add: attachable_def)

lemma checkException_cases:
  assumes "attachable w"
  shows "(pending w = None \<and> checkException (Suc n) w = Some (Inr (), w))
       \<or> (\<exists>e w'. checkException (Suc n) w = Some (Inl e, w') \<and> pending w' = None \<and> frame w w')"
proof (cases "pending w")
  case None
  then show ?thesis by (simp add: checkException_none)
next
  case (Some t)
  from attachable_javaVM [OF assms] obtain status where "javaVM w = Some status" "0 \<le> status"
    by blast
  from checkException_pending [OF Some this, of n] show ?thesis by blast
qed

lemma framed_checkException: "attachable w \<Longrightarrow> framed w (checkException (Suc n) w)"
  using checkException_cases [of w n] by (auto simp: framed_def)

lemma checkException_Inr:
  "attachable w \<Longrightarrow> checkException (Suc n) w = Some (Inr u, w') \<Longrightarrow> w' = w"
  using checkException_cases [of w n] by auto

lemma framed_toString: "attachable w \<Longrightarrow> framed w (toString (Suc n) w h)"
  by (auto simp: toString.simps Let_def intro!: framed_Some framed_bind framed_checkException)

lemma framed_D: "framed w m \<Longrightarrow> m = Some (r, w') \<Longrightarrow> frame w w'"
  by (auto simp: framed_def)

lemma frame_delete_allocated:
  assumes "alloc w p" and "frame (snd p) w2"
  shows "frame w (DeleteLocalRef w2 (fst p))"
proof -
  have "frame w w2"
    using frame_alloc [OF frame_refl assms(1)] assms(2) by (rule frame_trans)
  moreover have "fst p = 0 \<or> (next_ref w < fst p \<and> fst p \<le> next_ref w2)"
    using alloc_handle [OF assms(1)] frame_next_ref [OF assms(2)] by auto
  ultimately show ?thesis by (rule frame_DeleteLocalRef)
qed

lemma framed_toVectorString_loop:
  "attachable w \<Longrightarrow> framed w (toVectorString_loop (Suc n) w arr i k acc)"
proof (induction k arbitrary: w i acc)
  case 0
  then show ?case by (simp add: framed_Some)
next
  case (Suc k)
  let ?p = "GetObjectArrayElement w arr (int i)"
  let ?m = "toString (Suc n) (snd ?p) (fst ?p)"
  have a: "alloc w ?p" by simp
  have f1: "frame w (snd ?p)" using frame_alloc [OF frame_refl a] .
  have m1: "framed (snd ?p) ?m"
    using frame_attachable [OF f1 Suc.prems] by (rule framed_toString)
  have "framed w (jni_bind ?m
           (\<lambda>s w2. toVectorString_loop (Suc n) (DeleteLocalRef w2 (fst ?p)) arr (Suc i) k (acc @ [s])))"
  proof (rule framed_bind [OF framed_weaken [OF f1 m1]])
    fix x w2 assume "?m = Some (Inr x, w2)"
    then have "frame (snd ?p) w2" using m1 by (rule framed_D [rotated])
    then have f3: "frame w (DeleteLocalRef w2 (fst ?p))"
      by (rule frame_delete_allocated [OF a])
    show "framed w (toVectorString_loop (Suc n) (DeleteLocalRef w2 (fst ?p)) arr (Suc i) k (acc @ [x]))"
      using f3 frame_attachable [OF f3 Suc.prems] by (auto intro: framed_weaken Suc.IH)
  qed
  then show ?case
    by (simp add: case_prod_beta)
qed

lemma framed_toVectorString: "attachable w \<Longrightarrow> framed w (toVectorString (Suc n) w arr)"
  unfolding toVectorString_def
  by (intro framed_bind)
     (auto intro!: framed_toVectorString_loop framed_Some framed_bind
           intro: framed_weaken framed_checkException frame_attachable)

lemma framed_toVectorByte: "attachable w \<Longrightarrow> framed w (toVectorByte (Suc n) w arr)"
proof -
  assume at: "attachable w"
  let ?q = "GetByteArrayRegion w arr 0 (GetArrayLength w arr) (replicate (nat (GetArrayLength w arr)) 0)"
  have q: "frame w (snd ?q)" by (rule frame_quiet [OF frame_refl]) simp
  have "framed w (jni_bind (checkException (Suc n) (snd ?q)) (\<lambda>_ w2. Some (Inr (fst ?q), w2)))"
    using q frame_attachable [OF q at]
    by (intro framed_bind framed_Some) (auto intro: framed_weaken framed_checkException)
  then show ?thesis
    by (simp add: toVectorByte_def Let_def case_prod_beta framed_Some)
qed

lemma frame_toVectorJObject_loop: "frame w (snd (toVectorJObject_loop w arr i k acc))"
proof (induction k arbitrary: w i acc)
  case 0
  then show ?case by simp
next
  case (Suc k)
  let ?p = "GetObjectArrayElement w arr (int i)"
  have "frame w (snd ?p)" by (rule frame_alloc [OF frame_refl]) simp
  then show ?case
    using Suc.IH [of "snd ?p" "Suc i" "acc @ [fst ?p]"]
    by (simp add: case_prod_beta frame_trans)
qed

lemma frame_toVectorJObject: "frame w (snd (toVectorJObject w arr))"
  by (simp add: toVectorJObject_def frame_toVectorJObject_loop)

lemma framed_JNIToCPPConversor_convert:
  assumes "attachable w" and "T \<in> {R_string, R_vec_string, R_vec_uint8, R_vec_jobject}"
  shows "framed w (JNIToCPPConversor_convert (Suc n) T w obj)"
  using assms
  by (auto simp: case_prod_beta frame_toVectorJObject
      intro!: framed_bind framed_Some framed_toString framed_toVectorString framed_toVectorByte)

lemma framed_object_call:
  assumes "attachable w" and "alloc w p"
    and "T \<in> {R_string, R_vec_string, R_vec_uint8, R_vec_jobject}"
  shows "framed w (jni_bind (JNIToCPPConversor_convert (Suc n) T (snd p) (fst p))
           (\<lambda>result w2. Some (Inr result, if fst p \<noteq> 0 then DeleteLocalRef w2 (fst p) else w2)))"
proof -
  let ?m = "JNIToCPPConversor_convert (Suc n) T (snd p) (fst p)"
  have f1: "frame w (snd p)" using frame_alloc [OF frame_refl assms(2)] .
  have m1: "framed (snd p) ?m"
    using frame_attachable [OF f1 assms(1)] assms(3) by (rule framed_JNIToCPPConversor_convert)
  show ?thesis
  proof (rule framed_bind [OF framed_weaken [OF f1 m1]])
    fix x w2 assume "?m = Some (Inr x, w2)"
    then have f2: "frame (snd p) w2" using m1 by (rule framed_D [rotated])
    have "frame w (DeleteLocalRef w2 (fst p))" using frame_delete_allocated [OF assms(2) f2] .
    moreover have "frame w w2" using f1 f2 by (rule frame_trans)
    ultimately show "framed w (Some (Inr x, if fst p \<noteq> 0 then DeleteLocalRef w2 (fst p) else w2))"
      by (simp add: framed_Some)
  qed
qed

lemma framed_callInstance:
  assumes "attachable w"
  shows "framed w (JNICaller_callInstance (Suc n) T w inst mid args)"
proof -
  have q: "\<And>x. framed w (Some (x, CallVoidMethod w inst mid args))"
    by (rule framed_Some, rule frame_quiet [OF frame_refl]) simp
  have pr: "\<And>x. framed w (Some (x, snd (CallPrimitiveMethod w inst mid args)))"
    by (rule framed_Some, rule frame_quiet [OF frame_refl]) simp
  have ob: "\<And>x. framed w (Some (x, snd (CallObjectMethod w inst mid args)))"
    by (rule framed_Some, rule frame_alloc [OF frame_refl]) simp
  have oc: "\<And>T. T \<in> {R_string, R_vec_string, R_vec_uint8, R_vec_jobject} \<Longrightarrow>
     framed w (jni_bind (JNIToCPPConversor_convert (Suc n) T (snd (CallObjectMethod w inst mid args))
                 (fst (CallObjectMethod w inst mid args)))
           (\<lambda>result w2. Some (Inr result, if fst (CallObjectMethod w inst mid args) \<noteq> 0
                                then DeleteLocalRef w2 (fst (CallObjectMethod w inst mid args)) else w2)))"
    by (rule framed_object_call [OF assms]) simp_all
  show ?thesis
    by (cases T) (simp_all only: JNICaller_callInstance.simps case_prod_beta Let_def q pr ob oc insert_iff simp_thms)
qed

lemma clearException_spec:
  assumes "attachable w"
  shows "\<exists>w'. clearException (Suc n) w = Some (Inr (), w') \<and> frame w w'"
proof (cases "pending w")
  case None
  then show ?thesis by (simp add: clearException_def ExceptionCheck_def)
next
  case (Some t)
  from attachable_javaVM [OF assms] obtain status where j: "javaVM w = Some status" "0 \<le> status"
    by blast
  show ?thesis
  proof (cases t)
    case None
    with Some j show ?thesis
      by (simp add: clearException_def ExceptionCheck_def ExceptionOccurred_def
        ExceptionDescribe_def ExceptionClear_def getMethodInfo_getMessage toString_no_pending
        CallObjectMethod_def invoke_def new_local_def new_ref_def deref_def lookup_def
        jni_bind_def scope_exit_def Let_def throw_def LOGE_def JNIMethodInfo_dtor_def
        attachJniEnv_def DeleteLocalRef_def frame_def released_def kind_def)
  next
    case (Some m)
    with \<open>pending w = Some t\<close> j show ?thesis
      by (simp add: clearException_def ExceptionCheck_def ExceptionOccurred_def
        ExceptionDescribe_def ExceptionClear_def getMethodInfo_getMessage toString_no_pending
        CallObjectMethod_def invoke_def new_local_def new_ref_def deref_def lookup_def
        jni_bind_def scope_exit_def Let_def throw_def GetStringUTFChars_def LOGE_def
        JNIMethodInfo_dtor_def attachJniEnv_def DeleteLocalRef_def frame_def released_def kind_def)
  qed
qed

section \<open>Outbound conversions return fresh handles\<close>

lemma grows_refl [simp]: "grows w w"
  by (simp add: grows_def)

lemma grows_trans: "grows a b \<Longrightarrow> grows b c \<Longrightarrow> grows a c"
  by (simp add: grows_def)

lemma grows_quiet: "quiet w w' \<Longrightarrow> grows w w'"
  by (simp add: grows_def quiet_def released_def)

lemma grows_alloc: "alloc w p \<Longrightarrow> grows w (snd p)"
  by (auto simp: grows_def alloc_def quiet_def released_def)

lemma grows_frame: "grows w w' \<Longrightarrow> frame w w'"
  by (simp add: grows_def frame_def)

lemma grows_next_ref: "grows w w' \<Longrightarrow> next_ref w \<le> next_ref w'"
  by (simp add: grows_def)

lemma grows_released: "grows w w' \<Longrightarrow> released w' h = released w h"
  by (simp add: grows_def)

lemma grows_kind: "grows w w' \<Longrightarrow> h \<le> next_ref w \<Longrightarrow> kind w' h = kind w h"
  by (simp add: grows_def)

lemma grows_toJObjectArray_loop: "grows w (toJObjectArray_loop w joa i xs)"
proof (induction xs arbitrary: w i)
  case Nil
  then show ?case by simp
next
  case (Cons s xs)
  let ?p = "toJString w s"
  let ?w2 = "SetObjectArrayElement (snd ?p) joa (int i) (fst ?p)"
  have "grows w (snd ?p)" by (rule grows_alloc) simp
  moreover have "grows (snd ?p) ?w2" by (rule grows_quiet) simp
  ultimately have "grows w ?w2" by (rule grows_trans)
  then show ?case
    using Cons.IH [of ?w2 "Suc i"] by (simp add: case_prod_beta Let_def grows_trans)
qed

lemma yields_fresh_checked:
  assumes "attachable w" and "frame w w4" and "fresh w h w4"
  shows "yields_fresh w (jni_bind (checkException (Suc n) w4) (\<lambda>_ w5. Some (Inr h, w5)))"
proof -
  have at: "attachable w4" using frame_attachable [OF assms(2,1)] .
  from checkException_cases [OF at, of n] show ?thesis
  proof
    assume "pending w4 = None \<and> checkException (Suc n) w4 = Some (Inr (), w4)"
    then show ?thesis using assms by (simp add: yields_fresh_def jni_bind_def)
  next
    assume "\<exists>e w'. checkException (Suc n) w4 = Some (Inl e, w') \<and> pending w' = None \<and> frame w4 w'"
    then obtain e w' where "checkException (Suc n) w4 = Some (Inl e, w')" "frame w4 w'" by blast
    then show ?thesis
      using frame_trans [OF assms(2)] by (simp add: yields_fresh_def jni_bind_def)
  qed
qed

lemma toJObjectArray_spec:
  assumes "attachable w"
  shows "yields_fresh w (toJObjectArray (Suc n) w xs)"
proof -
  let ?p1 = "new_ref Local (JClass ''java/lang/String'') w"
  let ?sz = "jint_of_size (length xs)"
  let ?p2 = "NewObjectArray (snd ?p1) ?sz (fst ?p1) 0"
  let ?w3 = "toJObjectArray_loop (snd ?p2) (fst ?p2) 0 (take (nat ?sz) xs)"
  let ?w4 = "DeleteLocalRef ?w3 (fst ?p1)"
  have a2: "alloc (snd ?p1) ?p2" by simp
  have g1: "grows w (snd ?p1)" by (rule grows_alloc) simp
  have g2: "grows (snd ?p1) (snd ?p2)" using a2 by (rule grows_alloc)
  have g3: "grows (snd ?p2) ?w3" by (rule grows_toJObjectArray_loop)
  have g: "grows w ?w3" using g1 g2 g3 by (blast intro: grows_trans)
  have n3: "Suc (next_ref w) \<le> next_ref ?w3"
    using grows_next_ref [OF g2] grows_next_ref [OF g3] by simp
  have f4: "frame w ?w4"
    using n3 by (intro frame_DeleteLocalRef grows_frame [OF g]) simp
  have "fresh w (fst ?p2) ?w4"
  proof (cases "fst ?p2 = 0")
    case True
    then show ?thesis by (simp add: fresh_def)
  next
    case False
    with alloc_handle [OF a2] have b: "Suc (next_ref w) < fst ?p2" "fst ?p2 \<le> next_ref (snd ?p2)"
      by simp_all
    have "released ?w4 (fst ?p2) = released ?w3 (fst ?p2)" using b by simp
    also have "\<dots> = released w (fst ?p2)" using g by (rule grows_released)
    finally have r: "released ?w4 (fst ?p2) = released w (fst ?p2)" .
    have "kind ?w4 (fst ?p2) = kind ?w3 (fst ?p2)" using b by simp
    also have "\<dots> = kind (snd ?p2) (fst ?p2)" using g3 b(2) by (rule grows_kind)
    also have "\<dots> = Some Local" using a2 False by (rule alloc_kind)
    finally show ?thesis
      using r b grows_next_ref [OF g3] by (simp add: fresh_def)
  qed
  then have "yields_fresh w (jni_bind (checkException (Suc n) ?w4) (\<lambda>_ w5. Some (Inr (fst ?p2), w5)))"
    by (rule yields_fresh_checked [OF assms f4])
  then show ?thesis
    by (simp add: toJObjectArray_def Let_def case_prod_beta)
qed

lemma toJObjectArray_bytes_spec:
  assumes "attachable w"
  shows "yields_fresh w (toJObjectArray_bytes (Suc n) w bs)"
proof -
  let ?p1 = "NewByteArray w (jint_of_size (length bs))"
  let ?w2 = "SetByteArrayRegion (snd ?p1) (fst ?p1) 0 (jint_of_size (length bs)) bs"
  have a1: "alloc w ?p1" by simp
  have g: "grows w ?w2"
    by (rule grows_trans [OF grows_alloc [OF a1]], rule grows_quiet) simp
  have q: "next_ref ?w2 = next_ref (snd ?p1)"
    using quiet_SetByteArrayRegion [of "snd ?p1"] by (simp add: quiet_def)
  have "fst ?p1 \<noteq> 0 \<Longrightarrow> kind ?w2 (fst ?p1) = Some Local"
    using alloc_kind [OF a1] quiet_SetByteArrayRegion [of "snd ?p1"] by (simp add: quiet_def)
  then have "fresh w (fst ?p1) ?w2"
    using alloc_handle [OF a1] grows_released [OF g] q by (auto simp: fresh_def)
  then have "yields_fresh w (jni_bind (checkException (Suc n) ?w2) (\<lambda>_ w3. Some (Inr (fst ?p1), w3)))"
    by (rule yields_fresh_checked [OF assms grows_frame [OF g]])
  then show ?thesis
    by (simp add: toJObjectArray_bytes_def Let_def case_prod_beta)
qed

lemma frame_toHashMap_loop: "frame w (toHashMap_loop w hashmap mid data)"
proof (induction data arbitrary: w)
  case Nil
  then show ?case by simp
next
  case (Cons item rest)
  let ?p1 = "NewStringUTF w (c_str (fst item))"
  let ?p2 = "NewStringUTF (snd ?p1) (c_str (snd item))"
  let ?p3 = "CallObjectMethod (snd ?p2) hashmap mid [J_ref (fst ?p1), J_ref (fst ?p2)]"
  let ?w4 = "DeleteLocalRef (snd ?p3) (fst ?p1)"
  let ?w5 = "DeleteLocalRef ?w4 (fst ?p2)"
  have a1: "alloc w ?p1" and a2: "alloc (snd ?p1) ?p2" and a3: "alloc (snd ?p2) ?p3"
    by simp_all
  have f1: "frame w (snd ?p1)" using frame_alloc [OF frame_refl a1] .
  have f2: "frame (snd ?p1) (snd ?p2)" using frame_alloc [OF frame_refl a2] .
  have f3: "frame (snd ?p2) (snd ?p3)" using frame_alloc [OF frame_refl a3] .
  have f13: "frame (snd ?p1) (snd ?p3)" using f2 f3 by (rule frame_trans)
  have f4: "frame w ?w4" using frame_delete_allocated [OF a1 f13] .
  have "fst ?p2 = 0 \<or> (next_ref w < fst ?p2 \<and> fst ?p2 \<le> next_ref ?w4)"
    using alloc_handle [OF a2] frame_next_ref [OF f1] frame_next_ref [OF f3] by auto
  with f4 have "frame w ?w5" by (rule frame_DeleteLocalRef)
  then show ?case
    using Cons.IH [of ?w5] by (simp add: case_prod_beta Let_def frame_trans)
qed

lemma toHashMap_spec:
  assumes "attachable w"
  shows "yields_fresh w (toHashMap (Suc n) w data)"
proof -
  let ?p1 = "new_ref Local (JClass ''java/util/HashMap'') w"
  let ?q2 = "GetMethodID (snd ?p1) (fst ?p1) ''<init>'' ''()V''"
  let ?p3 = "NewObject (snd ?q2) (fst ?p1) (fst ?q2) []"
  let ?q4 = "GetMethodID (snd ?p3) (fst ?p1) ''put''
               ''(Ljava/lang/Object;Ljava/lang/Object;)Ljava/lang/Object;''"
  let ?w5 = "toHashMap_loop (snd ?q4) (fst ?p3) (fst ?q4) data"
  let ?w6 = "DeleteLocalRef ?w5 (fst ?p1)"
  have a3: "alloc (snd ?q2) ?p3" by simp
  have g1: "grows w (snd ?p1)" by (rule grows_alloc) simp
  have g2: "grows (snd ?p1) (snd ?q2)" by (rule grows_quiet) simp
  have g3: "grows (snd ?q2) (snd ?p3)" using a3 by (rule grows_alloc)
  have g4: "grows (snd ?p3) (snd ?q4)" by (rule grows_quiet) simp
  have g: "grows w (snd ?q4)" using g1 g2 g3 g4 by (blast intro: grows_trans)
  have f5: "frame (snd ?q4) ?w5" by (rule frame_toHashMap_loop)
  have f: "frame w ?w5" using grows_frame [OF g] f5 by (rule frame_trans)
  have n2: "next_ref (snd ?q2) = Suc (next_ref w)"
    using quiet_ops(5) [of "snd ?p1" "fst ?p1" "''<init>''" "''()V''"] by (simp add: quiet_def)
  have n4: "next_ref (snd ?q4) = next_ref (snd ?p3)"
    using quiet_ops(5) [of "snd ?p3" "fst ?p1" "''put''"] by (simp add: quiet_def)
  have g14: "grows (snd ?p1) (snd ?q4)" using g2 g3 g4 by (blast intro: grows_trans)
  have "next_ref (snd ?p1) \<le> next_ref ?w5"
    using grows_next_ref [OF g14] frame_next_ref [OF f5] by (rule order_trans)
  then have n5: "Suc (next_ref w) \<le> next_ref ?w5" by simp
  have f6: "frame w ?w6" using n5 by (intro frame_DeleteLocalRef f) simp
  have "fresh w (fst ?p3) ?w6"
  proof (cases "fst ?p3 = 0")
    case True
    then show ?thesis by (simp add: fresh_def)
  next
    case False
    with alloc_handle [OF a3] n2 have b: "Suc (next_ref w) < fst ?p3" "fst ?p3 \<le> next_ref (snd ?p3)"
      by simp_all
    have "released ?w6 (fst ?p3) = released ?w5 (fst ?p3)" using b by simp
    also have "\<dots> = released (snd ?q4) (fst ?p3)"
      using f5 b n4 by (intro frame_released) simp_all
    also have "\<dots> = released w (fst ?p3)" using g by (rule grows_released)
    finally have r: "released ?w6 (fst ?p3) = released w (fst ?p3)" .
    have "kind ?w6 (fst ?p3) = kind ?w5 (fst ?p3)" using b by simp
    also have "\<dots> = kind (snd ?q4) (fst ?p3)" using f5 b n4 by (intro frame_kind) simp_all
    also have "\<dots> = kind (snd ?p3) (fst ?p3)" using g4 b(2) by (rule grows_kind)
    also have "\<dots> = Some Local" using a3 False by (rule alloc_kind)
    finally show ?thesis
      using r b n4 frame_next_ref [OF f5] by (simp add: fresh_def)
  qed
  then have "yields_fresh w (jni_bind (checkException (Suc n) ?w6) (\<lambda>_ w7. Some (Inr (fst ?p3), w7)))"
    by (rule yields_fresh_checked [OF assms f6])
  then show ?thesis
    by (simp add: toHashMap_def Let_def case_prod_beta)
qed

section \<open>The conversion of the arguments\<close>

lemma alloc_fresh: "alloc w p \<Longrightarrow> fresh w (fst p) (snd p)"
  using alloc_handle [of w p] alloc_released [of w p] alloc_kind [of w p]
  by (auto simp: fresh_def)

lemma yields_fresh_convert:
  assumes "yields_fresh w m"
  shows "\<exists>r w1. jni_bind m (\<lambda>h w1. Some (Inr (J_ref h), w1)) = Some (r, w1) \<and> frame w w1
           \<and> (\<forall>h. r = Inr (J_ref h) \<longrightarrow> fresh w h w1)"
proof -
  from assms obtain r w' where m: "m = Some (r, w')" and f: "frame w w'"
    and c: "case r of Inl e \<Rightarrow> True | Inr h \<Rightarrow> fresh w h w'"
    by (auto simp: yields_fresh_def)
  show ?thesis
    using m f c by (cases r) (simp_all add: jni_bind_def)
qed

lemma convert_spec:
  assumes "attachable w"
  shows "\<exists>r w1. CPPToJNIConversor_convert (Suc n) w a = Some (r, w1) \<and> frame w w1
           \<and> (\<forall>h. r = Inr (J_ref h) \<longrightarrow> needDeleteLocal a \<longrightarrow> fresh w h w1)"
proof (cases a)
  case (A_string s)
  have "alloc w (toJString w s)" by simp
  from frame_alloc [OF frame_refl this] alloc_fresh [OF this] A_string show ?thesis
    by (simp add: case_prod_beta)
next
  case (A_cstr s)
  have "alloc w (toJString w s)" by simp
  from frame_alloc [OF frame_refl this] alloc_fresh [OF this] A_cstr show ?thesis
    by (simp add: case_prod_beta)
next
  case (A_vec_string xs)
  with yields_fresh_convert [OF toJObjectArray_spec [OF assms, of n xs]] show ?thesis by auto
next
  case (A_vec_uint8 bs)
  with yields_fresh_convert [OF toJObjectArray_bytes_spec [OF assms, of n bs]] show ?thesis by auto
next
  case (A_map m)
  with yields_fresh_convert [OF toHashMap_spec [OF assms, of n m]] show ?thesis by auto
qed simp_all

lemma tracked_ctor: "tracked w (JNIParamDestructor_ctor N) w"
  by (simp add: tracked_def JNIParamDestructor_ctor_def nonnull_def)

lemma tracked_frame:
  assumes "tracked wb d w" and "frame w w1"
  shows "tracked wb d w1"
proof -
  from assms(1) obtain regs where f: "frame wb w"
    and r: "jniParams d = regs @ replicate (length (jniParams d) - length regs) 0"
       "currentIndex d = length regs" "length regs \<le> length (jniParams d)"
       "distinct (nonnull regs)"
    and h: "\<forall>h\<in>set regs. h \<noteq> 0 \<longrightarrow>
                next_ref wb < h \<and> h \<le> next_ref w \<and> released w h = released wb h
                \<and> kind w h = Some Local"
    by (auto simp: tracked_def)
  have "\<forall>h\<in>set regs. h \<noteq> 0 \<longrightarrow>
           next_ref wb < h \<and> h \<le> next_ref w1 \<and> released w1 h = released wb h
           \<and> kind w1 h = Some Local"
    using h frame_next_ref [OF assms(2)] frame_released [OF assms(2)] frame_kind [OF assms(2)]
    by (metis order_trans)
  with r frame_trans [OF f assms(2)] show ?thesis
    unfolding tracked_def by blast
qed

lemma tracked_add:
  assumes "tracked wb d w" and "frame w w1" and "fresh w h w1"
    and "currentIndex d < length (jniParams d)"
  shows "\<exists>d1. add d h = Some d1 \<and> tracked wb d1 w1
           \<and> currentIndex d1 = Suc (currentIndex d)
           \<and> length (jniParams d1) = length (jniParams d)"
proof -
  from assms(1) obtain regs where f: "frame wb w"
    and r: "jniParams d = regs @ replicate (length (jniParams d) - length regs) 0"
    and ci: "currentIndex d = length regs"
    and di: "distinct (nonnull regs)"
    and old: "\<forall>x\<in>set regs. x \<noteq> 0 \<longrightarrow>
                next_ref wb < x \<and> x \<le> next_ref w \<and> released w x = released wb x
                \<and> kind w x = Some Local"
    by (auto simp: tracked_def)
  let ?L = "length (jniParams d)"
  let ?d1 = "d\<lparr>jniParams := (jniParams d)[currentIndex d := h],
               currentIndex := Suc (currentIndex d)\<rparr>"
  have lt: "length regs < ?L" using assms(4) ci by simp
  then have rep: "replicate (?L - length regs) (0::nat) = 0 # replicate (?L - Suc (length regs)) 0"
    by (cases "?L - length regs") simp_all
  have "(jniParams d)[length regs := h] = (regs @ replicate (?L - length regs) 0)[length regs := h]"
    using r by simp
  also have "\<dots> = regs @ h # replicate (?L - Suc (length regs)) 0"
    by (simp add: rep list_update_append)
  finally have upd: "(jniParams d)[length regs := h]
                       = (regs @ [h]) @ replicate (?L - length (regs @ [h])) 0"
    by simp
  have a: "add d h = Some ?d1" using assms(4) by (simp add: add_def)
  have fw: "frame wb w1" using f assms(2) by (rule frame_trans)
  have old1: "\<forall>x\<in>set regs. x \<noteq> 0 \<longrightarrow>
                next_ref wb < x \<and> x \<le> next_ref w1 \<and> released w1 x = released wb x
                \<and> kind w1 x = Some Local"
    using old frame_next_ref [OF assms(2)] frame_released [OF assms(2)] frame_kind [OF assms(2)]
    by (metis order_trans)
  have new: "h \<noteq> 0 \<longrightarrow> next_ref wb < h \<and> h \<le> next_ref w1 \<and> released w1 h = released wb h
               \<and> kind w1 h = Some Local \<and> h \<notin> set regs"
  proof
    assume "h \<noteq> 0"
    with assms(3) have b: "next_ref w < h" "h \<le> next_ref w1" "released w1 h = released w h"
      "kind w1 h = Some Local"
      by (simp_all add: fresh_def)
    have "released w h = released wb h" using b(1) by (intro frame_released [OF f]) simp
    moreover have "h \<notin> set regs" using old b(1) \<open>h \<noteq> 0\<close> by auto
    ultimately show "next_ref wb < h \<and> h \<le> next_ref w1 \<and> released w1 h = released wb h
               \<and> kind w1 h = Some Local \<and> h \<notin> set regs"
      using b frame_next_ref [OF f] by simp
  qed
  have di1: "distinct (nonnull (regs @ [h]))"
    using di new by (auto simp: nonnull_def)
  have all1: "\<forall>x\<in>set (regs @ [h]). x \<noteq> 0 \<longrightarrow>
                next_ref wb < x \<and> x \<le> next_ref w1 \<and> released w1 x = released wb x
                \<and> kind w1 x = Some Local"
    using old1 new by auto
  have "tracked wb ?d1 w1"
    unfolding tracked_def
    using fw upd ci lt di1 all1
    by (intro conjI exI [of _ "regs @ [h]"]) simp_all
  with a show ?thesis by simp
qed

lemma JNIParamConversor_spec:
  assumes "attachable w" and "tracked wb d w" and "currentIndex d < length (jniParams d)"
  shows "\<exists>r d1 w1. JNIParamConversor (Suc n) a w d = Some (r, d1, w1) \<and> tracked wb d1 w1
           \<and> length (jniParams d1) = length (jniParams d)
           \<and> currentIndex d1 \<le> Suc (currentIndex d)"
proof -
  from convert_spec [OF assms(1), of n a] obtain r w1
    where c: "CPPToJNIConversor_convert (Suc n) w a = Some (r, w1)" and f: "frame w w1"
      and fr: "\<forall>h. r = Inr (J_ref h) \<longrightarrow> needDeleteLocal a \<longrightarrow> fresh w h w1"
    by blast
  have t1: "tracked wb d w1" using assms(2) f by (rule tracked_frame)
  show ?thesis
  proof (cases r)
    case (Inl e)
    with c t1 show ?thesis by (simp add: JNIParamConversor_def)
  next
    case (Inr j)
    show ?thesis
    proof (cases "needDeleteLocal a")
      case False
      with c t1 Inr show ?thesis by (simp add: JNIParamConversor_def)
    next
      case True
      show ?thesis
      proof (cases j)
        case (J_val v)
        with c t1 Inr True show ?thesis
          by (simp add: JNIParamConversor_def JNIDestructorDecider_decide_def)
      next
        case (J_ref h)
        with fr Inr True have "fresh w h w1" by simp
        from tracked_add [OF assms(2) f this assms(3)] obtain d1
          where "add d h = Some d1" "tracked wb d1 w1" "currentIndex d1 = Suc (currentIndex d)"
            "length (jniParams d1) = length (jniParams d)"
          by blast
        with c Inr True J_ref show ?thesis
          by (simp add: JNIParamConversor_def JNIDestructorDecider_decide_def)
      qed
    qed
  qed
qed

lemma tracked_attachable: "tracked wb d w \<Longrightarrow> attachable wb \<Longrightarrow> attachable w"
  by (auto simp: tracked_def intro: frame_attachable)

lemma convert_args_spec:
  assumes "attachable wb" and "tracked wb d w"
    and "currentIndex d + length v \<le> length (jniParams d)"
  shows "\<exists>r d' w'. convert_args (Suc n) v w d = Some (r, d', w') \<and> tracked wb d' w'"
  using assms(2,3)
proof (induction v arbitrary: d w)
  case Nil
  then show ?case by simp
next
  case (Cons a rest)
  have at: "attachable w" using Cons.prems(1) assms(1) by (rule tracked_attachable)
  have "currentIndex d < length (jniParams d)" using Cons.prems(2) by simp
  from JNIParamConversor_spec [OF at Cons.prems(1) this, of n a] obtain r d1 w1
    where c: "JNIParamConversor (Suc n) a w d = Some (r, d1, w1)" and t1: "tracked wb d1 w1"
      and l1: "length (jniParams d1) = length (jniParams d)"
      and c1: "currentIndex d1 \<le> Suc (currentIndex d)"
    by blast
  show ?case
  proof (cases r)
    case (Inl e)
    with c t1 show ?thesis by simp
  next
    case (Inr j)
    have "currentIndex d1 + length rest \<le> length (jniParams d1)"
      using Cons.prems(2) l1 c1 by simp
    from Cons.IH [OF t1 this] obtain r2 d2 w2
      where "convert_args (Suc n) rest w1 d1 = Some (r2, d2, w2)" and "tracked wb d2 w2"
      by blast
    with c Inr show ?thesis by (cases r2) simp_all
  qed
qed

lemma DeleteLocalRefs_simps [simp]:
  "javaVM (DeleteLocalRefs w hs) = javaVM w"
  "next_ref (DeleteLocalRefs w hs) = next_ref w"
  by (induction hs arbitrary: w) simp_all

lemma released_DeleteLocalRefs:
  "h \<noteq> 0 \<Longrightarrow> released (DeleteLocalRefs w hs) h = released w h + count_list hs h"
  by (induction hs arbitrary: w) auto

lemma kind_DeleteLocalRefs_other:
  "h \<notin> set hs \<Longrightarrow> kind (DeleteLocalRefs w hs) h = kind w h"
  by (induction hs arbitrary: w) auto

lemma kind_DeleteLocalRefs_none:
  "kind w h = None \<Longrightarrow> kind (DeleteLocalRefs w hs) h = None"
  by (induction hs arbitrary: w) auto

lemma kind_DeleteLocalRefs:
  "h \<in> set hs \<Longrightarrow> h \<noteq> 0 \<Longrightarrow> kind w h = Some Local \<Longrightarrow> kind (DeleteLocalRefs w hs) h = None"
proof (induction hs arbitrary: w)
  case Nil
  then show ?case by simp
next
  case (Cons a hs)
  show ?case
  proof (cases "a = h")
    case True
    with Cons.prems have "kind (DeleteLocalRef w a) h = None" by simp
    then have "kind (DeleteLocalRefs (DeleteLocalRef w a) hs) h = None"
      by (rule kind_DeleteLocalRefs_none)
    with True Cons.prems(2) show ?thesis by simp
  next
    case False
    with Cons.prems have "h \<in> set hs" by simp
    moreover have "kind (if a \<noteq> 0 then DeleteLocalRef w a else w) h = Some Local"
      using False Cons.prems(3) by simp
    ultimately show ?thesis using Cons.IH Cons.prems(2) by simp
  qed
qed

lemma count_list_nonnull:
  "distinct (nonnull hs) \<Longrightarrow> h \<noteq> 0 \<Longrightarrow> h \<in> set hs \<Longrightarrow> count_list hs h = 1"
proof (induction hs)
  case Nil
  then show ?case by simp
next
  case (Cons a hs)
  show ?case
  proof (cases "a = h")
    case True
    with Cons.prems have "h \<notin> set hs" by (simp add: nonnull_def)
    then have "count_list hs h = 0" by (simp add: count_list_0_iff)
    with True show ?thesis by simp
  next
    case False
    moreover from False Cons.prems have "h \<in> set hs" by simp
    moreover from Cons.prems(1) have "distinct (nonnull hs)"
      by (simp add: nonnull_def split: if_splits)
    ultimately show ?thesis using Cons.IH Cons.prems(2) by simp
  qed
qed

lemma tracked_registered:
  assumes "tracked wb d w"
  shows "distinct (nonnull (jniParams d))"
    and "\<forall>h\<in>set (jniParams d). h \<noteq> 0 \<longrightarrow>
           next_ref wb < h \<and> h \<le> next_ref w \<and> released w h = released wb h
           \<and> kind w h = Some Local"
proof -
  from assms obtain regs
    where r: "jniParams d = regs @ replicate (length (jniParams d) - length regs) 0"
      and di: "distinct (nonnull regs)"
      and h: "\<forall>h\<in>set regs. h \<noteq> 0 \<longrightarrow>
                next_ref wb < h \<and> h \<le> next_ref w \<and> released w h = released wb h
                \<and> kind w h = Some Local"
    by (auto simp: tracked_def)
  have "nonnull (jniParams d) = nonnull regs"
    by (subst r) (simp add: nonnull_def)
  with di show "distinct (nonnull (jniParams d))" by simp
  have "\<forall>h\<in>set (jniParams d). h \<noteq> 0 \<longrightarrow> h \<in> set regs"
    by (subst r) auto
  with h show "\<forall>h\<in>set (jniParams d). h \<noteq> 0 \<longrightarrow>
           next_ref wb < h \<and> h \<le> next_ref w \<and> released w h = released wb h
           \<and> kind w h = Some Local"
    by blast
qed

lemma GetMethodID_found:
  "\<not> is_null (fst (GetMethodID w cls name sig)) \<Longrightarrow> snd (GetMethodID w cls name sig) = w"
  by (cases "deref w cls";
      cases "lookup_method w (case deref w cls of JClass c \<Rightarrow> c | _ \<Rightarrow> []) name sig False")
     (simp_all add: GetMethodID_def find_member_def)

lemma getMethodInfo_jclass_Inr:
  assumes "attachable w"
    and "getMethodInfo_jclass (Suc n) w cls methodName sig = Some (Inr mi, w2)"
  shows "w2 = w \<and> weak' mi"
proof -
  let ?q = "GetMethodID w cls (c_str methodName) sig"
  from checkException_cases [OF assms(1), of n] assms(2)
  have c1: "checkException (Suc n) w = Some (Inr (), w)"
    by (auto simp: getMethodInfo_jclass_def jni_bind_def)
  have q: "frame w (snd ?q)" by (rule frame_quiet [OF frame_refl]) simp
  from checkException_cases [OF frame_attachable [OF q assms(1)], of n] assms(2) c1
  have c2: "checkException (Suc n) (snd ?q) = Some (Inr (), snd ?q)"
    by (auto simp: getMethodInfo_jclass_def jni_bind_def case_prod_beta)
  from assms(2) c1 c2 have "\<not> is_null (fst ?q)" and "w2 = snd ?q" and "weak' mi"
    by (auto simp: getMethodInfo_jclass_def jni_bind_def case_prod_beta throw_def
        split: if_splits)
  then show ?thesis using GetMethodID_found by simp
qed

lemma nargs_small: "length v < 256 \<Longrightarrow> nargs v = length v"
  by (simp add: nargs_def unsigned_of_nat take_bit_nat_eq_self)

section \<open>The calls release what was registered\<close>

lemma attachJniEnv_attachable: "attachable w \<Longrightarrow> attachJniEnv w = (Inr Attached, w)"
  by (cases "javaVM w") (simp_all add: attachable_def attachJniEnv_def)

lemma framed_callStatic:
  assumes "attachable w"
  shows "framed w (JNICaller_callStatic (Suc n) T w cls mid args)"
proof -
  have q: "\<And>x. framed w (Some (x, CallStaticVoidMethod w cls mid args))"
    by (rule framed_Some, rule frame_quiet [OF frame_refl]) simp
  have pr: "\<And>x. framed w (Some (x, snd (CallStaticPrimitiveMethod w cls mid args)))"
    by (rule framed_Some, rule frame_quiet [OF frame_refl]) simp
  have ob: "\<And>x. framed w (Some (x, snd (CallStaticObjectMethod w cls mid args)))"
    by (rule framed_Some, rule frame_alloc [OF frame_refl]) simp
  have oc: "\<And>T. T \<in> {R_string, R_vec_string, R_vec_uint8, R_vec_jobject} \<Longrightarrow>
     framed w (jni_bind (JNIToCPPConversor_convert (Suc n) T
                 (snd (CallStaticObjectMethod w cls mid args))
                 (fst (CallStaticObjectMethod w cls mid args)))
           (\<lambda>result w2. Some (Inr result, if fst (CallStaticObjectMethod w cls mid args) \<noteq> 0
                                then DeleteLocalRef w2 (fst (CallStaticObjectMethod w cls mid args))
                                else w2)))"
    by (rule framed_object_call [OF assms]) simp_all
  show ?thesis
    by (cases T)
       (simp_all only: JNICaller_callStatic.simps case_prod_beta Let_def q pr ob oc insert_iff
          simp_thms)
qed

lemma teardown_releases_once:
  assumes "attachable wb" and "tracked wb d w3" and "frame w3 w4"
  shows "\<exists>w6. JNIParamDestructor_dtor (Suc n) d w4 = Some w6 \<and> javaVM w6 = javaVM wb
           \<and> next_ref w3 \<le> next_ref w6
           \<and> (\<forall>h\<in>set (jniParams d). h \<noteq> 0 \<longrightarrow>
                 released w6 h = Suc (released wb h) \<and> kind w6 h = None)"
proof -
  let ?w5 = "DeleteLocalRefs w4 (jniParams d)"
  have f3: "frame wb w3" using assms(2) by (simp add: tracked_def)
  have at5: "attachable ?w5"
    using frame_attachable [OF assms(3) frame_attachable [OF f3 assms(1)]]
    by (simp add: attachable_def)
  from clearException_spec [OF at5, of n] obtain w6
    where c: "clearException (Suc n) ?w5 = Some (Inr (), w6)" and f6: "frame ?w5 w6"
    by blast
  have d: "JNIParamDestructor_dtor (Suc n) d w4 = Some w6"
    using c by (simp add: JNIParamDestructor_dtor_def)
  have j: "javaVM w6 = javaVM wb"
    using f6 assms(3) f3 by (simp add: frame_def)
  have n6: "next_ref w3 \<le> next_ref w6"
    using frame_next_ref [OF f6] frame_next_ref [OF assms(3)] by simp
  have "\<forall>h\<in>set (jniParams d). h \<noteq> 0 \<longrightarrow>
          released w6 h = Suc (released wb h) \<and> kind w6 h = None"
  proof (intro ballI impI)
    fix h assume h: "h \<in> set (jniParams d)" "h \<noteq> 0"
    with tracked_registered(2) [OF assms(2)]
    have b: "h \<le> next_ref w3" and r3: "released w3 h = released wb h"
      and k3: "kind w3 h = Some Local"
      by simp_all
    have c1: "count_list (jniParams d) h = 1"
      using tracked_registered(1) [OF assms(2)] h(2,1) by (rule count_list_nonnull)
    have b4: "h \<le> next_ref w4" using b frame_next_ref [OF assms(3)] by simp
    have "released w6 h = released ?w5 h" using b4 by (intro frame_released [OF f6]) simp
    also have "\<dots> = released w4 h + 1" using h(2) c1 by (simp add: released_DeleteLocalRefs)
    also have "released w4 h = released w3 h" using b by (intro frame_released [OF assms(3)]) simp
    finally have r6: "released w6 h = Suc (released wb h)" using r3 by simp
    have "kind w4 h = Some Local" using frame_kind [OF assms(3) b] k3 by simp
    with h have "kind ?w5 h = None" by (intro kind_DeleteLocalRefs)
    moreover have "kind w6 h = kind ?w5 h" using b4 by (intro frame_kind [OF f6]) simp
    ultimately show "released w6 h = Suc (released wb h) \<and> kind w6 h = None"
      using r6 by simp
  qed
  with d j n6 show ?thesis by blast
qed

lemma tracked_above:
  "tracked wb d w \<Longrightarrow> \<forall>h\<in>set (jniParams d). h \<noteq> 0 \<longrightarrow> next_ref wb < h"
  using tracked_registered(2) by blast

text \<open>The scope of \<open>paramDestructor\<close>, around any body that returns and is framed.\<close>

lemma marshalling_scope:
  assumes "attachable w" and "length v < 256"
    and "\<And>args w3. attachable w3 \<Longrightarrow> framed w3 (body args w3)"
  shows "\<exists>r d w3 res w'.
           convert_args (Suc n) v w (JNIParamDestructor_ctor (nargs v)) = Some (r, d, w3)
           \<and> scope_exit (case r of Inl e \<Rightarrow> Some (Inl e, w3) | Inr args \<Rightarrow> body args w3)
                (JNIParamDestructor_dtor (Suc n) d) = Some (res, w')
           \<and> javaVM w' = javaVM w \<and> next_ref w \<le> next_ref w'
           \<and> (\<forall>h\<in>set (jniParams d). h \<noteq> 0 \<longrightarrow>
                 next_ref w < h \<and> released w' h = Suc (released w h) \<and> kind w' h = None)"
proof -
  have cap: "currentIndex (JNIParamDestructor_ctor (nargs v)) + length v
               \<le> length (jniParams (JNIParamDestructor_ctor (nargs v)))"
    using assms(2) by (simp add: JNIParamDestructor_ctor_def nargs_small)
  from convert_args_spec [OF assms(1) tracked_ctor cap, of n] obtain r d w3
    where ca: "convert_args (Suc n) v w (JNIParamDestructor_ctor (nargs v)) = Some (r, d, w3)"
      and tr: "tracked w d w3"
    by blast
  let ?body = "case r of Inl e \<Rightarrow> Some (Inl e, w3) | Inr args \<Rightarrow> body args w3"
  have at3: "attachable w3" using tr assms(1) by (rule tracked_attachable)
  have "framed w3 ?body"
    by (cases r) (simp_all add: framed_Some assms(3) [OF at3])
  then obtain res w4 where body: "?body = Some (res, w4)" and f4: "frame w3 w4"
    by (auto simp: framed_def)
  from teardown_releases_once [OF assms(1) tr f4, of n] obtain w6
    where dt: "JNIParamDestructor_dtor (Suc n) d w4 = Some w6"
      and j: "javaVM w6 = javaVM w" and n6: "next_ref w3 \<le> next_ref w6"
      and rel: "\<forall>h\<in>set (jniParams d). h \<noteq> 0 \<longrightarrow>
                  released w6 h = Suc (released w h) \<and> kind w6 h = None"
    by blast
  have "scope_exit ?body (JNIParamDestructor_dtor (Suc n) d) = Some (res, w6)"
    using body dt by (simp add: scope_exit_def)
  moreover have "next_ref w \<le> next_ref w6"
    using n6 tr by (auto simp: tracked_def dest: frame_next_ref)
  ultimately show ?thesis
    using ca j rel tracked_above [OF tr] by blast
qed

lemma getStaticMethodInfo_Inr:
  assumes "attachable w"
    and "getStaticMethodInfo (Suc n) w className methodName sig = Some (Inr mi, w2)"
  shows "frame w w2 \<and> \<not> weak' mi \<and> classId mi \<noteq> 0 \<and> classId mi \<le> next_ref w2"
proof -
  let ?p = "FindClass w (c_str className)"
  let ?q = "GetStaticMethodID (snd ?p) (fst ?p) (c_str methodName) sig"
  have a: "alloc w ?p" by simp
  have f1: "frame w (snd ?p)" using frame_alloc [OF frame_refl a] .
  have at1: "attachable (snd ?p)" using f1 assms(1) by (rule frame_attachable)
  from checkException_cases [OF at1, of n] assms(2)
  have c1: "checkException (Suc n) (snd ?p) = Some (Inr (), snd ?p)"
    by (auto simp: getStaticMethodInfo_def jni_bind_def case_prod_beta)
  have q: "quiet (snd ?p) (snd ?q)" by simp
  have f2: "frame w (snd ?q)" using f1 q by (rule frame_quiet)
  from checkException_cases [OF frame_attachable [OF f2 assms(1)], of n] assms(2) c1
  have c2: "checkException (Suc n) (snd ?q) = Some (Inr (), snd ?q)"
    by (auto simp: getStaticMethodInfo_def jni_bind_def case_prod_beta Let_def throw_def
        split: if_splits)
  from assms(2) c1 c2 have "fst ?p \<noteq> 0" and "w2 = snd ?q" and "\<not> weak' mi"
    and "classId mi = fst ?p"
    by (auto simp: getStaticMethodInfo_def jni_bind_def case_prod_beta Let_def throw_def
        split: if_splits)
  moreover have "fst ?p = 0 \<or> fst ?p \<le> next_ref (snd ?q)"
    using alloc_handle [OF a] q by (auto simp: quiet_def)
  ultimately show ?thesis using f2 by auto
qed

lemma convert_args_example:
  "\<exists>r d w3. convert_args (Suc 0) [A_string ''x'', A_int32 5, A_vec_string [''a'']] Foo_runtime
       (JNIParamDestructor_ctor (nargs [A_string ''x'', A_int32 5, A_vec_string [''a'']]))
     = Some (r, d, w3) \<and> jniParams d = [3, 5, 0]"
proof -
  have "nargs [A_string ''x'', A_int32 5, A_vec_string [''a'']] = 3"
    by (simp add: nargs_small)
  then show ?thesis
    by (simp only:) (simp add: example_defs fake_defs lib_defs Let_def eval_nat_numeral)
qed

text \<open>
  C2. In an initialised library (the runtime reference is stored and the thread attaches),
  for a call with fewer than 256 arguments whose method was resolved: the call through
  \<open>Call\<close> and the call through \<open>CallStatic\<close> return, with a value or with an exception,
  and every handle that the conversion of the arguments registered with the
  \<open>JNIParamDestructor\<close> was created during the call, has been released exactly once more
  than before the call, and is no longer live. With no argument nothing is registered. The
  arguments are converted from the first to the last.
\<close>

theorem calls_release_registered_exactly_once:
  assumes "javaVM w = Some status" and "0 \<le> status" and "length v < 256"
  shows "(getMethodInfo_jclass (Suc n) w cls methodName
            (if signature = [] then getJNISignature (cpp_of_ret T) (map type_of v)
             else c_str signature) = Some (Inr methodInfo, w2) \<longrightarrow>
          (\<exists>r d w3 res w'.
             convert_args (Suc n) v w2 (JNIParamDestructor_ctor (nargs v)) = Some (r, d, w3)
             \<and> Call (Suc n) T inst cls methodName signature v w = Some (res, w')
             \<and> (\<forall>h\<in>set (jniParams d). h \<noteq> 0 \<longrightarrow>
                   next_ref w < h \<and> released w' h = Suc (released w h) \<and> kind w' h = None)))
       \<and> (getStaticMethodInfo (Suc n) w className staticName (c_str staticSignature)
            = Some (Inr staticInfo, ws) \<longrightarrow>
          (\<exists>r d w3 res w'.
             convert_args (Suc n) v ws (JNIParamDestructor_ctor (nargs v)) = Some (r, d, w3)
             \<and> CallStatic (Suc n) T className staticName staticSignature v w = Some (res, w')
             \<and> (\<forall>h\<in>set (jniParams d). h \<noteq> 0 \<longrightarrow>
                   next_ref w < h \<and> released w' h = Suc (released w h) \<and> kind w' h = None)))"
proof (intro conjI impI)
  have at: "attachable w" using assms(1,2) by (simp add: attachable_def)
  assume res: "getMethodInfo_jclass (Suc n) w cls methodName
            (if signature = [] then getJNISignature (cpp_of_ret T) (map type_of v)
             else c_str signature) = Some (Inr methodInfo, w2)"
  from getMethodInfo_jclass_Inr [OF at res] have w2: "w2 = w" and wk: "weak' methodInfo"
    by simp_all
  from marshalling_scope [OF at assms(3), of
      "\<lambda>args w3. JNICaller_callInstance (Suc n) T w3 inst (methodId methodInfo) args" n]
  obtain r d w3 res' w'
    where ca: "convert_args (Suc n) v w (JNIParamDestructor_ctor (nargs v)) = Some (r, d, w3)"
      and sc: "scope_exit (case r of Inl e \<Rightarrow> Some (Inl e, w3)
                 | Inr args \<Rightarrow> JNICaller_callInstance (Suc n) T w3 inst (methodId methodInfo) args)
                (JNIParamDestructor_dtor (Suc n) d) = Some (res', w')"
      and rel: "\<forall>h\<in>set (jniParams d). h \<noteq> 0 \<longrightarrow>
                 next_ref w < h \<and> released w' h = Suc (released w h) \<and> kind w' h = None"
    using framed_callInstance by blast
  have "Call (Suc n) T inst cls methodName signature v w = Some (res', w')"
    using res ca sc wk
    by (simp add: Call_def attachJniEnv_attachable [OF at] w2 jni_bind_def scope_exit_def
        JNIMethodInfo_dtor_def Let_def)
  with ca rel w2
  show "\<exists>r d w3 res w'.
             convert_args (Suc n) v w2 (JNIParamDestructor_ctor (nargs v)) = Some (r, d, w3)
             \<and> Call (Suc n) T inst cls methodName signature v w = Some (res, w')
             \<and> (\<forall>h\<in>set (jniParams d). h \<noteq> 0 \<longrightarrow>
                   next_ref w < h \<and> released w' h = Suc (released w h) \<and> kind w' h = None)"
    by blast
next
  have at: "attachable w" using assms(1,2) by (simp add: attachable_def)
  assume res: "getStaticMethodInfo (Suc n) w className staticName (c_str staticSignature)
            = Some (Inr staticInfo, ws)"
  from getStaticMethodInfo_Inr [OF at res]
  have f2: "frame w ws" and wk: "\<not> weak' staticInfo" and c0: "classId staticInfo \<noteq> 0"
    and cb: "classId staticInfo \<le> next_ref ws"
    by simp_all
  have at2: "attachable ws" using f2 at by (rule frame_attachable)
  from marshalling_scope [OF at2 assms(3), of
      "\<lambda>args w3. JNICaller_callStatic (Suc n) T w3 (classId staticInfo) (methodId staticInfo) args" n]
  obtain r d w3 res' w'
    where ca: "convert_args (Suc n) v ws (JNIParamDestructor_ctor (nargs v)) = Some (r, d, w3)"
      and sc: "scope_exit (case r of Inl e \<Rightarrow> Some (Inl e, w3)
                 | Inr args \<Rightarrow> JNICaller_callStatic (Suc n) T w3 (classId staticInfo)
                                 (methodId staticInfo) args)
                (JNIParamDestructor_dtor (Suc n) d) = Some (res', w')"
      and j: "javaVM w' = javaVM ws"
      and rel: "\<forall>h\<in>set (jniParams d). h \<noteq> 0 \<longrightarrow>
                 next_ref ws < h \<and> released w' h = Suc (released ws h) \<and> kind w' h = None"
    using framed_callStatic by blast
  have at': "attachable w'" using j at2 by (simp add: attachable_def)
  let ?w'' = "DeleteLocalRef w' (classId staticInfo)"
  have "CallStatic (Suc n) T className staticName staticSignature v w = Some (res', ?w'')"
    using res ca sc wk c0
    by (simp add: CallStatic_def attachJniEnv_attachable [OF at] attachJniEnv_attachable [OF at']
        jni_bind_def scope_exit_def JNIMethodInfo_dtor_def Let_def)
  moreover have "\<forall>h\<in>set (jniParams d). h \<noteq> 0 \<longrightarrow>
                   next_ref w < h \<and> released ?w'' h = Suc (released w h) \<and> kind ?w'' h = None"
  proof (intro ballI impI)
    fix h assume "h \<in> set (jniParams d)" "h \<noteq> 0"
    with rel have b: "next_ref ws < h" and r: "released w' h = Suc (released ws h)"
      and k: "kind w' h = None" by simp_all
    have "released ws h = released w h" using b by (intro frame_released [OF f2]) simp
    moreover have "released ?w'' h = released w' h" using b cb by simp
    moreover have "kind ?w'' h = None" using k by simp
    moreover have "next_ref w < h" using b frame_next_ref [OF f2] by simp
    ultimately show "next_ref w < h \<and> released ?w'' h = Suc (released w h) \<and> kind ?w'' h = None"
      using r by simp
  qed
  ultimately
  show "\<exists>r d w3 res w'.
             convert_args (Suc n) v ws (JNIParamDestructor_ctor (nargs v)) = Some (r, d, w3)
             \<and> CallStatic (Suc n) T className staticName staticSignature v w = Some (res, w')
             \<and> (\<forall>h\<in>set (jniParams d). h \<noteq> 0 \<longrightarrow>
                   next_ref w < h \<and> released w' h = Suc (released w h) \<and> kind w' h = None)"
    using ca by blast
qed

theorem calls_release_registered_exactly_once_witness:
  "\<exists>methodInfo staticInfo ws.
     getMethodInfo_jclass (Suc 0) Foo_runtime 2 ''names''
        (getJNISignature (cpp_of_ret R_vec_string)
           (map type_of [A_string ''x'', A_int32 5, A_vec_string [''a'']]))
       = Some (Inr methodInfo, Foo_runtime)
     \<and> getStaticMethodInfo (Suc 0) Foo_runtime ''Foo'' ''list''
          (c_str ''(Ljava/lang/String;I[Ljava/lang/String;)[Ljava/lang/String;'')
        = Some (Inr staticInfo, ws)
     \<and> (\<exists>r d w3 res w'.
          convert_args (Suc 0) [A_string ''x'', A_int32 5, A_vec_string [''a'']] Foo_runtime
              (JNIParamDestructor_ctor (nargs [A_string ''x'', A_int32 5, A_vec_string [''a'']]))
            = Some (r, d, w3)
          \<and> Call (Suc 0) R_vec_string 1 2 ''names'' [] [A_string ''x'', A_int32 5, A_vec_string [''a'']]
                Foo_runtime = Some (res, w')
          \<and> (\<forall>h\<in>set (jniParams d). h \<noteq> 0 \<longrightarrow>
                next_ref Foo_runtime < h \<and> released w' h = Suc (released Foo_runtime h)
                \<and> kind w' h = None)
          \<and> jniParams d = [3, 5, 0])
     \<and> (\<exists>r d w3 res w'.
          convert_args (Suc 0) [A_string ''x'', A_int32 5, A_vec_string [''a'']] ws
              (JNIParamDestructor_ctor (nargs [A_string ''x'', A_int32 5, A_vec_string [''a'']]))
            = Some (r, d, w3)
          \<and> CallStatic (Suc 0) R_vec_string ''Foo'' ''list''
                ''(Ljava/lang/String;I[Ljava/lang/String;)[Ljava/lang/String;''
                [A_string ''x'', A_int32 5, A_vec_string [''a'']] Foo_runtime = Some (res, w')
          \<and> (\<forall>h\<in>set (jniParams d). h \<noteq> 0 \<longrightarrow>
                next_ref Foo_runtime < h \<and> released w' h = Suc (released Foo_runtime h)
                \<and> kind w' h = None))"
proof -
  let ?v = "[A_string ''x'', A_int32 5, A_vec_string [''a'']]"
  let ?sig = "''(Ljava/lang/String;I[Ljava/lang/String;)[Ljava/lang/String;''"
  have vm: "javaVM Foo_runtime = Some 0" by (simp add: Foo_runtime_def)
  have len: "length ?v < 256" by simp
  have z: "(0::int) \<le> 0" by simp
  have "\<exists>methodInfo. getMethodInfo_jclass (Suc 0) Foo_runtime 2 ''names''
          (getJNISignature (cpp_of_ret R_vec_string) (map type_of ?v))
          = Some (Inr methodInfo, Foo_runtime)"
    by (simp add: example_defs fake_defs lib_defs Let_def)
  then obtain methodInfo where m0: "getMethodInfo_jclass (Suc 0) Foo_runtime 2 ''names''
          (getJNISignature (cpp_of_ret R_vec_string) (map type_of ?v))
          = Some (Inr methodInfo, Foo_runtime)"
    by (rule exE)
  have m: "getMethodInfo_jclass (Suc 0) Foo_runtime 2 ''names''
          (if ([]::string) = [] then getJNISignature (cpp_of_ret R_vec_string) (map type_of ?v)
           else c_str []) = Some (Inr methodInfo, Foo_runtime)"
    using m0 by (simp only: if_True refl)
  have "\<exists>staticInfo ws. getStaticMethodInfo (Suc 0) Foo_runtime ''Foo'' ''list'' (c_str ?sig)
          = Some (Inr staticInfo, ws)"
    by (simp add: example_defs fake_defs lib_defs Let_def)
  then obtain staticInfo ws where s: "getStaticMethodInfo (Suc 0) Foo_runtime ''Foo'' ''list''
          (c_str ?sig) = Some (Inr staticInfo, ws)"
    by (elim exE)
  note t = calls_release_registered_exactly_once [OF vm z len, of 0 2 "''names''" "[]"
      R_vec_string methodInfo Foo_runtime 1 "''Foo''" "''list''" ?sig staticInfo ws]
  note c2 = t [THEN conjunct2, THEN mp, OF s]
  from t [THEN conjunct1, THEN mp, OF m] obtain r d w3 res w'
    where ca: "convert_args (Suc 0) ?v Foo_runtime (JNIParamDestructor_ctor (nargs ?v))
                 = Some (r, d, w3)"
      and cl: "Call (Suc 0) R_vec_string 1 2 ''names'' [] ?v Foo_runtime = Some (res, w')"
      and rel: "\<forall>h\<in>set (jniParams d). h \<noteq> 0 \<longrightarrow>
                  next_ref Foo_runtime < h \<and> released w' h = Suc (released Foo_runtime h)
                  \<and> kind w' h = None"
    by (elim exE conjE)
  from convert_args_example obtain r0 d0 w0
    where ca0: "convert_args (Suc 0) ?v Foo_runtime (JNIParamDestructor_ctor (nargs ?v))
                  = Some (r0, d0, w0)"
      and jp0: "jniParams d0 = [3, 5, 0]"
    by (elim exE conjE)
  from ca ca0 have "d0 = d" by simp
  with jp0 have jp: "jniParams d = [3, 5, 0]" by simp
  have c1: "\<exists>r d w3 res w'.
      convert_args (Suc 0) ?v Foo_runtime (JNIParamDestructor_ctor (nargs ?v)) = Some (r, d, w3)
      \<and> Call (Suc 0) R_vec_string 1 2 ''names'' [] ?v Foo_runtime = Some (res, w')
      \<and> (\<forall>h\<in>set (jniParams d). h \<noteq> 0 \<longrightarrow>
            next_ref Foo_runtime < h \<and> released w' h = Suc (released Foo_runtime h)
            \<and> kind w' h = None)
      \<and> jniParams d = [3, 5, 0]"
    by (rule exI [of _ r], rule exI [of _ d], rule exI [of _ w3], rule exI [of _ res],
        rule exI [of _ w'], intro conjI; fact ca cl rel jp)
  show ?thesis
    by (rule exI [of _ methodInfo], rule exI [of _ staticInfo], rule exI [of _ ws],
        intro conjI; fact m0 s c1 c2)
qed

text \<open>
  The journal of that call through \<open>Call\<close>. The registered handles \<open>3\<close> and \<open>5\<close> are
  released at the end. The handles that were created and not registered stay: the element
  string \<open>6\<close> that \<open>toJObjectArray\<close> made (part_000, lines 91-92), and the throwable \<open>7\<close>
  and its message string \<open>9\<close> that \<open>checkException\<close> read (part_000, lines 261-268).
\<close>

lemma Call_names_journal:
  "\<exists>w'. Call (Suc 0) R_vec_string 1 2 ''names'' []
       [A_string ''x'', A_int32 5, A_vec_string [''a'']] Foo_runtime
       = Some (Inl (JNIException ''bang''), w')
     \<and> rev (journal w') =
         [New Local 3, New Local 4, New Local 5, New Local 6, Delete Local 4,
          New Local 7, New Local 8, New Local 9, Delete Local 8,
          Delete Local 3, Delete Local 5]
     \<and> kind w' 6 = Some Local \<and> kind w' 7 = Some Local \<and> kind w' 9 = Some Local"
proof -
  have "nargs [A_string ''x'', A_int32 5, A_vec_string [''a'']] = 3"
    by (simp add: nargs_small)
  then show ?thesis
    by (simp add: Call_def)
       (simp add: example_defs fake_defs lib_defs kind_def Let_def eval_nat_numeral)
qed

section \<open>The class handle of JNIObject::Call\<close>

lemma frame_DeleteLocalRefs:
  "frame w0 w \<Longrightarrow> \<forall>h\<in>set hs. h \<noteq> 0 \<longrightarrow> next_ref w0 < h \<and> h \<le> next_ref w
     \<Longrightarrow> frame w0 (DeleteLocalRefs w hs)"
proof (induction hs arbitrary: w)
  case Nil
  then show ?case by simp
next
  case (Cons a hs)
  have "frame w0 (if a \<noteq> 0 then DeleteLocalRef w a else w)"
    using Cons.prems by (auto intro: frame_DeleteLocalRef)
  moreover have "\<forall>h\<in>set hs. h \<noteq> 0 \<longrightarrow>
      next_ref w0 < h \<and> h \<le> next_ref (if a \<noteq> 0 then DeleteLocalRef w a else w)"
    using Cons.prems(2) by simp
  ultimately show ?case using Cons.IH by simp
qed

lemma toVectorJObject_loop_later:
  assumes "\<forall>h\<in>set acc. h = 0 \<or> next_ref w0 < h" and "next_ref w0 \<le> next_ref w"
  shows "\<forall>h\<in>set (fst (toVectorJObject_loop w arr i k acc)). h = 0 \<or> next_ref w0 < h"
  using assms
proof (induction k arbitrary: w i acc)
  case 0
  then show ?case by simp
next
  case (Suc k)
  let ?p = "GetObjectArrayElement w arr (int i)"
  have a: "alloc w ?p" by simp
  have h1: "\<forall>h\<in>set (acc @ [fst ?p]). h = 0 \<or> next_ref w0 < h"
    using Suc.prems alloc_handle [OF a] by auto
  have h2: "next_ref w0 \<le> next_ref (snd ?p)"
    using Suc.prems(2) frame_next_ref [OF frame_alloc [OF frame_refl a]] by simp
  have "\<forall>h\<in>set (fst (toVectorJObject_loop (snd ?p) arr (Suc i) k (acc @ [fst ?p]))).
          h = 0 \<or> next_ref w0 < h"
    using h1 h2 by (rule Suc.IH)
  then show ?case
    by (simp only: toVectorJObject_loop.simps case_prod_beta Let_def)
qed

lemma jni_bind_Inr:
  "jni_bind m k = Some (Inr y, w') \<Longrightarrow> \<exists>x w1. m = Some (Inr x, w1) \<and> k x w1 = Some (Inr y, w')"
  by (cases m) (auto simp: jni_bind_def split: sum.splits)

lemma convert_no_handles:
  assumes "JNIToCPPConversor_convert n T w obj = Some (Inr x, w')"
    and "T \<noteq> R_vec_jobject"
  shows "handles_of x = []"
proof (cases T)
  case R_string
  with assms(1) show ?thesis by (auto dest!: jni_bind_Inr)
next
  case R_vec_string
  with assms(1) show ?thesis by (auto dest!: jni_bind_Inr)
next
  case R_vec_uint8
  with assms(1) show ?thesis by (auto dest!: jni_bind_Inr)
qed (use assms in simp_all)

lemma native_of_no_handles: "handles_of (native_of T v) = []"
  by (cases T) simp_all

lemma callInstance_later:
  assumes "JNICaller_callInstance n T w inst mid args = Some (Inr x, w')"
  shows "later w x"
proof -
  let ?p = "CallObjectMethod w inst mid args"
  have a: "alloc w ?p" by simp
  have conv: "later w x"
    if "jni_bind (JNIToCPPConversor_convert n T' (snd ?p) (fst ?p))
          (\<lambda>result w2. Some (Inr result, if fst ?p \<noteq> 0 then DeleteLocalRef w2 (fst ?p) else w2))
        = Some (Inr x, w')" and "T' \<noteq> R_vec_jobject" for T'
  proof -
    from jni_bind_Inr [OF that(1)] obtain y w1
      where "JNIToCPPConversor_convert n T' (snd ?p) (fst ?p) = Some (Inr y, w1)" and "x = y"
      by auto
    with convert_no_handles [OF _ that(2)] show ?thesis by (simp add: later_def)
  qed
  have prim: "later w x"
    if "(let (v, w1) = CallPrimitiveMethod w inst mid args in Some (Inr (native_of T' v), w1))
          = Some (Inr x, w')" for T'
    using that by (auto simp: case_prod_beta later_def native_of_no_handles)
  show ?thesis
  proof (cases T)
    case R_JNIObjectPtr
    with assms alloc_handle [OF a] show ?thesis
      by (auto simp: later_def case_prod_beta CreateShared_def JNIObject_new_def)
  next
    case R_vec_jobject
    have "\<forall>h\<in>set (fst (toVectorJObject (snd ?p) (fst ?p))). h = 0 \<or> next_ref w < h"
      using toVectorJObject_loop_later [of "[]" w "snd ?p"]
        frame_next_ref [OF frame_alloc [OF frame_refl a]]
      by (simp add: toVectorJObject_def)
    moreover from assms R_vec_jobject
    have "x = V_vec_jobject (fst (toVectorJObject (snd ?p) (fst ?p)))"
      by (simp add: case_prod_beta jni_bind_def)
    ultimately show ?thesis by (simp add: later_def)
  next
    case R_string
    with assms show ?thesis by (intro conv [of R_string]) (simp_all add: case_prod_beta)
  next
    case R_vec_string
    with assms show ?thesis by (intro conv [of R_vec_string]) (simp_all add: case_prod_beta)
  next
    case R_vec_uint8
    with assms show ?thesis by (intro conv [of R_vec_uint8]) (simp_all add: case_prod_beta)
  next
    case R_void
    with assms show ?thesis by (auto simp: later_def)
  next
    case R_bool
    with assms prim [of R_bool] show ?thesis by simp
  next
    case R_int8
    with assms prim [of R_int8] show ?thesis by simp
  next
    case R_uint8
    with assms prim [of R_uint8] show ?thesis by simp
  next
    case R_int16
    with assms prim [of R_int16] show ?thesis by simp
  next
    case R_int32
    with assms prim [of R_int32] show ?thesis by simp
  next
    case R_int64
    with assms prim [of R_int64] show ?thesis by simp
  next
    case R_float
    with assms prim [of R_float] show ?thesis by simp
  next
    case R_double
    with assms prim [of R_double] show ?thesis by simp
  qed
qed

lemma later_mono: "later w x \<Longrightarrow> next_ref w0 \<le> next_ref w \<Longrightarrow> later w0 x"
  by (auto simp: later_def)

lemma framed_getMethodInfo_jclass:
  assumes "attachable w"
  shows "framed w (getMethodInfo_jclass (Suc n) w cls methodName sig)"
  unfolding getMethodInfo_jclass_def
proof (rule framed_bind [OF framed_checkException [OF assms]])
  fix x w1
  assume f1: "frame w w1"
  let ?q = "GetMethodID w1 cls (c_str methodName) sig"
  have f2: "frame w (snd ?q)" using f1 by (rule frame_quiet) simp
  have at2: "attachable (snd ?q)" using f2 assms by (rule frame_attachable)
  have kb: "framed w (jni_bind (checkException (Suc n) (snd ?q)) k)"
    if k: "\<And>y w3. frame w w3 \<Longrightarrow> framed w (k y w3)" for k
    using framed_weaken [OF f2 framed_checkException [OF at2]] k by (rule framed_bind)
  have th: "framed w (if b then Some (throw msg w3) else Some (Inr mi, w3))"
    if "frame w w3" for b msg w3 and mi :: JNIMethodInfo
    using frame_quiet [OF that, of "LOGE (''JNI Exception: '' @ c_str msg) w3"]
    by (simp add: framed_Some throw_def that)
  show "framed w (let (mid, w2) = ?q in
      jni_bind (checkException (Suc n) w2)
        (\<lambda>_ w3. if is_null mid
           then Some (throw (''Could not find the given '' @ [CHR 0x27] @ methodName
                         @ [CHR 0x27] @ '' static method in the given classId''
                         @ [CHR 0x27, CHR 0x27] @ '' class using the '' @ [CHR 0x27]
                         @ sig @ [CHR 0x27] @ '' signature.'') w3)
           else Some (Inr \<lparr>classId = cls, methodId = mid, weak' = True\<rparr>, w3)))"
    by (simp only: case_prod_beta Let_def, rule kb, rule th)
qed

lemma teardown_frame:
  assumes "attachable wb" and "tracked wb d w3" and "frame w3 w4"
  shows "\<exists>w6. JNIParamDestructor_dtor (Suc n) d w4 = Some w6 \<and> frame wb w6"
proof -
  let ?w5 = "DeleteLocalRefs w4 (jniParams d)"
  have f3: "frame wb w3" using assms(2) by (simp add: tracked_def)
  have f4: "frame wb w4" using f3 assms(3) by (rule frame_trans)
  have "\<forall>h\<in>set (jniParams d). h \<noteq> 0 \<longrightarrow> next_ref wb < h \<and> h \<le> next_ref w4"
    using tracked_registered(2) [OF assms(2)] frame_next_ref [OF assms(3)] by auto
  with f4 have f5: "frame wb ?w5" by (rule frame_DeleteLocalRefs)
  from clearException_spec [OF frame_attachable [OF f5 assms(1)], of n] obtain w6
    where c: "clearException (Suc n) ?w5 = Some (Inr (), w6)" and f6: "frame ?w5 w6"
    by blast
  have "JNIParamDestructor_dtor (Suc n) d w4 = Some w6"
    using c by (simp add: JNIParamDestructor_dtor_def)
  with frame_trans [OF f5 f6] show ?thesis by blast
qed

lemma Call_spec:
  assumes "attachable w" and "length v < 256"
  shows "\<exists>res w'. Call (Suc n) T inst cls methodName signature v w = Some (res, w')
           \<and> frame w w' \<and> (\<forall>x. res = Inr x \<longrightarrow> later w x)"
proof -
  define sig where "sig = (if signature = [] then getJNISignature (cpp_of_ret T) (map type_of v)
                           else c_str signature)"
  define scope where "scope = (\<lambda>methodInfo w2.
      scope_exit
        (case convert_args (Suc n) v w2 (JNIParamDestructor_ctor (nargs v)) of
           None \<Rightarrow> None
         | Some (r, paramDestructor, w3) \<Rightarrow>
             scope_exit
               (case r of
                  Inl e \<Rightarrow> Some (Inl e, w3)
                | Inr args \<Rightarrow>
                    JNICaller_callInstance (Suc n) T w3 inst (methodId methodInfo) args)
               (JNIParamDestructor_dtor (Suc n) paramDestructor))
        (JNIMethodInfo_dtor methodInfo))"
  have call: "Call (Suc n) T inst cls methodName signature v w
                = jni_bind (getMethodInfo_jclass (Suc n) w cls methodName sig) scope"
    by (simp add: Call_def attachJniEnv_attachable [OF assms(1)] sig_def scope_def Let_def)
  from framed_getMethodInfo_jclass [OF assms(1), of n cls methodName sig] obtain r w2
    where g: "getMethodInfo_jclass (Suc n) w cls methodName sig = Some (r, w2)"
      and f2: "frame w w2"
    by (auto simp: framed_def)
  show ?thesis
  proof (cases r)
    case (Inl e)
    with call g f2 show ?thesis by (simp add: jni_bind_def)
  next
    case (Inr mi)
    with g getMethodInfo_jclass_Inr [OF assms(1), of n cls methodName sig mi w2]
    have w2: "w2 = w" and wk: "weak' mi" by simp_all
    have cap: "currentIndex (JNIParamDestructor_ctor (nargs v)) + length v
                 \<le> length (jniParams (JNIParamDestructor_ctor (nargs v)))"
      using assms(2) by (simp add: JNIParamDestructor_ctor_def nargs_small)
    from convert_args_spec [OF assms(1) tracked_ctor cap, of n] obtain rc d w3
      where ca: "convert_args (Suc n) v w (JNIParamDestructor_ctor (nargs v)) = Some (rc, d, w3)"
        and tr: "tracked w d w3"
      by blast
    let ?body = "case rc of Inl e \<Rightarrow> Some (Inl e, w3)
                 | Inr args \<Rightarrow> JNICaller_callInstance (Suc n) T w3 inst (methodId mi) args"
    have at3: "attachable w3" using tr assms(1) by (rule tracked_attachable)
    have f3: "frame w w3" using tr by (simp add: tracked_def)
    have "framed w3 ?body"
      by (cases rc) (simp_all add: framed_Some framed_callInstance [OF at3])
    then obtain res w4 where body: "?body = Some (res, w4)" and f4: "frame w3 w4"
      by (auto simp: framed_def)
    from teardown_frame [OF assms(1) tr f4, of n] obtain w6
      where dt: "JNIParamDestructor_dtor (Suc n) d w4 = Some w6" and f6: "frame w w6"
      by blast
    have "scope mi w = Some (res, w6)"
      using ca body dt wk by (simp add: scope_def scope_exit_def JNIMethodInfo_dtor_def)
    with call g Inr w2
    have c: "Call (Suc n) T inst cls methodName signature v w = Some (res, w6)"
      by (simp add: jni_bind_def)
    have "later w x" if "res = Inr x" for x
    proof -
      from body that obtain args
        where "JNICaller_callInstance (Suc n) T w3 inst (methodId mi) args = Some (Inr x, w4)"
        by (cases rc) simp_all
      then have "later w3 x" by (rule callInstance_later)
      then show ?thesis using frame_next_ref [OF f3] by (rule later_mono)
    qed
    with c f6 show ?thesis by blast
  qed
qed

text \<open>
  C9. In an initialised library, \<open>JNIObject::Call\<close> on a proxy without a class-name override
  whose instance refers to an object returns, and the local handle that \<open>GetObjectClass\<close>
  created for the class at the beginning of the call is still live when the call has
  returned, was not released during the call, and is not among the handles of the result.
  \<open>getMethodInfo(env, jclass, ...)\<close> marks the method info weak (part_000, line 256), so that
  \<open>~JNIMethodInfo\<close> leaves the class handle, and \<open>JNIObject::Call\<close> has no
  \<open>DeleteLocalRef(clazz)\<close> of its own (safejni.h, lines 960-973), unlike \<open>Get\<close> and \<open>Set\<close>.
\<close>

theorem JNIObject_Call_class_handle_stays:
  assumes "javaVM w = Some status" and "0 \<le> status" and "length v < 256"
    and "className' this = []" and "is_object (deref w (instance' this))"
  shows "\<exists>res this' w'.
           JNIObject_Call (Suc n) T this methodName v w = Some (res, this', w')
           \<and> fst (GetObjectClass w (instance' this)) = Suc (next_ref w)
           \<and> kind w' (Suc (next_ref w)) = Some Local
           \<and> released w' (Suc (next_ref w)) = released w (Suc (next_ref w))
           \<and> (\<forall>x. res = Inr x \<longrightarrow> Suc (next_ref w) \<notin> set (handles_of x))"
proof -
  let ?h = "Suc (next_ref w)"
  let ?p = "GetObjectClass w (instance' this)"
  have at: "attachable w" using assms(1,2) by (simp add: attachable_def)
  have a: "alloc w ?p" by simp
  have h: "fst ?p = ?h" and n: "next_ref (snd ?p) = ?h"
    using assms(5) by (simp_all add: GetObjectClass_def new_ref_def Let_def)
  have k: "kind (snd ?p) ?h = Some Local" using alloc_kind [OF a] h by simp
  have r: "released (snd ?p) ?h = released w ?h" using a by (rule alloc_released)
  have at1: "attachable (snd ?p)"
    using frame_alloc [OF frame_refl a] at by (rule frame_attachable)
  from Call_spec [OF at1 assms(3), of n T "instance' this" "fst ?p" methodName
      "memberSignature' this"]
  obtain res w' where c: "Call (Suc n) T (instance' this) (fst ?p) methodName
                            (memberSignature' this) v (snd ?p) = Some (res, w')"
    and f: "frame (snd ?p) w'" and l: "\<forall>x. res = Inr x \<longrightarrow> later (snd ?p) x"
    by blast
  have "JNIObject_Call (Suc n) T this methodName v w
          = Some (res, NameAndSignatureClear_dtor this, w')"
    using c assms(4)
    by (simp add: JNIObject_Call_def attachJniEnv_attachable [OF at] case_prod_beta Let_def)
  moreover have "kind w' ?h = Some Local" using frame_kind [OF f, of ?h] n k by simp
  moreover have "released w' ?h = released w ?h"
    using frame_released [OF f, of ?h] n r by simp
  moreover have "\<forall>x. res = Inr x \<longrightarrow> ?h \<notin> set (handles_of x)"
    using l n by (auto simp: later_def)
  ultimately show ?thesis using h by blast
qed

theorem JNIObject_Call_class_handle_stays_witness:
  "javaVM Foo_runtime = Some 0 \<and> className' (CreateShared 1) = []
   \<and> is_object (deref Foo_runtime (instance' (CreateShared 1)))
   \<and> (\<exists>this' w'. JNIObject_Call (Suc 0) R_void (CreateShared 1) ''run'' [] Foo_runtime
                      = Some (Inr V_void, this', w')
          \<and> journal w' = [New Local 3] \<and> kind w' 3 = Some Local \<and> released w' 3 = 0)"
proof -
  have vm: "javaVM Foo_runtime = Some 0" by (simp add: Foo_runtime_def)
  have z: "(0::int) \<le> 0" by simp
  have len: "length ([]::cpp_arg list) < 256" by simp
  have cn: "className' (CreateShared 1) = []" by (simp add: CreateShared_def JNIObject_new_def)
  have ob: "is_object (deref Foo_runtime (instance' (CreateShared 1)))"
    by (simp add: example_defs fake_defs CreateShared_def JNIObject_new_def)
  have n: "Suc (next_ref Foo_runtime) = 3" by (simp add: Foo_runtime_def)
  have r0: "released Foo_runtime 3 = 0" by (simp add: Foo_runtime_def released_def)
  have "\<exists>this0 w0. JNIObject_Call (Suc 0) R_void (CreateShared 1) ''run'' [] Foo_runtime
                      = Some (Inr V_void, this0, w0) \<and> journal w0 = [New Local 3]"
    by (simp add: example_defs fake_defs lib_defs Let_def eval_nat_numeral)
  then obtain this0 w0
    where c0: "JNIObject_Call (Suc 0) R_void (CreateShared 1) ''run'' [] Foo_runtime
                 = Some (Inr V_void, this0, w0)"
      and j: "journal w0 = [New Local 3]"
    by (elim exE conjE)
  from JNIObject_Call_class_handle_stays [OF vm z len cn ob, of 0 R_void "''run''", unfolded n]
  obtain res this' w'
    where c: "JNIObject_Call (Suc 0) R_void (CreateShared 1) ''run'' [] Foo_runtime
                = Some (res, this', w')"
      and k: "kind w' 3 = Some Local" and r: "released w' 3 = released Foo_runtime 3"
    by (elim exE conjE)
  from c c0 have "w0 = w'" by simp
  with c0 j k r r0 vm cn ob show ?thesis by simp
qed

end
